theory Spec2Isabelle
  imports Complex_Main "HOL-Library.Sublist"
begin

section \<open>Strings as Python uses them\<close>

text \<open>
  Python's \<^verbatim>\<open>str.replace(old, new)\<close> for a non-empty \<open>old\<close>: scan from the left, replace
  each occurrence, continue after it.
\<close>

function str_replace :: "string \<Rightarrow> string \<Rightarrow> string \<Rightarrow> string" where
  "str_replace old new [] = []"
| "str_replace old new (c # cs) =
     (if old \<noteq> [] \<and> prefix old (c # cs)
      then new @ str_replace old new (drop (length old) (c # cs))
      else c # str_replace old new cs)"
  by pat_completeness auto
termination
  by (relation "measure (\<lambda>(old, new, s). length s)") (auto simp: neq_Nil_conv)

text \<open>Python's \<^verbatim>\<open>p in s\<close> on strings: \<open>p\<close> occurs in \<open>s\<close> as a contiguous substring.\<close>

fun str_in :: "string \<Rightarrow> string \<Rightarrow> bool" where
  "str_in p [] = (p = [])"
| "str_in p (c # cs) = (prefix p (c # cs) \<or> str_in p cs)"

text \<open>
  The characters \<^verbatim>\<open>str.strip\<close> and \<^verbatim>\<open>str.rstrip\<close> remove without arguments, among the
  one-byte characters: tab, line feed, vertical tab, form feed, carriage return, the
  separators 0x1C to 0x1F, space, 0x85 and 0xA0.
\<close>

definition is_space :: "char \<Rightarrow> bool" where
  "is_space c = ((of_char c :: nat) \<in>
     {0x09, 0x0A, 0x0B, 0x0C, 0x0D, 0x1C, 0x1D, 0x1E, 0x1F, 0x20, 0x85, 0xA0})"

definition rstrip :: "string \<Rightarrow> string" where
  "rstrip s = rev (dropWhile is_space (rev s))"

definition strip :: "string \<Rightarrow> string" where
  "strip s = rstrip (dropWhile is_space s)"

text \<open>\<^verbatim>\<open>str.upper\<close> on the ASCII letters; other one-byte characters are left as they are.\<close>

definition upper_char :: "char \<Rightarrow> char" where
  "upper_char c =
     (let n = (of_char c :: nat) in if 97 \<le> n \<and> n \<le> 122 then char_of (n - 32) else c)"

definition upper :: "string \<Rightarrow> string" where
  "upper s = map upper_char s"

section \<open>Pattern Matcher: from a template to a regex\<close>

text \<open>
  \<^verbatim>\<open>re.sub(r'<[^>]+>', '<*>', pattern)\<close>.  At a \<open><\<close>, the class \<open>[^>]+\<close> takes the longest
  run of characters other than \<open>>\<close>; the bracket matches when that run is non-empty and a
  \<open>>\<close> follows it, and the scan continues after that \<open>>\<close>.  Otherwise the character is
  copied and the scan moves one position.
\<close>

function normalize_placeholders :: "string \<Rightarrow> string" where
  "normalize_placeholders [] = []"
| "normalize_placeholders (c # cs) =
     (if c = CHR ''<'' \<and> takeWhile (\<lambda>x. x \<noteq> CHR ''>'') cs \<noteq> []
         \<and> dropWhile (\<lambda>x. x \<noteq> CHR ''>'') cs \<noteq> []
      then ''<*>'' @ normalize_placeholders (tl (dropWhile (\<lambda>x. x \<noteq> CHR ''>'') cs))
      else c # normalize_placeholders cs)"
  by pat_completeness auto
termination
proof (relation "measure length")
  show "wf (measure length)" by simp
next
  fix c :: char and cs :: string
  assume "c = CHR ''<'' \<and> takeWhile (\<lambda>x. x \<noteq> CHR ''>'') cs \<noteq> []
            \<and> dropWhile (\<lambda>x. x \<noteq> CHR ''>'') cs \<noteq> []"
  have "length (tl (dropWhile (\<lambda>x. x \<noteq> CHR ''>'') cs)) \<le> length cs"
    by (metis diff_le_self le_trans length_dropWhile_le length_tl)
  then show "(tl (dropWhile (\<lambda>x. x \<noteq> CHR ''>'') cs), c # cs) \<in> measure length"
    by simp
next
  fix c :: char and cs :: string
  show "(cs, c # cs) \<in> measure length" by simp
qed

text \<open>
  \<^verbatim>\<open>re.escape\<close> (Python 3.7 and later): a backslash before each of
  \<^verbatim>\<open>()[]{}?*+-|^$\.&~#\<close>, the space and \<^verbatim>\<open>\t \n \r \v \f\<close>; every other character is kept.
\<close>

definition backslash :: char where
  "backslash = CHR 0x5C"

definition re_special :: "char \<Rightarrow> bool" where
  "re_special c = (c \<in> set ''()[]{}?*+-|^$.&~# '' \<or> c = backslash
                   \<or> (of_char c :: nat) \<in> {0x09, 0x0A, 0x0B, 0x0C, 0x0D})"

definition re_escape :: "string \<Rightarrow> string" where
  "re_escape s = concat (map (\<lambda>c. if re_special c then [backslash, c] else [c]) s)"

text \<open>\<^verbatim>\<open>wildcard_map.get(wildcard_type, r'\S+')\<close>.\<close>

definition wildcard_regex :: "string \<Rightarrow> string" where
  "wildcard_regex wildcard_type =
     (if wildcard_type = ''non_whitespace'' then backslash # ''S+''
      else if wildcard_type = ''any'' then ''.*''
      else if wildcard_type = ''any_lazy'' then ''.*?''
      else backslash # ''S+'')"

definition convert_template_to_regex :: "string \<Rightarrow> string \<Rightarrow> string" where
  "convert_template_to_regex pattern wildcard_type =
     (let normalized_pattern = normalize_placeholders pattern;
          temp_pattern = str_replace ''<*>'' ''___WILDCARD___'' normalized_pattern;
          escaped = re_escape temp_pattern
      in str_replace ''___WILDCARD___'' (wildcard_regex wildcard_type) escaped)"

section \<open>Python's regex library\<close>

text \<open>
  The module \<^verbatim>\<open>re\<close> is not part of the repository.  The functions below take it as a
  parameter: \<open>re_valid p\<close> says that \<^verbatim>\<open>re.compile(p)\<close> returns (rather than raising
  \<^verbatim>\<open>re.error\<close>), \<open>re_search p s\<close> that \<^verbatim>\<open>re.compile(p).search(s)\<close> finds a match, and
  \<open>re_match p s\<close> that \<^verbatim>\<open>re.match(p, s)\<close> finds one at the start of \<open>s\<close>.
\<close>

record re_lib =
  re_valid :: "string \<Rightarrow> bool"
  re_search :: "string \<Rightarrow> string \<Rightarrow> bool"
  re_match :: "string \<Rightarrow> string \<Rightarrow> bool"

text \<open>
  For evaluation on concrete inputs, a model of \<^verbatim>\<open>re\<close> on a fragment of its syntax: ordinary
  characters, a backslash followed by a non-alphanumeric ASCII character (that character,
  literally), the wildcards \<^verbatim>\<open>.*\<close> and \<^verbatim>\<open>.*?\<close>, and parentheses, which must balance.
  This covers every regex that \<open>convert_template_to_regex\<close> builds in mode \<^verbatim>\<open>'any'\<close> or
  \<^verbatim>\<open>'any_lazy'\<close>, and the plain patterns free of other metacharacters.  A pattern outside the
  fragment is reported as such by \<open>re_lex\<close> and is not given a meaning.
\<close>

datatype re_tok = Lit char | AnyRun | LParen | RParen | TrailingBackslash

definition is_alnum :: "char \<Rightarrow> bool" where
  "is_alnum c =
     (let n = (of_char c :: nat)
      in (48 \<le> n \<and> n \<le> 57) \<or> (65 \<le> n \<and> n \<le> 90) \<or> (97 \<le> n \<and> n \<le> 122))"

text \<open>
  \<open>re_lex\<close> returns \<open>None\<close> outside the fragment.  A backslash at the end of the pattern
  is inside the fragment, as an error of \<^verbatim>\<open>re.compile\<close>.
\<close>

fun re_lex :: "string \<Rightarrow> re_tok list option" where
  "re_lex [] = Some []"
| "re_lex [c] =
     (if c = backslash then Some [TrailingBackslash]
      else if c = CHR ''('' then Some [LParen]
      else if c = CHR '')'' then Some [RParen]
      else if c \<in> set ''.^$*+?{}[]|'' then None
      else Some [Lit c])"
| "re_lex (c # d # cs) =
     (if c = backslash then
        (if is_alnum d \<or> 128 \<le> (of_char d :: nat) then None
         else map_option ((#) (Lit d)) (re_lex cs))
      else if c = CHR ''.'' \<and> d = CHR ''*'' then
        (case cs of
           e # es \<Rightarrow>
             (if e = CHR ''?'' then map_option ((#) AnyRun) (re_lex es)
              else map_option ((#) AnyRun) (re_lex cs))
         | [] \<Rightarrow> Some [AnyRun])
      else if c = CHR ''('' then map_option ((#) LParen) (re_lex (d # cs))
      else if c = CHR '')'' then map_option ((#) RParen) (re_lex (d # cs))
      else if c \<in> set ''.^$*+?{}[]|'' then None
      else map_option ((#) (Lit c)) (re_lex (d # cs)))"

text \<open>
  \<^verbatim>\<open>re.compile\<close> accepts a pattern of the fragment when its parentheses balance (no prefix
  closes more than it opens, and the total is zero) and it does not end in a lone backslash.
\<close>

fun balanced :: "nat \<Rightarrow> re_tok list \<Rightarrow> bool" where
  "balanced depth [] = (depth = 0)"
| "balanced depth (LParen # ts) = balanced (Suc depth) ts"
| "balanced depth (RParen # ts) = (depth \<noteq> 0 \<and> balanced (depth - 1) ts)"
| "balanced depth (TrailingBackslash # ts) = False"
| "balanced depth (_ # ts) = balanced depth ts"

text \<open>
  \<open>tok_match ts s\<close>: the token sequence matches a prefix of \<open>s\<close>.  A group does not change
  which strings match; \<^verbatim>\<open>.\<close> matches any character but the line feed; greedy and lazy
  repetition differ in which match is found, not in whether one exists.
\<close>

fun tok_match :: "re_tok list \<Rightarrow> string \<Rightarrow> bool" where
  "tok_match [] s = True"
| "tok_match (Lit c # ts) [] = False"
| "tok_match (Lit c # ts) (d # ds) = (c = d \<and> tok_match ts ds)"
| "tok_match (AnyRun # ts) [] = tok_match ts []"
| "tok_match (AnyRun # ts) (d # ds) =
     (tok_match ts (d # ds) \<or> (d \<noteq> CHR 0x0A \<and> tok_match (AnyRun # ts) ds))"
| "tok_match (LParen # ts) s = tok_match ts s"
| "tok_match (RParen # ts) s = tok_match ts s"
| "tok_match (TrailingBackslash # ts) s = False"

fun tok_search :: "re_tok list \<Rightarrow> string \<Rightarrow> bool" where
  "tok_search ts [] = tok_match ts []"
| "tok_search ts (d # ds) = (tok_match ts (d # ds) \<or> tok_search ts ds)"


definition py_re_fragment :: re_lib where
  "py_re_fragment =
     \<lparr> re_valid = (\<lambda>p. case re_lex p of Some ts \<Rightarrow> balanced 0 ts | None \<Rightarrow> False),
       re_search = (\<lambda>p s. case re_lex p of Some ts \<Rightarrow> balanced 0 ts \<and> tok_search ts s | None \<Rightarrow> False),
       re_match = (\<lambda>p s. case re_lex p of Some ts \<Rightarrow> balanced 0 ts \<and> tok_match ts s | None \<Rightarrow> False) \<rparr>"

section \<open>Pattern Matcher: verification over the corpus\<close>

text \<open>
  The per-event corpus is the CSV file \<^verbatim>\<open><system>_<event_id>_logs.csv\<close>, read with
  \<^verbatim>\<open>csv.DictReader\<close>; a column that is missing reads as the empty string
  (\<^verbatim>\<open>row.get('Content', '')\<close>).
\<close>

record csv_row =
  row_LineId :: string
  row_Content :: string
  row_EventId :: string

datatype csv_file = Absent | Present "csv_row list"

datatype check_error = NoSuchFile | RegexError | GenerateFailed

record pattern_check_result =
  all_match :: bool
  total_count :: nat
  match_count :: nat
  mismatch_count :: nat
  mismatch_samples :: "csv_row list"
  match_rate :: real
  pattern :: string
  use_regex :: bool
  auto_converted :: bool

text \<open>
  The loop over the rows of \<^verbatim>\<open>check_pattern_in_logs\<close>, with its three accumulators
  \<^verbatim>\<open>total_count\<close>, \<^verbatim>\<open>match_count\<close> and \<^verbatim>\<open>mismatch_samples\<close> (at most ten are kept).
\<close>

fun scan_rows :: "(string \<Rightarrow> bool) \<Rightarrow> csv_row list \<Rightarrow> nat \<times> nat \<times> csv_row list
                    \<Rightarrow> nat \<times> nat \<times> csv_row list" where
  "scan_rows matched [] acc = acc"
| "scan_rows matched (row # rows) (n_total, matches, mismatches) =
     scan_rows matched rows
       (if matched (row_Content row) then (n_total + 1, matches + 1, mismatches)
        else (n_total + 1, matches,
              if length mismatches < 10 then mismatches @ [row] else mismatches))"

text \<open>
  \<^verbatim>\<open>check_pattern_in_logs(csv_file_path, pattern, use_regex)\<close>.  The error dictionaries
  \<^verbatim>\<open>{'error': ..., 'all_match': False, 'total_count': 0}\<close> are the \<open>Inl\<close> results.
  The counts are integers and \<^verbatim>\<open>match_rate\<close> is their float quotient; the model computes it
  in the reals, with which the comparisons of the source agree for every corpus a machine
  can hold.
\<close>

definition check_pattern_in_logs ::
    "re_lib \<Rightarrow> csv_file \<Rightarrow> string \<Rightarrow> bool \<Rightarrow> check_error + pattern_check_result" where
  "check_pattern_in_logs R file pat use_rx =
     (case file of
        Absent \<Rightarrow> Inl NoSuchFile
      | Present rows \<Rightarrow>
          (let auto = (str_in ''<*>'' pat \<and> \<not> use_rx);
               pat' = (if auto then convert_template_to_regex pat ''any'' else pat);
               use_rx' = (use_rx \<or> auto)
           in if use_rx' \<and> \<not> re_valid R pat' then Inl RegexError
              else
                (let matched = (\<lambda>content. if use_rx' then re_search R pat' content
                                           else str_in pat' content);
                     (n_total, matches, mismatches) = scan_rows matched rows (0, 0, []);
                     mismatch_cnt = n_total - matches
                 in Inr \<lparr> all_match = (mismatch_cnt = 0),
                          total_count = n_total,
                          match_count = matches,
                          mismatch_count = mismatch_cnt,
                          mismatch_samples = mismatches,
                          match_rate = (if n_total > 0 then real matches / real n_total else 0),
                          pattern = pat',
                          use_regex = use_rx',
                          auto_converted = auto \<rparr>)))"

text \<open>
  \<^verbatim>\<open>check_pattern_by_event\<close> first tries to produce a missing CSV file by running the
  extraction script.  The outcome of that attempt is an input of the model: the script is
  not there, it fails (\<^verbatim>\<open>CalledProcessError\<close>), or it runs and leaves the file in some state.
\<close>

datatype regen_outcome = NoScript | ScriptFailed | ScriptRan csv_file

record corpus_env =
  csv :: csv_file
  regen :: regen_outcome

definition csv_after_regen :: "corpus_env \<Rightarrow> csv_file" where
  "csv_after_regen env =
     (case csv env of
        Present rows \<Rightarrow> Present rows
      | Absent \<Rightarrow> (case regen env of ScriptRan f \<Rightarrow> f | _ \<Rightarrow> Absent))"

definition check_pattern_by_event ::
    "re_lib \<Rightarrow> corpus_env \<Rightarrow> string \<Rightarrow> bool \<Rightarrow> check_error + pattern_check_result" where
  "check_pattern_by_event R env pat use_rx =
     (case csv env of
        Present rows \<Rightarrow> check_pattern_in_logs R (Present rows) pat use_rx
      | Absent \<Rightarrow>
          (case regen env of
             ScriptFailed \<Rightarrow> Inl GenerateFailed
           | NoScript \<Rightarrow> check_pattern_in_logs R Absent pat use_rx
           | ScriptRan f \<Rightarrow> check_pattern_in_logs R f pat use_rx))"

text \<open>The dual-pattern variant, \<^verbatim>\<open>check_dual_patterns_with_sampling\<close>.\<close>

record dual_samples =
  new_match :: "csv_row list"
  new_mismatch :: "csv_row list"
  old_match :: "csv_row list"
  old_mismatch :: "csv_row list"

record dual_stats =
  new_match_count :: nat
  new_mismatch_count :: nat
  old_match_count :: nat
  old_mismatch_count :: nat

record dual_result =
  dual_total_count :: nat
  new_match_rate :: real
  old_match_rate :: real
  dual_sample_rows :: dual_samples
  stats :: dual_stats
  new_regex :: string
  old_regex :: string

definition keep_sample :: "bool \<Rightarrow> nat \<Rightarrow> csv_row \<Rightarrow> csv_row list \<Rightarrow> csv_row list" where
  "keep_sample wanted sample_count row kept =
     (if wanted \<and> length kept < sample_count then kept @ [row] else kept)"

fun scan_dual :: "(string \<Rightarrow> bool) \<Rightarrow> (string \<Rightarrow> bool) \<Rightarrow> nat \<Rightarrow> csv_row list
                    \<Rightarrow> nat \<times> nat \<times> nat \<times> dual_samples \<Rightarrow> nat \<times> nat \<times> nat \<times> dual_samples" where
  "scan_dual new_m old_m sample_count [] acc = acc"
| "scan_dual new_m old_m sample_count (row # rows) (n_total, new_cnt, old_cnt, smp) =
     (let new_matched = new_m (row_Content row);
          old_matched = old_m (row_Content row)
      in scan_dual new_m old_m sample_count rows
           (n_total + 1,
            (if new_matched then new_cnt + 1 else new_cnt),
            (if old_matched then old_cnt + 1 else old_cnt),
            \<lparr> new_match = keep_sample new_matched sample_count row (new_match smp),
              new_mismatch = keep_sample (\<not> new_matched) sample_count row (new_mismatch smp),
              old_match = keep_sample old_matched sample_count row (old_match smp),
              old_mismatch = keep_sample (\<not> old_matched) sample_count row (old_mismatch smp) \<rparr>))"

text \<open>
  Here a pattern without \<^verbatim>\<open><*>\<close> is handed to \<^verbatim>\<open>re.compile\<close> as it is, where
  \<open>check_pattern_in_logs\<close> looks for it as a substring.
\<close>

definition check_dual_patterns_with_sampling ::
    "re_lib \<Rightarrow> csv_file \<Rightarrow> string \<Rightarrow> string \<Rightarrow> nat \<Rightarrow> check_error + dual_result" where
  "check_dual_patterns_with_sampling R file new_pattern old_pattern sample_count =
     (case file of
        Absent \<Rightarrow> Inl NoSuchFile
      | Present rows \<Rightarrow>
          (let new_rx = (if str_in ''<*>'' new_pattern
                         then convert_template_to_regex new_pattern ''any'' else new_pattern);
               old_rx = (if str_in ''<*>'' old_pattern
                         then convert_template_to_regex old_pattern ''any'' else old_pattern)
           in if re_valid R new_rx \<and> re_valid R old_rx then
                (let (n_total, new_cnt, old_cnt, smp) =
                       scan_dual (re_search R new_rx) (re_search R old_rx) sample_count rows
                         (0, 0, 0, \<lparr> new_match = [], new_mismatch = [],
                                      old_match = [], old_mismatch = [] \<rparr>)
                 in Inr \<lparr> dual_total_count = n_total,
                          new_match_rate = (if n_total > 0 then real new_cnt / real n_total else 0),
                          old_match_rate = (if n_total > 0 then real old_cnt / real n_total else 0),
                          dual_sample_rows = smp,
                          stats = \<lparr> new_match_count = new_cnt,
                                    new_mismatch_count = n_total - new_cnt,
                                    old_match_count = old_cnt,
                                    old_mismatch_count = n_total - old_cnt \<rparr>,
                          new_regex = new_rx,
                          old_regex = old_rx \<rparr>)
              else Inl RegexError))"

section \<open>The Decision Oracle and the stage results\<close>

text \<open>\<^verbatim>\<open>class RepairResult\<close> and the four stages of the state machine.\<close>

datatype repair_status =
  CONTINUE | REDIRECT_TEMPLATE | REDIRECT_DESCRIPTION | REDIRECT_GENERATOR | REDIRECT_SPLIT | GIVE_UP

datatype stage = TEMPLATE | DESCRIPTION | GENERATOR | SPLIT

text \<open>
  The oracle is \<^verbatim>\<open>llm_client.query\<close>.  Its answers are inputs of the model.  For a query whose
  answer is read as JSON, the answer is given after \<^verbatim>\<open>json.loads\<close>: the query raised, the text
  was not JSON, or it parsed to a JSON value.  Error texts are \<^verbatim>\<open>str(e)\<close>.
\<close>

datatype json =
  JNull | JBool bool | JNum int | JStr string | JArr "json list" | JObj "(string \<times> json) list"

datatype llm_reply = QueryRaised string | NotJson string | Parsed json

text \<open>\<^verbatim>\<open>d.get(key, default)\<close> on a parsed JSON object.\<close>

definition json_get :: "(string \<times> json) list \<Rightarrow> string \<Rightarrow> json \<Rightarrow> json" where
  "json_get kv key dflt = (case map_of kv key of Some v \<Rightarrow> v | None \<Rightarrow> dflt)"

record redirect_decision =
  decision :: repair_status
  reason :: json
  final_diagnosis :: json
  suggestions :: json
  error :: "string option"

text \<open>
  The \<^verbatim>\<open>except Exception\<close> branch of \<^verbatim>\<open>ask_llm_for_redirect_decision\<close>: the default decision
  depends on the stage label and on the redirects that remain.
\<close>

definition redirect_fallback :: "string \<Rightarrow> nat \<Rightarrow> string \<Rightarrow> redirect_decision" where
  "redirect_fallback current_stage remaining_redirects e =
     (if str_in ''2.2a'' current_stage \<and> remaining_redirects > 0 then
        \<lparr> decision = REDIRECT_DESCRIPTION,
          reason = JStr ''LLM response parsing failed, defaulting to description repair'',
          final_diagnosis = JStr [], suggestions = JArr [], error = Some e \<rparr>
      else if str_in ''2.2b'' current_stage \<and> remaining_redirects > 0 then
        \<lparr> decision = REDIRECT_GENERATOR,
          reason = JStr ''LLM response parsing failed, defaulting to generator retry'',
          final_diagnosis = JStr [], suggestions = JArr [], error = Some e \<rparr>
      else
        \<lparr> decision = GIVE_UP,
          reason = JStr (''LLM call failed: '' @ e),
          final_diagnosis = JStr ''UNKNOWN_ERROR'',
          suggestions = JArr [JStr ''Manual inspection of LLM response needed''],
          error = Some e \<rparr>)"

text \<open>
  \<^verbatim>\<open>ask_llm_for_redirect_decision\<close>, from its \<^verbatim>\<open>try\<close> on.  \<^verbatim>\<open>result.get\<close> raises
  \<^verbatim>\<open>AttributeError\<close> when the parsed value is not an object, and \<^verbatim>\<open>.upper()\<close> raises it when
  the decision is not a string; both land in the \<^verbatim>\<open>except\<close> branch.
\<close>

definition ask_llm_for_redirect_decision :: "llm_reply \<Rightarrow> string \<Rightarrow> nat \<Rightarrow> redirect_decision" where
  "ask_llm_for_redirect_decision reply current_stage remaining_redirects =
     (case reply of
        QueryRaised e \<Rightarrow> redirect_fallback current_stage remaining_redirects e
      | NotJson e \<Rightarrow> redirect_fallback current_stage remaining_redirects e
      | Parsed (JObj kv) \<Rightarrow>
          (case json_get kv ''decision'' (JStr ''GIVE_UP'') of
             JStr d \<Rightarrow>
               \<lparr> decision =
                   (let d' = upper d
                    in if str_in ''SPLIT'' d' then REDIRECT_SPLIT
                       else if str_in ''TEMPLATE'' d' then REDIRECT_TEMPLATE
                       else if str_in ''DESCRIPTION'' d' then REDIRECT_DESCRIPTION
                       else if str_in ''GENERATOR'' d' then REDIRECT_GENERATOR
                       else GIVE_UP),
                 reason = json_get kv ''reason'' (JStr []),
                 final_diagnosis = json_get kv ''final_diagnosis'' (JStr []),
                 suggestions = json_get kv ''suggestions'' (JArr []),
                 error = None \<rparr>
           | _ \<Rightarrow> redirect_fallback current_stage remaining_redirects
                    ''object has no attribute upper'')
      | Parsed _ \<Rightarrow> redirect_fallback current_stage remaining_redirects
                     ''object has no attribute get'')"

text \<open>
  A failed sample, with the fields the handlers read.  \<^verbatim>\<open>test_single_sample\<close> asks the
  oracle to regenerate the log from a template and a description, up to three times when
  the query raises; \<open>generate\<close> is the outcome of that retry loop, \<open>None\<close> when every
  attempt raised.
\<close>

record sample =
  s_LineId :: string
  s_description :: string
  s_ground_truth :: string
  s_generated_log :: string

record test_result =
  success :: bool
  generated :: "string option"
  tr_ground_truth :: string
  is_match :: bool

definition test_single_sample ::
    "(string \<Rightarrow> string \<Rightarrow> string option) \<Rightarrow> string \<Rightarrow> string \<Rightarrow> string \<Rightarrow> test_result" where
  "test_single_sample generate template description ground_truth =
     (case generate template description of
        None \<Rightarrow> \<lparr> success = False, generated = None,
                   tr_ground_truth = strip ground_truth, is_match = False \<rparr>
      | Some response \<Rightarrow>
          \<lparr> success = True, generated = Some (strip response),
            tr_ground_truth = strip ground_truth,
            is_match = (strip response = strip ground_truth) \<rparr>)"

section \<open>Split candidates: assignment of samples and coverage\<close>

text \<open>
  A candidate template as the oracle returns it, a JSON object whose keys may be missing
  (\<^verbatim>\<open>tpl.get('template', '')\<close>, \<^verbatim>\<open>tpl.get('check_pattern', template_str)\<close>) and whose
  values, where present, are strings; \<open>None\<close> is a missing key.
\<close>

record split_template =
  tpl_template :: "string option"
  tpl_check_pattern :: "string option"
  tpl_description :: "string option"

record template_pattern =
  tp_template :: string
  tp_regex :: string
  tp_description :: string

definition template_pattern_of :: "split_template \<Rightarrow> template_pattern" where
  "template_pattern_of tpl =
     (let template_str = (case tpl_template tpl of Some t \<Rightarrow> t | None \<Rightarrow> []);
          check_pattern = (case tpl_check_pattern tpl of Some c \<Rightarrow> c | None \<Rightarrow> template_str);
          check_pattern' = (if check_pattern \<noteq> [] then rstrip check_pattern else check_pattern)
      in \<lparr> tp_template = template_str,
           tp_regex = (if str_in ''<*>'' check_pattern'
                       then convert_template_to_regex check_pattern' ''any''
                       else re_escape check_pattern'),
           tp_description = (case tpl_description tpl of Some d \<Rightarrow> d | None \<Rightarrow> []) \<rparr>)"

text \<open>
  \<^verbatim>\<open>sorted(template_patterns, key=lambda x: len(x['template']), reverse=True)\<close>: longest
  template first, templates of equal length in their given order.
\<close>

definition sort_by_specificity :: "template_pattern list \<Rightarrow> template_pattern list" where
  "sort_by_specificity tps = sort_key (\<lambda>tp. - int (length (tp_template tp))) tps"

text \<open>
  The first pattern, in that order, for which \<^verbatim>\<open>re.match(regex, ground_truth)\<close> finds a match;
  a regex that does not compile is skipped (\<^verbatim>\<open>except re.error: continue\<close>).  Without a match
  the first template of the unsorted list is the fallback.
\<close>

definition choose_template :: "re_lib \<Rightarrow> template_pattern list \<Rightarrow> string \<Rightarrow> template_pattern option" where
  "choose_template R tps ground_truth =
     (case find (\<lambda>tp. re_valid R (tp_regex tp) \<and> re_match R (tp_regex tp) ground_truth)
             (sort_by_specificity tps) of
        Some tp \<Rightarrow> Some tp
      | None \<Rightarrow> (case tps of tp # _ \<Rightarrow> Some tp | [] \<Rightarrow> None))"

record split_test =
  line_id :: string
  template_used :: "string option"
  split_match :: bool

text \<open>
  The body of the loop over the failed samples: choose the candidate, regenerate the log
  from it and compare.  When every attempt of the generation query raised,
  \<^verbatim>\<open>test_single_sample\<close> returns \<^verbatim>\<open>'generated': None\<close> without a match, and the report of the
  mismatch evaluates \<^verbatim>\<open>len(generated)\<close>, which raises \<^verbatim>\<open>TypeError\<close>.
\<close>

definition split_test_of_sample ::
    "re_lib \<Rightarrow> (string \<Rightarrow> string \<Rightarrow> string option) \<Rightarrow> template_pattern list \<Rightarrow> sample
       \<Rightarrow> string + split_test" where
  "split_test_of_sample R generate template_patterns smp =
     (case choose_template R template_patterns (s_ground_truth smp) of
        None \<Rightarrow> Inr \<lparr> line_id = s_LineId smp, template_used = None, split_match = False \<rparr>
      | Some tp \<Rightarrow>
          (let test_result = test_single_sample generate (tp_template tp)
                               (s_description smp) (s_ground_truth smp)
           in if is_match test_result then
                Inr \<lparr> line_id = s_LineId smp, template_used = Some (tp_template tp),
                      split_match = True \<rparr>
              else (case generated test_result of
                      None \<Rightarrow> Inl ''TypeError''
                    | Some g \<Rightarrow>
                        Inr \<lparr> line_id = s_LineId smp, template_used = Some (tp_template tp),
                              split_match = False \<rparr>)))"

text \<open>A loop that appends one result per element and stops at the first exception.\<close>

fun until_raise :: "(string + 'a) list \<Rightarrow> string + 'a list" where
  "until_raise [] = Inr []"
| "until_raise (Inl e # rs) = Inl e"
| "until_raise (Inr x # rs) = (case until_raise rs of Inl e \<Rightarrow> Inl e | Inr xs \<Rightarrow> Inr (x # xs))"

definition test_samples_with_split_templates ::
    "re_lib \<Rightarrow> (string \<Rightarrow> string \<Rightarrow> string option) \<Rightarrow> sample list \<Rightarrow> split_template list
       \<Rightarrow> string + split_test list" where
  "test_samples_with_split_templates R generate failed_samples split_templates =
     (let template_patterns = map template_pattern_of split_templates
      in until_raise (map (split_test_of_sample R generate template_patterns) failed_samples))"

text \<open>
  The answer to a split-analysis query.  \<open>SplitRaised\<close> is any exception inside the
  \<^verbatim>\<open>try\<close> of the analysis function, \<open>SplitUnparsed\<close> an answer without a fenced JSON block
  or with one that is not JSON (the defaults stay), \<open>SplitParsed\<close> the fields read from the
  JSON object, each with its default when missing.
\<close>

record split_fields =
  sf_decision :: string
  sf_split_templates :: "split_template list"
  sf_new_template :: string
  sf_variable_description :: string

datatype split_reply = SplitRaised string | SplitUnparsed | SplitParsed split_fields

record verification_result =
  vr_template :: string
  vr_check_pattern :: string
  vr_match_count :: nat
  vr_match_rate :: real
  vr_total_count :: nat

record split_analysis =
  sa_decision :: string
  sa_split_templates :: "split_template list"
  sa_new_template :: "string option"
  sa_variable_description :: string
  sa_verification_results :: "verification_result list option"
  sa_coverage_rate :: "real option"
  sa_error :: "string option"

text \<open>
  The verification loop shared by both analysis functions: each candidate whose check
  pattern (or, without one, its template) is non-empty after \<^verbatim>\<open>rstrip\<close> is verified over the
  whole corpus with \<^verbatim>\<open>check_pattern_by_event(..., use_regex=False)\<close>; an error result counts
  as zero matches out of zero (\<^verbatim>\<open>verify_result.get('match_count', 0)\<close>).
\<close>

definition verify_split_template ::
    "re_lib \<Rightarrow> corpus_env \<Rightarrow> split_template \<Rightarrow> verification_result list" where
  "verify_split_template R env tpl =
     (let template_str = (case tpl_template tpl of Some t \<Rightarrow> t | None \<Rightarrow> []);
          check_pattern = (case tpl_check_pattern tpl of Some c \<Rightarrow> c | None \<Rightarrow> template_str);
          check_pattern' = (if check_pattern \<noteq> [] then rstrip check_pattern else check_pattern)
      in if check_pattern' \<noteq> [] then
           [case check_pattern_by_event R env check_pattern' False of
              Inl err \<Rightarrow> \<lparr> vr_template = template_str, vr_check_pattern = check_pattern',
                            vr_match_count = 0, vr_match_rate = 0, vr_total_count = 0 \<rparr>
            | Inr res \<Rightarrow> \<lparr> vr_template = template_str, vr_check_pattern = check_pattern',
                            vr_match_count = match_count res, vr_match_rate = match_rate res,
                            vr_total_count = total_count res \<rparr>]
         else [])"

definition verify_split_templates ::
    "re_lib \<Rightarrow> corpus_env \<Rightarrow> split_template list \<Rightarrow> verification_result list" where
  "verify_split_templates R env tpls = concat (map (verify_split_template R env) tpls)"

text \<open>
  \<^verbatim>\<open>analyze_template_split_from_logs\<close> (the length-gap flow): the corpus size is the
  \<^verbatim>\<open>total_count\<close> of the first verification, and the quotient is capped with
  \<^verbatim>\<open>min(total_covered / total_logs, 1.0)\<close>.
\<close>

definition coverage_from_logs :: "verification_result list \<Rightarrow> real" where
  "coverage_from_logs vrs =
     (let total_logs = (case vrs of v # _ \<Rightarrow> vr_total_count v | [] \<Rightarrow> 0);
          total_covered = sum_list (map vr_match_count vrs)
      in if total_logs > 0 then min (real total_covered / real total_logs) 1 else 0)"

definition parsed_split_fields :: "split_reply \<Rightarrow> split_fields" where
  "parsed_split_fields reply =
     (case reply of
        SplitParsed f \<Rightarrow> f\<lparr> sf_decision := upper (sf_decision f) \<rparr>
      | _ \<Rightarrow> \<lparr> sf_decision = ''SPLIT'', sf_split_templates = [],
               sf_new_template = [], sf_variable_description = [] \<rparr>)"

definition analyze_template_split_from_logs ::
    "re_lib \<Rightarrow> corpus_env \<Rightarrow> split_reply \<Rightarrow> split_analysis" where
  "analyze_template_split_from_logs R env reply =
     (case reply of
        SplitRaised e \<Rightarrow>
          \<lparr> sa_decision = ''GIVE_UP'', sa_split_templates = [], sa_new_template = None,
            sa_variable_description = [], sa_verification_results = None,
            sa_coverage_rate = None, sa_error = Some e \<rparr>
      | _ \<Rightarrow>
          (let f = parsed_split_fields reply;
               vrs = verify_split_templates R env (sf_split_templates f)
           in \<lparr> sa_decision = sf_decision f,
                sa_split_templates = sf_split_templates f,
                sa_new_template = Some (sf_new_template f),
                sa_variable_description = sf_variable_description f,
                sa_verification_results =
                  (if sf_split_templates f \<noteq> [] then Some vrs else None),
                sa_coverage_rate =
                  (if sf_split_templates f \<noteq> [] then Some (coverage_from_logs vrs) else None),
                sa_error = None \<rparr>))"

text \<open>
  \<^verbatim>\<open>analyze_template_split\<close> (the dual-pattern flow): the corpus size is the
  \<^verbatim>\<open>total_count\<close> of the sampling result, and the quotient is stored as it is.
\<close>

definition coverage_dual :: "nat \<Rightarrow> verification_result list \<Rightarrow> real" where
  "coverage_dual total_logs vrs =
     (let total_covered = sum_list (map vr_match_count vrs)
      in if total_logs > 0 then real total_covered / real total_logs else 0)"

definition analyze_template_split ::
    "re_lib \<Rightarrow> corpus_env \<Rightarrow> dual_result \<Rightarrow> split_reply \<Rightarrow> split_analysis" where
  "analyze_template_split R env sampling_result reply =
     (case reply of
        SplitRaised e \<Rightarrow>
          \<lparr> sa_decision = ''SPLIT'', sa_split_templates = [], sa_new_template = None,
            sa_variable_description = [], sa_verification_results = None,
            sa_coverage_rate = None, sa_error = Some e \<rparr>
      | _ \<Rightarrow>
          (let f = parsed_split_fields reply;
               vrs = verify_split_templates R env (sf_split_templates f)
           in \<lparr> sa_decision = sf_decision f,
                sa_split_templates = sf_split_templates f,
                sa_new_template = None,
                sa_variable_description = [],
                sa_verification_results =
                  (if sf_split_templates f \<noteq> [] then Some vrs else None),
                sa_coverage_rate =
                  (if sf_split_templates f \<noteq> []
                   then Some (coverage_dual (dual_total_count sampling_result) vrs) else None),
                sa_error = None \<rparr>))"

section \<open>The length-gap grouper\<close>

text \<open>
  A sampled log is the dict \<^verbatim>\<open>{'LineId': ..., 'Content': ...}\<close> built by
  \<^verbatim>\<open>_get_uniform_sampled_logs\<close>.
\<close>

record log_entry =
  LineId :: string
  Content :: string

text \<open>
  The \<^verbatim>\<open>'range'\<close> label of a group is a formatted string in the source
  (\<^verbatim>\<open>f'= {n}'\<close>, \<^verbatim>\<open>f'< {int(threshold)}'\<close>, \<^verbatim>\<open>f'>= {int(threshold)}'\<close>, or
  \<^verbatim>\<open>'None'\<close>); the model keeps the comparison and the number.
\<close>

datatype range_label = RangeEq int | RangeLt int | RangeGe int | RangeNone

record length_group =
  range_lbl :: range_label
  count :: nat
  avg_length :: "real option"
  samples :: "log_entry list"

record gap_info =
  threshold :: real
  gap_size :: int
  min_length :: int
  max_length :: int

record group_analysis =
  groups :: "length_group list"
  gap :: gap_info
  length_details :: "(log_entry \<times> int) list"
  all_lengths :: "int list"

text \<open>\<^verbatim>\<open>param_length = len(content) - template_fixed_len\<close>, set to 0 when negative.\<close>

definition param_length :: "nat \<Rightarrow> log_entry \<Rightarrow> int" where
  "param_length template_fixed_len entry =
     (let n = int (length (Content entry)) - int template_fixed_len
      in if n < 0 then 0 else n)"

text \<open>
  The list \<^verbatim>\<open>gaps\<close> of triples \<^verbatim>\<open>(gap, lengths[i-1], lengths[i])\<close> over the sorted distinct
  lengths.
\<close>

fun gaps_of :: "int list \<Rightarrow> (int \<times> int \<times> int) list" where
  "gaps_of (a # b # rest) = (b - a, a, b) # gaps_of (b # rest)"
| "gaps_of _ = []"

text \<open>
  \<^verbatim>\<open>max(gaps, key=lambda x: x[0])\<close>: the first triple whose gap is maximal; a later triple
  replaces the best one only when its gap is strictly larger.
\<close>

fun max_by_gap :: "(int \<times> int \<times> int) \<Rightarrow> (int \<times> int \<times> int) list \<Rightarrow> (int \<times> int \<times> int)" where
  "max_by_gap best [] = best"
| "max_by_gap best (g # gs) = max_by_gap (if fst best < fst g then g else best) gs"

text \<open>
  \<^verbatim>\<open>get_typical_samples\<close>: the group sorted by length (Python's sort is stable, as is
  \<open>sort_key\<close>); all of it when it has at most five logs, otherwise the logs at ranks
  \<open>0, n div 4, n div 2, 3n div 4, n - 1\<close>.
\<close>

definition get_typical_samples :: "(log_entry \<times> int) list \<Rightarrow> log_entry list" where
  "get_typical_samples group_logs =
     (if group_logs = [] then []
      else let sorted_by_len = sort_key snd group_logs; n = length sorted_by_len
           in if n \<le> 5 then map fst sorted_by_len
              else map (\<lambda>i. fst (sorted_by_len ! i)) [0, n div 4, n div 2, 3 * n div 4, n - 1])"

definition make_group :: "range_label \<Rightarrow> (log_entry \<times> int) list \<Rightarrow> length_group" where
  "make_group r group_logs =
     \<lparr> range_lbl = r,
       count = length group_logs,
       avg_length = Some (real_of_int (sum_list (map snd group_logs)) / real (length group_logs)),
       samples = get_typical_samples group_logs \<rparr>"

text \<open>
  \<^verbatim>\<open>_group_logs_by_param_length(logs, template)\<close>.  The source tests
  \<^verbatim>\<open>len(sorted_unique_lengths) <= 1\<close> and then builds \<^verbatim>\<open>gaps\<close>, which is non-empty exactly when
  two distinct lengths exist; the case split on the sorted distinct lengths expresses both.
  \<^verbatim>\<open>int(threshold)\<close> truncates, which is \<open>floor\<close> for the non-negative threshold.
\<close>

definition group_logs_by_param_length :: "log_entry list \<Rightarrow> string \<Rightarrow> group_analysis" where
  "group_logs_by_param_length logs template =
     (let template_fixed_len = length (str_replace ''<*>'' '''' template);
          details = map (\<lambda>entry. (entry, param_length template_fixed_len entry)) logs
      in if details = [] then
           \<lparr> groups = [],
             gap = \<lparr> threshold = 0, gap_size = 0, min_length = 0, max_length = 0 \<rparr>,
             length_details = [], all_lengths = [] \<rparr>
         else
           let lens = map snd details;
               sorted_unique_lengths = sort (remdups lens);
               min_l = Min (set lens);
               max_l = Max (set lens)
           in case sorted_unique_lengths of
                a # b # rest \<Rightarrow>
                  (let max_gap = max_by_gap (b - a, a, b) (gaps_of (b # rest));
                       g_size = fst max_gap;
                       thr = real_of_int (fst (snd max_gap) + snd (snd max_gap)) / 2;
                       group1_logs = filter (\<lambda>(entry, l). real_of_int l < thr) details;
                       group2_logs = filter (\<lambda>(entry, l). real_of_int l \<ge> thr) details
                   in \<lparr> groups =
                          (if group1_logs \<noteq> [] then [make_group (RangeLt \<lfloor>thr\<rfloor>) group1_logs] else []) @
                          (if group2_logs \<noteq> [] then [make_group (RangeGe \<lfloor>thr\<rfloor>) group2_logs] else []),
                        gap = \<lparr> threshold = thr, gap_size = g_size,
                                min_length = min_l, max_length = max_l \<rparr>,
                        length_details = details, all_lengths = sort lens \<rparr>)
              | _ \<Rightarrow>
                  \<lparr> groups = [\<lparr> range_lbl = (case sorted_unique_lengths of
                                                a # _ \<Rightarrow> RangeEq a | [] \<Rightarrow> RangeNone),
                                 count = length details,
                                 avg_length = None,
                                 samples = map fst (take 5 details) \<rparr>],
                    gap = \<lparr> threshold = 0, gap_size = 0, min_length = min_l, max_length = max_l \<rparr>,
                    length_details = details, all_lengths = sort lens \<rparr>)"

section \<open>Stage handlers\<close>

text \<open>
  A handler consults the oracle through decision queries; the model returns, next to the
  handler's result, the list of decision queries it made, in order.  (The regeneration
  queries of \<open>test_single_sample\<close> are not listed.)  The answers are inputs: one answer
  to the redirect-decision query, one to the split-analysis query, and the regeneration
  outcome for each template and description.
\<close>

datatype oracle_call = AskTemplateRepair | AskRedirect string | AskSplitFromLogs | AskSplitDual

record oracle_answers =
  o_redirect :: llm_reply
  o_split :: split_reply
  o_generate :: "string \<Rightarrow> string \<Rightarrow> string option"

text \<open>
  The dictionary a handler returns, without its \<^verbatim>\<open>'reason'\<close>, \<^verbatim>\<open>'final_diagnosis'\<close> and
  \<^verbatim>\<open>'suggestions'\<close> texts: the status, and the fields the state machine copies into the repair
  record on a redirect.
\<close>

record stage_outcome =
  status :: repair_status
  suggested_template :: "string option"
  sampling_result :: "dual_result option"
  new_template :: "string option"
  old_template :: "string option"

definition outcome :: "repair_status \<Rightarrow> stage_outcome" where
  "outcome st = \<lparr> status = st, suggested_template = None, sampling_result = None,
                  new_template = None, old_template = None \<rparr>"

text \<open>A handler's result is the decision of the redirect query it just made.\<close>

definition ask_redirect :: "oracle_answers \<Rightarrow> string \<Rightarrow> nat \<Rightarrow> stage_outcome \<times> oracle_call list" where
  "ask_redirect orc current_stage remaining_redirects =
     (outcome (decision (ask_llm_for_redirect_decision (o_redirect orc) current_stage
                           remaining_redirects)),
      [AskRedirect current_stage])"

text \<open>
  The pattern of the SPLIT handler's failure exits: with a redirect left, ask the oracle
  where to go; with none, give up without asking.
\<close>

definition ask_redirect_or_give_up :: "oracle_answers \<Rightarrow> nat \<Rightarrow> stage_outcome \<times> oracle_call list" where
  "ask_redirect_or_give_up orc remaining_redirects =
     (if remaining_redirects > 0 then ask_redirect orc ''SPLIT'' remaining_redirects
      else (outcome GIVE_UP, []))"

subsection \<open>Sampling the corpus\<close>

text \<open>
  \<^verbatim>\<open>get_all_logs_for_event\<close> runs the extraction script and returns the parsed JSON file, or
  \<^verbatim>\<open>None\<close> when the script fails or the file is not there afterwards.  \<open>logs_json\<close> says
  that the script, when it runs, leaves that JSON file.
\<close>

record fetch_env = corpus_env +
  logs_json :: bool

definition get_all_logs_for_event :: "'a fetch_env_scheme \<Rightarrow> bool" where
  "get_all_logs_for_event env =
     (case regen env of ScriptRan f \<Rightarrow> logs_json env | _ \<Rightarrow> False)"

text \<open>The CSV file once \<^verbatim>\<open>get_all_logs_for_event\<close> has run the script.\<close>

definition csv_after_fetch :: "'a fetch_env_scheme \<Rightarrow> csv_file" where
  "csv_after_fetch env = (case regen env of ScriptRan f \<Rightarrow> f | _ \<Rightarrow> csv env)"

datatype sampling_error = UnableToGenerate | GenerationFailed | LogFileEmpty

record sample_result =
  sampled_logs :: "log_entry list"
  sr_total_count :: nat
  sample_step :: nat

text \<open>
  The fixed-stride sample: every row when there are at most \<open>sample_count\<close>; otherwise
  the rows at indices \<open>0, step, 2 * step, ...\<close> below the corpus size, with
  \<open>step = total div sample_count\<close>, and the first \<open>sample_count\<close> of them.
\<close>

definition stride_sample :: "nat \<Rightarrow> csv_row list \<Rightarrow> nat \<times> csv_row list" where
  "stride_sample sample_count all_logs =
     (let total_cnt = length all_logs
      in if total_cnt \<le> sample_count then (1, all_logs)
         else let step = total_cnt div sample_count
              in (step, take sample_count
                          (map (\<lambda>i. all_logs ! (i * step))
                               [0 ..< (total_cnt + step - 1) div step])))"

definition get_uniform_sampled_logs ::
    "'a fetch_env_scheme \<Rightarrow> nat \<Rightarrow> sampling_error + sample_result" where
  "get_uniform_sampled_logs env sample_count =
     (let file = (case csv env of
                    Present rows \<Rightarrow> Inr (Present rows)
                  | Absent \<Rightarrow>
                      (if \<not> get_all_logs_for_event env then Inl UnableToGenerate
                       else (case csv_after_fetch env of
                               Absent \<Rightarrow> Inl GenerationFailed
                             | Present rows \<Rightarrow> Inr (Present rows))))
      in case file of
           Inl err \<Rightarrow> Inl err
         | Inr Absent \<Rightarrow> Inl GenerationFailed
         | Inr (Present rows) \<Rightarrow>
             (if length rows = 0 then Inl LogFileEmpty
              else let (step, sampled) = stride_sample sample_count rows
                   in Inr \<lparr> sampled_logs = map (\<lambda>r. \<lparr> LineId = row_LineId r, Content = row_Content r \<rparr>)
                                       sampled,
                            sr_total_count = length rows,
                            sample_step = step \<rparr>))"

subsection \<open>The SPLIT handler\<close>

text \<open>
  \<^verbatim>\<open>repair_record['_split_context']\<close>, written by the state machine on a redirect to SPLIT.
  An absent \<^verbatim>\<open>sampling_result\<close> is the empty dictionary of the source.
\<close>

record split_context =
  ctx_sampling_result :: "dual_result option"
  ctx_new_template :: "string option"
  ctx_old_template :: "string option"

text \<open>
  What a run of the SPLIT handler leaves: the exception it raised or the result it
  returned, and the oracle calls it made.
\<close>

type_synonym stage_run = "(string + stage_outcome) \<times> oracle_call list"

definition returned :: "stage_outcome \<times> oracle_call list \<Rightarrow> stage_run" where
  "returned r = (Inr (fst r), snd r)"

text \<open>
  \<^verbatim>\<open>max(template_usage, key=template_usage.get)\<close> over the templates used in the tests, the
  empty one and the original one left out: the keys of the dictionary are in the order of
  their first use, and \<^verbatim>\<open>max\<close> returns the first key with the largest count.
\<close>

definition most_used :: "string list \<Rightarrow> string option" where
  "most_used used =
     (case rev (remdups (rev used)) of
        [] \<Rightarrow> None
      | k # ks \<Rightarrow>
          Some (foldl (\<lambda>best c. if count_list used c > count_list used best then c else best)
                  k ks))"

definition suggested_from_tests :: "split_test list \<Rightarrow> string \<Rightarrow> string option \<Rightarrow> string option" where
  "suggested_from_tests test_results original dflt =
     (let used = concat (map (\<lambda>r. case template_used r of
                                      Some t \<Rightarrow> (if t \<noteq> [] \<and> t \<noteq> original then [t] else [])
                                    | None \<Rightarrow> [])
                           test_results)
      in case most_used used of Some t \<Rightarrow> Some t | None \<Rightarrow> dflt)"

text \<open>
  The acceptance test of a SPLIT decision, shared by both flows: with verification
  results present and a coverage of at least 90 percent, the failed samples are
  regenerated with the candidate assigned to each; no success at all asks the oracle for
  a redirect (with the stage label \<^verbatim>\<open>'2.2d-template-split'\<close>, and whatever number of
  redirects remains) and passes on the most used candidate as the suggested template, any
  success accepts the split.  \<open>None\<close>: the test was not reached.
\<close>

definition success_count :: "split_test list \<Rightarrow> nat" where
  "success_count test_results = length (filter split_match test_results)"

definition accept_split ::
    "re_lib \<Rightarrow> oracle_answers \<Rightarrow> sample list \<Rightarrow> nat \<Rightarrow> string \<Rightarrow> string option \<Rightarrow> split_analysis
       \<Rightarrow> stage_run option" where
  "accept_split R orc failed_samples remaining_redirects original dflt sa =
     (case sa_verification_results sa of
        None \<Rightarrow> None
      | Some vrs \<Rightarrow>
          (if vrs = [] then None
           else if (case sa_coverage_rate sa of Some c \<Rightarrow> c | None \<Rightarrow> 0) \<ge> 9 / 10 then
             (case test_samples_with_split_templates R (o_generate orc)
                     failed_samples (sa_split_templates sa) of
                Inl e \<Rightarrow> Some (Inl e, [])
              | Inr test_results \<Rightarrow>
                  (if success_count test_results = 0 then
                     (let (res, calls) = ask_redirect orc ''2.2d-template-split''
                                           remaining_redirects
                      in Some (Inr (res\<lparr> suggested_template :=
                                          suggested_from_tests test_results original dflt \<rparr>),
                               calls))
                   else Some (Inr (outcome CONTINUE), [])))
           else None))"

text \<open>
  What both flows do on the decision \<^verbatim>\<open>SPLIT\<close>: without candidates, or when the acceptance
  test is not reached, the failure exit; otherwise the result of the acceptance test.
\<close>

definition act_on_split ::
    "re_lib \<Rightarrow> oracle_answers \<Rightarrow> sample list \<Rightarrow> nat \<Rightarrow> string \<Rightarrow> string option \<Rightarrow> split_analysis
       \<Rightarrow> stage_run" where
  "act_on_split R orc failed_samples remaining_redirects original dflt sa =
     (if sa_split_templates sa = [] then
        returned (ask_redirect_or_give_up orc remaining_redirects)
      else
        (case accept_split R orc failed_samples remaining_redirects original dflt sa of
           Some r \<Rightarrow> r
         | None \<Rightarrow> returned (ask_redirect_or_give_up orc remaining_redirects)))"

text \<open>
  The length-gap flow (\<^verbatim>\<open>use_new_flow\<close>): sample, group, pass the gate, ask the oracle for
  the split analysis, and act on its decision.  On the decision \<^verbatim>\<open>REFINE\<close> the record of the
  refinement reads \<^verbatim>\<open>split_analysis.get('split_templates', [{}])[0]\<close>, which raises
  \<^verbatim>\<open>IndexError\<close> when the list of candidates is there and empty.
\<close>

definition relative_gap :: "gap_info \<Rightarrow> real" where
  "relative_gap g =
     (if max_length g > 0 then real_of_int (gap_size g) / real_of_int (max_length g) else 0)"

definition split_from_logs_flow ::
    "re_lib \<Rightarrow> 'a fetch_env_scheme \<Rightarrow> oracle_answers \<Rightarrow> string \<Rightarrow> sample list \<Rightarrow> nat
       \<Rightarrow> stage_run" where
  "split_from_logs_flow R env orc template failed_samples remaining_redirects =
     (case get_uniform_sampled_logs env 50 of
        Inl err \<Rightarrow> returned (ask_redirect_or_give_up orc remaining_redirects)
      | Inr sample_res \<Rightarrow>
          (let analysis = group_logs_by_param_length (sampled_logs sample_res) template;
               g = gap analysis
           in if length (groups analysis) \<le> 1 then
                returned (ask_redirect_or_give_up orc remaining_redirects)
              else if gap_size g < 10 \<and> relative_gap g < 3 / 10 then
                returned (ask_redirect_or_give_up orc remaining_redirects)
              else
                (let sa = analyze_template_split_from_logs R
                            \<lparr> csv = csv env, regen = regen env \<rparr> (o_split orc);
                     (res, calls) =
                       (if sa_error sa \<noteq> None then
                          returned (ask_redirect_or_give_up orc remaining_redirects)
                        else if sa_decision sa = ''GIVE_UP'' then
                          returned (ask_redirect_or_give_up orc remaining_redirects)
                        else if sa_decision sa = ''REFINE'' then
                          (if sa_split_templates sa = [] then (Inl ''IndexError'', [])
                           else (Inr (outcome CONTINUE), []))
                        else if sa_decision sa = ''VARIABLE_LENGTH'' then
                          (Inr (outcome CONTINUE), [])
                        else act_on_split R orc failed_samples remaining_redirects template
                               None sa)
                 in (res, AskSplitFromLogs # calls))))"

text \<open>
  The dual-pattern flow, entered with the sampling result of the TEMPLATE stage.  The
  "priority attempt" takes the new and the old template as the two candidates, with a
  coverage of 1.0 by construction, when the old template matched every line and the new
  one at least one (\<open>priority_attempt\<close> gives the test results, none when the attempt is
  not made); when no sample regenerates, the flow goes on to the oracle's analysis.  No
  sample is drawn and no length groups are formed in this flow.  An oracle decision
  \<^verbatim>\<open>GIVE_UP\<close> is not singled out here and is treated as \<^verbatim>\<open>SPLIT\<close>.
\<close>

definition priority_attempt ::
    "re_lib \<Rightarrow> oracle_answers \<Rightarrow> dual_result \<Rightarrow> string \<Rightarrow> string \<Rightarrow> sample list
       \<Rightarrow> string + split_test list" where
  "priority_attempt R orc sampling new_tpl old_tpl failed_samples =
     (if old_match_count (stats sampling) = dual_total_count sampling
         \<and> new_match_count (stats sampling) > 0 \<and> new_tpl \<noteq> old_tpl
      then test_samples_with_split_templates R (o_generate orc) failed_samples
             [\<lparr> tpl_template = Some new_tpl, tpl_check_pattern = Some new_tpl,
                tpl_description = Some ''Special case template'' \<rparr>,
              \<lparr> tpl_template = Some old_tpl, tpl_check_pattern = Some old_tpl,
                tpl_description = Some ''General fallback template'' \<rparr>]
      else Inr [])"

definition split_dual_flow ::
    "re_lib \<Rightarrow> 'a fetch_env_scheme \<Rightarrow> oracle_answers \<Rightarrow> dual_result \<Rightarrow> string \<Rightarrow> string
       \<Rightarrow> sample list \<Rightarrow> nat \<Rightarrow> stage_run" where
  "split_dual_flow R env orc sampling new_tpl old_tpl failed_samples remaining_redirects =
     (case priority_attempt R orc sampling new_tpl old_tpl failed_samples of
           Inl e \<Rightarrow> (Inl e, [])
         | Inr direct_tests \<Rightarrow>
             (if success_count direct_tests \<noteq> 0 then (Inr (outcome CONTINUE), [])
              else
                (let sa = analyze_template_split R \<lparr> csv = csv env, regen = regen env \<rparr>
                            sampling (o_split orc);
                     (res, calls) =
                       (if sa_error sa \<noteq> None then
                          returned (ask_redirect_or_give_up orc remaining_redirects)
                        else if sa_decision sa = ''REFINE'' then
                          (if sa_split_templates sa = [] then (Inl ''IndexError'', [])
                           else (Inr (outcome CONTINUE), []))
                        else if sa_decision sa = ''VARIABLE_LENGTH'' then
                          (Inr (outcome CONTINUE), [])
                        else act_on_split R orc failed_samples remaining_redirects old_tpl
                               (Some new_tpl) sa)
                 in (res, AskSplitDual # calls))))"

text \<open>
  \<^verbatim>\<open>_handle_template_split_v2\<close>: the length-gap flow when there is no sampling result or the
  new template equals the old one, the dual-pattern flow otherwise.
\<close>

definition handle_template_split_v2 ::
    "re_lib \<Rightarrow> 'a fetch_env_scheme \<Rightarrow> oracle_answers \<Rightarrow> string \<Rightarrow> sample list \<Rightarrow> nat \<Rightarrow> split_context
       \<Rightarrow> stage_run" where
  "handle_template_split_v2 R env orc template failed_samples remaining_redirects ctx =
     (let new_tpl = (case ctx_new_template ctx of Some t \<Rightarrow> t | None \<Rightarrow> template);
          old_tpl = (case ctx_old_template ctx of Some t \<Rightarrow> t | None \<Rightarrow> template)
      in case ctx_sampling_result ctx of
           None \<Rightarrow> split_from_logs_flow R env orc template failed_samples remaining_redirects
         | Some sampling \<Rightarrow>
             (if new_tpl = old_tpl
              then split_from_logs_flow R env orc template failed_samples remaining_redirects
              else split_dual_flow R env orc sampling new_tpl old_tpl failed_samples
                     remaining_redirects))"

subsection \<open>The TEMPLATE handler\<close>

text \<open>
  The oracle's template-repair decision as \<^verbatim>\<open>suggest_template_repair\<close> returns it;
  \<^verbatim>\<open>old_template\<close> is always the template the handler was called with.
\<close>

record repair_suggestion =
  needs_repair :: bool
  confirmed_cause :: string
  rs_new_template :: string
  needs_check :: bool
  check_pattern :: string
  check_pattern_is_regex :: bool

text \<open>Step 2.2a-2: regenerate every failed sample from the new template.\<close>

definition test_repair ::
    "oracle_answers \<Rightarrow> string \<Rightarrow> sample list \<Rightarrow> nat \<Rightarrow> stage_outcome \<times> oracle_call list" where
  "test_repair orc new_tpl failed_samples remaining_redirects =
     (if list_all (\<lambda>smp. is_match (test_single_sample (o_generate orc) new_tpl
                                     (s_description smp) (s_ground_truth smp))) failed_samples
      then (outcome CONTINUE, [])
      else ask_redirect orc ''2.2a-template-repair'' remaining_redirects)"

definition handle_template_error_v2 ::
    "re_lib \<Rightarrow> 'a fetch_env_scheme \<Rightarrow> oracle_answers \<Rightarrow> repair_suggestion \<Rightarrow> string \<Rightarrow> sample list \<Rightarrow> nat
       \<Rightarrow> stage_outcome \<times> oracle_call list" where
  "handle_template_error_v2 R env orc suggestion template failed_samples remaining_redirects =
     (if \<not> get_all_logs_for_event env then (outcome REDIRECT_DESCRIPTION, [])
      else
        (let env' = \<lparr> csv = csv_after_fetch env, regen = regen env \<rparr>;
             (res, calls) =
               (if confirmed_cause suggestion = ''DESCRIPTION_ERROR'' then
                  (outcome REDIRECT_DESCRIPTION, [])
                else if confirmed_cause suggestion = ''GENERATOR_ERROR'' then
                  (outcome REDIRECT_GENERATOR, [])
                else if confirmed_cause suggestion = ''NONE'' \<or> \<not> needs_repair suggestion then
                  ask_redirect orc ''2.2a-template-repair'' remaining_redirects
                else if rs_new_template suggestion = template then
                  ask_redirect orc ''2.2a-template-repair'' remaining_redirects
                else if needs_check suggestion \<and> check_pattern suggestion \<noteq> [] then
                  (case check_pattern_by_event R env' (rstrip (check_pattern suggestion))
                          (check_pattern_is_regex suggestion) of
                     Inl err \<Rightarrow>
                       test_repair orc (rs_new_template suggestion) failed_samples remaining_redirects
                   | Inr chk \<Rightarrow>
                       (if all_match chk then
                          test_repair orc (rs_new_template suggestion) failed_samples remaining_redirects
                        else if 0 < match_rate chk \<and> match_rate chk < 1 then
                          (case check_dual_patterns_with_sampling R (csv_after_regen env')
                                  (rstrip (check_pattern suggestion)) template 2 of
                             Inr dual \<Rightarrow>
                               (if old_match_rate dual > 0 then
                                  (\<lparr> status = REDIRECT_SPLIT, suggested_template = None,
                                     sampling_result = Some dual,
                                     new_template = Some (rs_new_template suggestion),
                                     old_template = Some template \<rparr>, [])
                                else ask_redirect orc ''2.2a-template-repair''
                                       remaining_redirects)
                           | Inl err \<Rightarrow>
                               ask_redirect orc ''2.2a-template-repair'' remaining_redirects)
                        else ask_redirect orc ''2.2a-template-repair'' remaining_redirects))
                else test_repair orc (rs_new_template suggestion) failed_samples remaining_redirects)
         in (res, AskTemplateRepair # calls)))"

section \<open>The repair state machine\<close>

datatype cause = TEMPLATE_ERROR | DESCRIPTION_ERROR | GENERATOR_ERROR | BOTH | NONE

text \<open>Every value the state machine writes to \<^verbatim>\<open>repair_record['final_status']\<close>.\<close>

datatype final_status =
  SUCCESS stage | FINAL_GIVE_UP | MAX_REDIRECTS_REACHED | SKIPPED_NONE_DIAGNOSIS
  | UNEXPECTED_EXIT

text \<open>
  What a handler returns to the state machine: the outcome above, the reason and the
  suggestions.  The handlers pass on \<^verbatim>\<open>redirect_decision['reason']\<close> and
  \<^verbatim>\<open>redirect_decision.get('suggestions', [])\<close> as the oracle's JSON has them, so both are
  JSON values; a reason that a handler writes itself is a string, and
  \<^verbatim>\<open>result.get('reason', '')\<close> on a result without the key is the empty string.
  A handler is an input of the state machine; it gets the number of the loop iteration
  (which, as one handler runs per iteration, tells the calls apart), the stage, the
  active template, the remaining redirects and the split context, and either raises
  (\<open>Inl\<close>, with the exception's text) or returns.
\<close>

record handler_result = stage_outcome +
  result_reason :: json
  result_suggestions :: json

type_synonym handlers =
  "nat \<Rightarrow> stage \<Rightarrow> string \<Rightarrow> nat \<Rightarrow> split_context \<Rightarrow> string + handler_result"

record redirect_record =
  from_stage :: stage
  to_stage :: stage
  rd_redirect_count :: nat
  rd_reason :: json

record repair_record =
  final_status :: "final_status option"
  final_reason :: "json option"
  redirect_history :: "(stage \<times> nat) list"
  redirect_decisions :: "redirect_record list"
  active_template :: "string option"
  rec_split_context :: "split_context option"
  stage_history_saved :: bool

definition is_redirect :: "repair_status \<Rightarrow> bool" where
  "is_redirect st = (st \<in> {REDIRECT_TEMPLATE, REDIRECT_DESCRIPTION, REDIRECT_GENERATOR,
                            REDIRECT_SPLIT})"

text \<open>The target of a redirect; the two other statuses end the run before this is read.\<close>

fun next_stage :: "repair_status \<Rightarrow> stage \<Rightarrow> stage" where
  "next_stage REDIRECT_TEMPLATE cur = TEMPLATE"
| "next_stage REDIRECT_DESCRIPTION cur = DESCRIPTION"
| "next_stage REDIRECT_GENERATOR cur = GENERATOR"
| "next_stage REDIRECT_SPLIT cur = SPLIT"
| "next_stage _ cur = cur"

text \<open>
  The banners \<^verbatim>\<open>print_result_banner\<close> and \<^verbatim>\<open>print_redirect_banner\<close> format the reason with
  \<^verbatim>\<open>reason[:150]\<close> (or \<^verbatim>\<open>[:100]\<close>) and \<^verbatim>\<open>len(reason)\<close>.  Both work on a string and on a
  list; on \<^verbatim>\<open>None\<close>, a number or a boolean the slice raises \<^verbatim>\<open>TypeError\<close>, and on a dictionary
  it raises too (\<^verbatim>\<open>TypeError\<close>, from Python 3.12 on \<^verbatim>\<open>KeyError\<close>; the model writes
  \<^verbatim>\<open>TypeError\<close> for both).
\<close>

definition sliceable :: "json \<Rightarrow> bool" where
  "sliceable v = (case v of JStr s \<Rightarrow> True | JArr xs \<Rightarrow> True | _ \<Rightarrow> False)"

text \<open>
  The \<^verbatim>\<open>GIVE_UP\<close> branch ends with
  \<^verbatim>\<open>if result.get('suggestions'): for s in result.get('suggestions', []): print(...)\<close>.  A
  falsy value is skipped, a non-empty string, list or dictionary is iterated, and a
  non-zero number or \<^verbatim>\<open>True\<close> raises \<^verbatim>\<open>TypeError\<close>.
\<close>

definition suggestions_printable :: "json \<Rightarrow> bool" where
  "suggestions_printable v = (case v of JBool b \<Rightarrow> \<not> b | JNum n \<Rightarrow> n = 0 | _ \<Rightarrow> True)"

text \<open>\<^verbatim>\<open>str(n)\<close> for a natural number, for the reason text of the budget exit.\<close>

fun str_nat :: "nat \<Rightarrow> string" where
  "str_nat n = (if n < 10 then [''0123456789'' ! n]
                else str_nat (n div 10) @ [''0123456789'' ! (n mod 10)])"

declare str_nat.simps [simp del]

text \<open>
  The \<^verbatim>\<open>while redirect_count <= max_redirects\<close> loop of \<^verbatim>\<open>_run_repair_state_machine\<close>.
  There is no \<^verbatim>\<open>try\<close> in the function or in the handlers it calls: an exception of a
  handler, of a banner or of the loop over the suggestions leaves the loop and the
  function.  The result banner is printed before the final status is written, and the
  redirect banner after the split context and the active template are saved and before
  the redirect is recorded; the banner of the budget exit prints a text of the state
  machine's own.  The source's branches for an unknown stage and an unknown result status
  cannot be taken by values of the types \<open>stage\<close> and \<open>repair_status\<close>.  The budget is a
  natural number; the one caller passes 3.
\<close>

function sm_loop ::
    "handlers \<Rightarrow> nat \<Rightarrow> string \<Rightarrow> stage \<Rightarrow> nat \<Rightarrow> repair_record \<Rightarrow> string + repair_record" where
  "sm_loop H max_redirects template current_stage redirect_count rec =
     (if redirect_count \<le> max_redirects then
        (let rec1 = rec\<lparr> redirect_history :=
                           redirect_history rec @ [(current_stage, redirect_count)] \<rparr>;
             remaining_redirects = max_redirects - redirect_count;
             active = (case active_template rec1 of Some t \<Rightarrow> t | None \<Rightarrow> template);
             ctx = (case rec_split_context rec1 of
                      Some c \<Rightarrow> c
                    | None \<Rightarrow> \<lparr> ctx_sampling_result = None, ctx_new_template = None,
                                 ctx_old_template = None \<rparr>)
         in case H redirect_count current_stage active remaining_redirects ctx of
              Inl exn \<Rightarrow> Inl exn
            | Inr result \<Rightarrow>
                (if status result = CONTINUE then
                   (if \<not> sliceable (result_reason result) then Inl ''TypeError''
                    else Inr (rec1\<lparr> final_status := Some (SUCCESS current_stage),
                                    final_reason := Some (result_reason result),
                                    stage_history_saved := True \<rparr>))
                 else if status result = GIVE_UP then
                   (if \<not> sliceable (result_reason result) then Inl ''TypeError''
                    else if \<not> suggestions_printable (result_suggestions result) then
                      Inl ''TypeError''
                    else Inr (rec1\<lparr> final_status := Some FINAL_GIVE_UP,
                                    final_reason := Some (result_reason result),
                                    stage_history_saved := True \<rparr>))
                 else if Suc redirect_count > max_redirects then
                   Inr (rec1\<lparr> final_status := Some MAX_REDIRECTS_REACHED,
                              final_reason :=
                                Some (JStr (''Reached max redirect limit ('' @
                                            str_nat max_redirects @ '')'')),
                              stage_history_saved := True \<rparr>)
                 else
                   (let nxt = next_stage (status result) current_stage;
                        rec2 = (if status result = REDIRECT_SPLIT then
                                  rec1\<lparr> rec_split_context := Some
                                    \<lparr> ctx_sampling_result = sampling_result result,
                                      ctx_new_template =
                                        Some (case new_template result of
                                                Some t \<Rightarrow> t | None \<Rightarrow> template),
                                      ctx_old_template =
                                        Some (case old_template result of
                                                Some t \<Rightarrow> t | None \<Rightarrow> template) \<rparr> \<rparr>
                                else rec1);
                        rec3 = (case suggested_template result of
                                  Some t \<Rightarrow> (if t \<noteq> [] then rec2\<lparr> active_template := Some t \<rparr>
                                             else rec2)
                                | None \<Rightarrow> rec2);
                        rec4 = rec3\<lparr> redirect_decisions := redirect_decisions rec3 @
                                 [\<lparr> from_stage = current_stage, to_stage = nxt,
                                    rd_redirect_count = Suc redirect_count,
                                    rd_reason = result_reason result \<rparr>] \<rparr>
                    in if \<not> sliceable (result_reason result) then Inl ''TypeError''
                       else sm_loop H max_redirects template nxt (Suc redirect_count) rec4)))
      else Inr (rec\<lparr> final_status := Some UNEXPECTED_EXIT, stage_history_saved := True \<rparr>))"
  by pat_completeness auto
termination
  by (relation "measure (\<lambda>(H, max_redirects, template, current_stage, redirect_count, rec).
                            Suc max_redirects - redirect_count)") auto

text \<open>
  The equation of \<open>sm_loop\<close> rewrites a call into a term with a call; it is unfolded
  by hand, one iteration at a time.
\<close>

declare sm_loop.simps [simp del]

text \<open>
  \<^verbatim>\<open>_run_repair_state_machine\<close>: the initial stage from the diagnosis, then the loop on a
  repair record whose lists are reset.  A diagnosis of \<^verbatim>\<open>NONE\<close> sets the final status and
  returns; no \<^verbatim>\<open>final_reason\<close> is written then.
\<close>

definition initial_stage :: "cause \<Rightarrow> stage option" where
  "initial_stage c =
     (case c of
        TEMPLATE_ERROR \<Rightarrow> Some TEMPLATE
      | DESCRIPTION_ERROR \<Rightarrow> Some DESCRIPTION
      | GENERATOR_ERROR \<Rightarrow> Some GENERATOR
      | BOTH \<Rightarrow> Some TEMPLATE
      | NONE \<Rightarrow> None)"

definition empty_record :: repair_record where
  "empty_record =
     \<lparr> final_status = None, final_reason = None, redirect_history = [],
       redirect_decisions = [], active_template = None, rec_split_context = None,
       stage_history_saved = False \<rparr>"

definition run_repair_state_machine ::
    "handlers \<Rightarrow> cause \<Rightarrow> string \<Rightarrow> nat \<Rightarrow> string + repair_record" where
  "run_repair_state_machine H diagnosis_cause template max_redirects =
     (case initial_stage diagnosis_cause of
        None \<Rightarrow> Inr (empty_record\<lparr> final_status := Some SKIPPED_NONE_DIAGNOSIS \<rparr>)
      | Some st \<Rightarrow> sm_loop H max_redirects template st 0 empty_record)"

section \<open>Notions used in the statements\<close>

text \<open>
  A reply to the redirect-decision query is malformed when the query raised, the text was
  not JSON, the JSON value is not an object, or its \<^verbatim>\<open>decision\<close> is not a string: the cases
  in which \<open>ask_llm_for_redirect_decision\<close> cannot read a decision.
\<close>

definition malformed :: "llm_reply \<Rightarrow> bool" where
  "malformed reply =
     (case reply of
        QueryRaised e \<Rightarrow> True
      | NotJson e \<Rightarrow> True
      | Parsed (JObj kv) \<Rightarrow>
          (case json_get kv ''decision'' (JStr ''GIVE_UP'') of JStr d \<Rightarrow> False | _ \<Rightarrow> True)
      | Parsed _ \<Rightarrow> True)"

text \<open>
  In the words of the specification: a log line counts as matching when the plain pattern
  occurs in it as a substring (\<open>sublist\<close>: the line is some prefix, then the pattern, then
  some suffix), or, for a pattern with the placeholder \<^verbatim>\<open><*>\<close> or one given as a regex, when
  the regex finds a match by \<^verbatim>\<open>search\<close>.  \<open>effective_pattern\<close> is the pattern that is then
  searched for.
\<close>

definition effective_pattern :: "string \<Rightarrow> bool \<Rightarrow> string" where
  "effective_pattern pat use_rx =
     (if sublist ''<*>'' pat \<and> \<not> use_rx then convert_template_to_regex pat ''any'' else pat)"

definition counted :: "re_lib \<Rightarrow> string \<Rightarrow> bool \<Rightarrow> string \<Rightarrow> bool" where
  "counted R pat use_rx content =
     (if use_rx then re_search R pat content
      else if sublist ''<*>'' pat then re_search R (convert_template_to_regex pat ''any'') content
      else sublist pat content)"

text \<open>A corpus row with the given content, for the concrete evaluations.\<close>

definition row_of :: "string \<Rightarrow> string \<Rightarrow> csv_row" where
  "row_of lid content = \<lparr> row_LineId = lid, row_Content = content, row_EventId = ''E1'' \<rparr>"

text \<open>
  The parameter lengths of the sampled logs under a template, in the order of the logs,
  and the two sides of a threshold.
\<close>

definition param_lengths :: "log_entry list \<Rightarrow> string \<Rightarrow> int list" where
  "param_lengths entries template =
     map (param_length (length (str_replace ''<*>'' [] template))) entries"

definition below_threshold :: "real \<Rightarrow> log_entry list \<Rightarrow> string \<Rightarrow> (log_entry \<times> int) list" where
  "below_threshold thr entries template =
     filter (\<lambda>(e, l). real_of_int l < thr)
       (map (\<lambda>e. (e, param_length (length (str_replace ''<*>'' [] template)) e)) entries)"

definition from_threshold :: "real \<Rightarrow> log_entry list \<Rightarrow> string \<Rightarrow> (log_entry \<times> int) list" where
  "from_threshold thr entries template =
     filter (\<lambda>(e, l). real_of_int l \<ge> thr)
       (map (\<lambda>e. (e, param_length (length (str_replace ''<*>'' [] template)) e)) entries)"

text \<open>The distinct parameter lengths in increasing order, \<^verbatim>\<open>sorted(set(all_lengths))\<close>.\<close>

definition sorted_unique_lengths :: "log_entry list \<Rightarrow> string \<Rightarrow> int list" where
  "sorted_unique_lengths entries template = sort (remdups (param_lengths entries template))"

text \<open>
  The pre-check gate of the length-gap flow in the words of the specification: the
  oracle is skipped when there is at most one group, or when the gap is below 10 and its
  ratio to the maximal length is below 0.30.
\<close>

definition gate_passes :: "group_analysis \<Rightarrow> bool" where
  "gate_passes a =
     (\<not> (length (groups a) \<le> 1
         \<or> (gap_size (gap a) < 10
            \<and> real_of_int (gap_size (gap a)) / real_of_int (max_length (gap a)) < 3 / 10)))"

text \<open>The handler asked the oracle for a split classification in the length-gap flow.\<close>

definition asks_split_from_logs :: "stage_run \<Rightarrow> bool" where
  "asks_split_from_logs r = (AskSplitFromLogs \<in> set (snd r))"







text \<open>
  The handler asked the oracle for a split analysis in the dual-pattern flow; the test
  \<^verbatim>\<open>use_new_flow\<close> by which the handler takes the length-gap flow; and the new and the old
  template it reads from the split context.
\<close>

definition asks_split_dual :: "stage_run \<Rightarrow> bool" where
  "asks_split_dual r = (AskSplitDual \<in> set (snd r))"

definition ctx_new :: "string \<Rightarrow> split_context \<Rightarrow> string" where
  "ctx_new template ctx = (case ctx_new_template ctx of Some t \<Rightarrow> t | None \<Rightarrow> template)"

definition ctx_old :: "string \<Rightarrow> split_context \<Rightarrow> string" where
  "ctx_old template ctx = (case ctx_old_template ctx of Some t \<Rightarrow> t | None \<Rightarrow> template)"

definition use_new_flow :: "string \<Rightarrow> split_context \<Rightarrow> bool" where
  "use_new_flow template ctx =
     (ctx_sampling_result ctx = None \<or> ctx_new template ctx = ctx_old template ctx)"

text \<open>The context of a SPLIT stage that was not entered from the TEMPLATE stage.\<close>

definition no_context :: split_context where
  "no_context = \<lparr> ctx_sampling_result = None, ctx_new_template = None,
                   ctx_old_template = None \<rparr>"

text \<open>
  An event whose two lines \<^verbatim>\<open>abX\<close> and \<^verbatim>\<open>abY\<close> have the same parameter length under the
  template \<^verbatim>\<open>ab<*>\<close>, and one with the lines \<^verbatim>\<open>abX\<close> and \<^verbatim>\<open>abXXXXXXXXXXXXXX\<close>, whose
  parameter lengths 1 and 14 are 13 apart; for the first, the sampling result and the split context the TEMPLATE stage hands
  over for the proposed template \<^verbatim>\<open>abX\<close>; a failed sample; and an oracle that regenerates
  \<^verbatim>\<open>abZ\<close> and gives no usable answer otherwise.
\<close>

definition uniform_jobs :: fetch_env where
  "uniform_jobs =
     \<lparr> csv = Present [row_of ''1'' ''abX'', row_of ''2'' ''abY''], regen = NoScript,
       logs_json = False \<rparr>"

definition gap_jobs :: fetch_env where
  "gap_jobs =
     \<lparr> csv = Present [row_of ''1'' ''abX'', row_of ''2'' ''abXXXXXXXXXXXXXX''],
       regen = NoScript, logs_json = False \<rparr>"

definition uniform_sampling :: dual_result where
  "uniform_sampling =
     \<lparr> dual_total_count = 2, new_match_rate = 1 / 2, old_match_rate = 1,
       dual_sample_rows =
         \<lparr> new_match = [row_of ''1'' ''abX''], new_mismatch = [row_of ''2'' ''abY''],
           old_match = [row_of ''1'' ''abX'', row_of ''2'' ''abY''],
           old_mismatch = [] \<rparr>,
       stats = \<lparr> new_match_count = 1, new_mismatch_count = 1,
                 old_match_count = 2, old_mismatch_count = 0 \<rparr>,
       new_regex = ''abX'',
       old_regex = ''ab.*'' \<rparr>"

definition uniform_context :: split_context where
  "uniform_context =
     \<lparr> ctx_sampling_result = Some uniform_sampling, ctx_new_template = Some ''abX'',
       ctx_old_template = Some ''ab<*>'' \<rparr>"

definition uniform_sample :: sample where
  "uniform_sample =
     \<lparr> s_LineId = ''1'', s_description = ''an event'', s_ground_truth = ''abX'',
       s_generated_log = ''abZ'' \<rparr>"

definition silent_oracle :: oracle_answers where
  "silent_oracle =
     \<lparr> o_redirect = NotJson [], o_split = SplitUnparsed, o_generate = (\<lambda>t d. Some ''abZ'') \<rparr>"

text \<open>
  For the statements about the state machine.  A handler result is printable when the
  banners and the loop over the suggestions accept it: its reason is a string or a list,
  and, on \<open>GIVE_UP\<close>, its suggestions are falsy or iterable.  Then: handlers that always
  return a printable result; the active template and the split context a repair record
  gives to the next handler call; and the handler call of the last loop iteration of a
  finished run, read off its record.
\<close>

definition printable :: "handler_result \<Rightarrow> bool" where
  "printable res =
     (sliceable (result_reason res)
      \<and> (if status res = GIVE_UP then suggestions_printable (result_suggestions res) else True))"

definition handlers_return_printable :: "handlers \<Rightarrow> bool" where
  "handlers_return_printable H =
     (\<forall>i stg a k c. \<exists>res. H i stg a k c = Inr res \<and> printable res)"

definition active_of :: "string \<Rightarrow> repair_record \<Rightarrow> string" where
  "active_of template r = (case active_template r of Some t \<Rightarrow> t | None \<Rightarrow> template)"

definition ctx_of :: "repair_record \<Rightarrow> split_context" where
  "ctx_of r =
     (case rec_split_context r of
        Some c \<Rightarrow> c
      | None \<Rightarrow> \<lparr> ctx_sampling_result = None, ctx_new_template = None,
                   ctx_old_template = None \<rparr>)"

definition last_call :: "handlers \<Rightarrow> string \<Rightarrow> nat \<Rightarrow> repair_record \<Rightarrow> string + handler_result" where
  "last_call H template max_redirects r =
     H (snd (last (redirect_history r))) (fst (last (redirect_history r)))
       (active_of template r) (max_redirects - snd (last (redirect_history r))) (ctx_of r)"

text \<open>
  The stage entry number \<open>i\<close> of a history was left by a redirect: the handler call of
  iteration \<open>i\<close>, for the stage of that entry and with the redirects that remained then,
  returned a \<open>REDIRECT\<close> result, and the next entry is for the stage it names.
\<close>

definition redirected :: "handlers \<Rightarrow> nat \<Rightarrow> (stage \<times> nat) list \<Rightarrow> nat \<Rightarrow> bool" where
  "redirected H max_redirects hist i =
     (\<exists>a cx res. H i (fst (hist ! i)) a (max_redirects - i) cx = Inr res
                \<and> is_redirect (status res)
                \<and> fst (hist ! Suc i) = next_stage (status res) (fst (hist ! i)))"

text \<open>The statuses the specification defines as terminal.\<close>

definition defined_terminal :: "final_status option \<Rightarrow> bool" where
  "defined_terminal fs =
     (fs = Some FINAL_GIVE_UP \<or> fs = Some MAX_REDIRECTS_REACHED
      \<or> (\<exists>stg. fs = Some (SUCCESS stg)))"

text \<open>The repair record after a redirect that stays within the budget.\<close>

definition after_redirect ::
    "string \<Rightarrow> stage \<Rightarrow> nat \<Rightarrow> handler_result \<Rightarrow> repair_record \<Rightarrow> repair_record" where
  "after_redirect template current_stage redirect_count result rec1 =
     (let nxt = next_stage (status result) current_stage;
          rec2 = (if status result = REDIRECT_SPLIT then
                    rec1\<lparr> rec_split_context := Some
                      \<lparr> ctx_sampling_result = sampling_result result,
                        ctx_new_template =
                          Some (case new_template result of Some t \<Rightarrow> t | None \<Rightarrow> template),
                        ctx_old_template =
                          Some (case old_template result of Some t \<Rightarrow> t | None \<Rightarrow> template) \<rparr> \<rparr>
                  else rec1);
          rec3 = (case suggested_template result of
                    Some t \<Rightarrow> (if t \<noteq> [] then rec2\<lparr> active_template := Some t \<rparr> else rec2)
                  | None \<Rightarrow> rec2)
      in rec3\<lparr> redirect_decisions := redirect_decisions rec3 @
                [\<lparr> from_stage = current_stage, to_stage = nxt,
                   rd_redirect_count = Suc redirect_count,
                   rd_reason = result_reason result \<rparr>] \<rparr>)"

text \<open>
  The invariant of the loop: entering an iteration with the stage \<open>st\<close> and the count
  \<open>c\<close>, the history lists the counts \<open>0, ..., c - 1\<close>, the recorded redirects the counts
  \<open>1, ..., c\<close>, and every entry so far was left by a redirect, the last one to \<open>st\<close>.
\<close>

definition loop_inv :: "handlers \<Rightarrow> nat \<Rightarrow> stage \<Rightarrow> nat \<Rightarrow> repair_record \<Rightarrow> bool" where
  "loop_inv H m st c rec =
     (map snd (redirect_history rec) = [0 ..< c]
      \<and> map rd_redirect_count (redirect_decisions rec) = [1 ..< Suc c]
      \<and> (\<forall>i<c. redirected H m (redirect_history rec @ [(st, c)]) i))"

text \<open>
  What holds of the record of a run that returned: the counts of the stage entries and of
  the recorded redirects; every entry but the last was left by a redirect; the last
  handler call returned \<open>CONTINUE\<close> or \<open>GIVE_UP\<close>, or a \<open>REDIRECT\<close> with the count at the
  budget, and the final status says which; and there is a reason.
\<close>

definition final_ok :: "handlers \<Rightarrow> string \<Rightarrow> nat \<Rightarrow> repair_record \<Rightarrow> bool" where
  "final_ok H t m r =
     (redirect_history r \<noteq> []
      \<and> map snd (redirect_history r) = [0 ..< length (redirect_history r)]
      \<and> map rd_redirect_count (redirect_decisions r) = [1 ..< length (redirect_history r)]
      \<and> length (redirect_history r) \<le> Suc m
      \<and> (\<forall>i. Suc i < length (redirect_history r) \<longrightarrow> redirected H m (redirect_history r) i)
      \<and> (\<exists>res. last_call H t m r = Inr res
             \<and> (status res = CONTINUE
                  \<and> final_status r = Some (SUCCESS (fst (last (redirect_history r))))
                \<or> status res = GIVE_UP \<and> final_status r = Some FINAL_GIVE_UP
                \<or> is_redirect (status res) \<and> length (redirect_history r) = Suc m
                  \<and> final_status r = Some MAX_REDIRECTS_REACHED))
      \<and> (final_status r = Some MAX_REDIRECTS_REACHED \<longleftrightarrow>
           length (redirect_history r) = Suc m
           \<and> (\<exists>res. last_call H t m r = Inr res \<and> is_redirect (status res)))
      \<and> defined_terminal (final_status r)
      \<and> (\<exists>v. final_reason r = Some v \<and> sliceable v))"

text \<open>
  Handlers for the concrete runs: one that always redirects to DESCRIPTION; one that
  redirects to DESCRIPTION on its first call and then succeeds; one that always raises;
  and one that returns the oracle's redirect decision the way the handlers do
  (\<^verbatim>\<open>'status': redirect_decision['decision'], 'reason': redirect_decision['reason']\<close>), for
  an oracle that answers \<^verbatim>\<open>{"decision": "GIVE_UP", "reason": null}\<close>.
\<close>

definition always_redirect :: handlers where
  "always_redirect = (\<lambda>i stg a k c.
     Inr \<lparr> status = REDIRECT_DESCRIPTION, suggested_template = None, sampling_result = None,
           new_template = None, old_template = None,
           result_reason = JStr ''try the description'', result_suggestions = JArr [] \<rparr>)"

definition redirect_then_continue :: handlers where
  "redirect_then_continue = (\<lambda>i stg a k c.
     Inr \<lparr> status = (if i = 0 then REDIRECT_DESCRIPTION else CONTINUE),
           suggested_template = None, sampling_result = None,
           new_template = None, old_template = None,
           result_reason = JStr (if i = 0 then ''try the description'' else ''repaired''),
           result_suggestions = JArr [] \<rparr>)"




text \<open>
  A corpus of two lines under the template \<^verbatim>\<open>job <*>\<close>, the sampling result the TEMPLATE
  stage hands over for the proposed pattern \<^verbatim>\<open>job start\<close>, and the oracle's split proposal
  of the two templates \<^verbatim>\<open>job start\<close> and \<^verbatim>\<open>job <*>\<close>.
\<close>

definition two_jobs :: corpus_env where
  "two_jobs = \<lparr> csv = Present [row_of ''1'' ''job start'', row_of ''2'' ''job end''],
                regen = NoScript \<rparr>"

definition two_jobs_sampling :: dual_result where
  "two_jobs_sampling =
     \<lparr> dual_total_count = 2, new_match_rate = 1 / 2, old_match_rate = 1,
       dual_sample_rows =
         \<lparr> new_match = [row_of ''1'' ''job start''], new_mismatch = [row_of ''2'' ''job end''],
           old_match = [row_of ''1'' ''job start'', row_of ''2'' ''job end''],
           old_mismatch = [] \<rparr>,
       stats = \<lparr> new_match_count = 1, new_mismatch_count = 1,
                 old_match_count = 2, old_mismatch_count = 0 \<rparr>,
       new_regex = ''job start'',
       old_regex = ''job'' @ [backslash] @ '' .*'' \<rparr>"

definition split_proposal :: split_reply where
  "split_proposal =
     SplitParsed \<lparr> sf_decision = ''SPLIT'',
                   sf_split_templates =
                     [\<lparr> tpl_template = Some ''job start'', tpl_check_pattern = None,
                        tpl_description = Some ''start of a job'' \<rparr>,
                      \<lparr> tpl_template = Some ''job <*>'', tpl_check_pattern = None,
                        tpl_description = Some ''any job event'' \<rparr>],
                   sf_new_template = [], sf_variable_description = [] \<rparr>"

text \<open>
  An event with the two lines \<^verbatim>\<open>job done (ok\<close> and \<^verbatim>\<open>job failed\<close> under the template
  \<^verbatim>\<open>job <*>\<close>; a repair suggestion whose check pattern is the plain text \<^verbatim>\<open>done (\<close>, not
  flagged as a regular expression; one failed sample; and an oracle whose redirect
  decision is to give up.
\<close>

definition paren_jobs :: fetch_env where
  "paren_jobs =
     \<lparr> csv = Absent,
       regen = ScriptRan (Present [row_of ''1'' ''job done (ok'', row_of ''2'' ''job failed'']),
       logs_json = True \<rparr>"

definition paren_suggestion :: repair_suggestion where
  "paren_suggestion =
     \<lparr> needs_repair = True, confirmed_cause = ''TEMPLATE_ERROR'',
       rs_new_template = ''job done (<*>'', needs_check = True,
       check_pattern = ''done ('', check_pattern_is_regex = False \<rparr>"

definition paren_sample :: sample where
  "paren_sample =
     \<lparr> s_LineId = ''1'', s_description = ''a job finished'',
       s_ground_truth = ''job done (ok'', s_generated_log = ''job done'' \<rparr>"

definition give_up_oracle :: oracle_answers where
  "give_up_oracle =
     \<lparr> o_redirect = Parsed (JObj [(''decision'', JStr ''GIVE_UP''),
                                  (''reason'', JStr ''no repair found'')]),
       o_split = SplitUnparsed, o_generate = (\<lambda>t d. None) \<rparr>"

section \<open>Verified properties\<close>

subsection \<open>Redirect decisions on malformed oracle output\<close>

lemma malformed_fallback:
  "malformed reply \<Longrightarrow>
     \<exists>e. ask_llm_for_redirect_decision reply st r = redirect_fallback st r e"
  by (auto simp: malformed_def ask_llm_for_redirect_decision_def
           split: llm_reply.splits json.splits)

lemma template_label_has_22a: "str_in ''2.2a'' ''2.2a-template-repair''"
  by simp

lemma description_label_has_22b:
  "str_in ''2.2b'' ''2.2b-description-repair'' \<and> \<not> str_in ''2.2a'' ''2.2b-description-repair''"
  by simp

text \<open>
  C8, as stated, fails: from the TEMPLATE stage (label \<^verbatim>\<open>'2.2a-template-repair'\<close>) with no
  redirect remaining, an unparsable reply yields \<open>GIVE_UP\<close>, not the default redirect to
  DESCRIPTION.
\<close>

theorem C8_template_stage_without_budget_gives_up:
  "decision (ask_llm_for_redirect_decision (NotJson ''Expecting value'')
               ''2.2a-template-repair'' 0) = GIVE_UP
   \<and> decision (ask_llm_for_redirect_decision (NotJson ''Expecting value'')
               ''2.2a-template-repair'' 0) \<noteq> REDIRECT_DESCRIPTION"
  by (simp add: ask_llm_for_redirect_decision_def redirect_fallback_def)

text \<open>
  C8, amended: on a malformed reply the call always returns a decision; from the
  TEMPLATE stage it is the redirect to DESCRIPTION and from the DESCRIPTION stage the
  redirect to GENERATOR while at least one redirect remains, and \<open>GIVE_UP\<close> when none
  remains; from a stage whose label contains neither \<^verbatim>\<open>2.2a\<close> nor \<^verbatim>\<open>2.2b\<close> it is \<open>GIVE_UP\<close>.
\<close>

theorem C8_malformed_reply_default:
  assumes "malformed reply"
  shows "decision (ask_llm_for_redirect_decision reply ''2.2a-template-repair'' r)
           = (if r > 0 then REDIRECT_DESCRIPTION else GIVE_UP)
       \<and> decision (ask_llm_for_redirect_decision reply ''2.2b-description-repair'' r)
           = (if r > 0 then REDIRECT_GENERATOR else GIVE_UP)
       \<and> (\<not> str_in ''2.2a'' st \<and> \<not> str_in ''2.2b'' st \<longrightarrow>
            decision (ask_llm_for_redirect_decision reply st r) = GIVE_UP)"
proof -
  obtain e1 where e1: "ask_llm_for_redirect_decision reply ''2.2a-template-repair'' r
                         = redirect_fallback ''2.2a-template-repair'' r e1"
    using malformed_fallback[OF assms] by blast
  obtain e2 where e2: "ask_llm_for_redirect_decision reply ''2.2b-description-repair'' r
                         = redirect_fallback ''2.2b-description-repair'' r e2"
    using malformed_fallback[OF assms] by blast
  obtain e3 where e3: "ask_llm_for_redirect_decision reply st r = redirect_fallback st r e3"
    using malformed_fallback[OF assms] by blast
  show ?thesis
    unfolding e1 e2 e3
    using template_label_has_22a description_label_has_22b
    by (simp add: redirect_fallback_def)
qed

text \<open>
  Witness for C8: a reply that is a JSON list, with two redirects remaining and, for the
  third part, the SPLIT handler's label.
\<close>

theorem C8_malformed_reply_default_witness:
  "malformed (Parsed (JArr []))
   \<and> decision (ask_llm_for_redirect_decision (Parsed (JArr [])) ''2.2a-template-repair'' 2)
       = REDIRECT_DESCRIPTION
   \<and> decision (ask_llm_for_redirect_decision (Parsed (JArr [])) ''2.2b-description-repair'' 2)
       = REDIRECT_GENERATOR
   \<and> \<not> str_in ''2.2a'' ''SPLIT'' \<and> \<not> str_in ''2.2b'' ''SPLIT''
   \<and> decision (ask_llm_for_redirect_decision (Parsed (JArr [])) ''SPLIT'' 2) = GIVE_UP"
proof -
  have m: "malformed (Parsed (JArr []))"
    by (simp add: malformed_def)
  have s: "\<not> str_in ''2.2a'' ''SPLIT'' \<and> \<not> str_in ''2.2b'' ''SPLIT''"
    by simp
  show ?thesis
    using m s C8_malformed_reply_default[OF m, of 2 "''SPLIT''"] by simp
qed

subsection \<open>Pattern verification: counts, the empty corpus, unanchored matching\<close>

lemma str_in_iff_sublist: "str_in p s \<longleftrightarrow> sublist p s"
  by (induction s) (auto simp: sublist_Cons_right)

lemma scan_rows_closed:
  "scan_rows m rows (t, k, ms) =
     (t + length rows,
      k + length (filter (\<lambda>r. m (row_Content r)) rows),
      ms @ take (10 - length ms) (filter (\<lambda>r. \<not> m (row_Content r)) rows))"
proof (induction rows arbitrary: t k ms)
  case Nil
  then show ?case by simp
next
  case (Cons r rows)
  show ?case
  proof (cases "m (row_Content r)")
    case True
    then show ?thesis by (simp add: Cons.IH)
  next
    case False
    show ?thesis
    proof (cases "length ms < 10")
      case True
      then have "10 - length ms = Suc (10 - Suc (length ms))" by simp
      with False True show ?thesis by (simp add: Cons.IH)
    next
      case short: False
      with False show ?thesis by (simp add: Cons.IH)
    qed
  qed
qed

lemma check_closed:
  "check_pattern_in_logs R (Present rows) pat use_rx =
     (if (use_rx \<or> sublist ''<*>'' pat) \<and> \<not> re_valid R (effective_pattern pat use_rx)
      then Inl RegexError
      else Inr \<lparr> all_match =
                   (length rows - length (filter (\<lambda>r. counted R pat use_rx (row_Content r)) rows) = 0),
                 total_count = length rows,
                 match_count = length (filter (\<lambda>r. counted R pat use_rx (row_Content r)) rows),
                 mismatch_count =
                   length rows - length (filter (\<lambda>r. counted R pat use_rx (row_Content r)) rows),
                 mismatch_samples =
                   take 10 (filter (\<lambda>r. \<not> counted R pat use_rx (row_Content r)) rows),
                 match_rate =
                   (if length rows > 0
                    then real (length (filter (\<lambda>r. counted R pat use_rx (row_Content r)) rows))
                           / real (length rows)
                    else 0),
                 pattern = effective_pattern pat use_rx,
                 use_regex = (use_rx \<or> sublist ''<*>'' pat),
                 auto_converted = (sublist ''<*>'' pat \<and> \<not> use_rx) \<rparr>)"
  by (cases use_rx; cases "sublist ''<*>'' pat")
     (simp_all add: check_pattern_in_logs_def Let_def scan_rows_closed counted_def
                    effective_pattern_def str_in_iff_sublist)

lemma check_ok_fields:
  assumes "check_pattern_in_logs R (Present rows) pat use_rx = Inr res"
  shows "total_count res = length rows"
    and "match_count res = length (filter (\<lambda>r. counted R pat use_rx (row_Content r)) rows)"
    and "mismatch_count res = length rows - match_count res"
    and "all_match res \<longleftrightarrow> match_count res = length rows"
    and "match_rate res = (if rows = [] then 0 else real (match_count res) / real (length rows))"
    and "pattern res = effective_pattern pat use_rx"
proof -
  let ?k = "length (filter (\<lambda>r. counted R pat use_rx (row_Content r)) rows)"
  have le: "?k \<le> length rows" by (rule length_filter_le)
  have r: "res = \<lparr> all_match = (length rows - ?k = 0), total_count = length rows,
                 match_count = ?k, mismatch_count = length rows - ?k,
                 mismatch_samples =
                   take 10 (filter (\<lambda>r. \<not> counted R pat use_rx (row_Content r)) rows),
                 match_rate = (if length rows > 0 then real ?k / real (length rows) else 0),
                 pattern = effective_pattern pat use_rx,
                 use_regex = (use_rx \<or> sublist ''<*>'' pat),
                 auto_converted = (sublist ''<*>'' pat \<and> \<not> use_rx) \<rparr>"
    using assms unfolding check_closed by (simp split: if_splits)
  show "total_count res = length rows" by (simp add: r)
  show "match_count res = ?k" by (simp add: r)
  show "mismatch_count res = length rows - match_count res" by (simp add: r)
  show "all_match res \<longleftrightarrow> match_count res = length rows"
    unfolding r using le_antisym[OF le] by auto
  show "match_rate res = (if rows = [] then 0 else real (match_count res) / real (length rows))"
    by (simp add: r)
  show "pattern res = effective_pattern pat use_rx" by (simp add: r)
qed

lemma all_counted_iff:
  "length (filter P xs) = length xs \<longleftrightarrow> (\<forall>x\<in>set xs. P x)"
proof
  assume eq: "length (filter P xs) = length xs"
  show "\<forall>x\<in>set xs. P x"
  proof
    fix x assume "x \<in> set xs"
    show "P x"
    proof (rule ccontr)
      assume "\<not> P x"
      with \<open>x \<in> set xs\<close> have "length (filter P xs) < length xs"
        by (rule length_filter_less)
      with eq show False by simp
    qed
  qed
next
  assume "\<forall>x\<in>set xs. P x"
  then show "length (filter P xs) = length xs" by simp
qed

lemma rate_one_iff:
  assumes "check_pattern_in_logs R (Present rows) pat use_rx = Inr res"
  shows "match_rate res = 1 \<longleftrightarrow>
           rows \<noteq> [] \<and> (\<forall>r\<in>set rows. counted R pat use_rx (row_Content r))"
proof -
  let ?P = "\<lambda>r. counted R pat use_rx (row_Content r)"
  have k: "match_count res = length (filter ?P rows)"
    and rate: "match_rate res
                 = (if rows = [] then 0 else real (match_count res) / real (length rows))"
    using check_ok_fields[OF assms] by blast+
  show ?thesis
  proof (cases "rows = []")
    case True
    then show ?thesis by (simp add: rate)
  next
    case False
    then have "match_rate res = 1 \<longleftrightarrow> match_count res = length rows"
      by (auto simp: rate)
    also have "\<dots> \<longleftrightarrow> (\<forall>r\<in>set rows. ?P r)"
      unfolding k by (rule all_counted_iff)
    finally show ?thesis using False by simp
  qed
qed

text \<open>
  The fragment model of \<^verbatim>\<open>re\<close>: \<^verbatim>\<open>search\<close> succeeds exactly when the regex matches at the
  start of some suffix of the line, and a match at the start does not have to reach the
  end of the line.
\<close>

lemma tok_search_iff:
  "tok_search ts s \<longleftrightarrow> (\<exists>pre post. s = pre @ post \<and> tok_match ts post)"
proof (induction s)
  case Nil
  then show ?case by simp
next
  case (Cons d ds)
  show ?case
  proof
    assume "tok_search ts (d # ds)"
    then consider "tok_match ts (d # ds)" | "tok_search ts ds" by auto
    then show "\<exists>pre post. d # ds = pre @ post \<and> tok_match ts post"
    proof cases
      case 1
      then show ?thesis by (intro exI[of _ "[]"] exI[of _ "d # ds"]) simp
    next
      case 2
      then obtain pre post where "ds = pre @ post" "tok_match ts post"
        using Cons.IH by blast
      then show ?thesis by (intro exI[of _ "d # pre"] exI[of _ post]) simp
    qed
  next
    assume "\<exists>pre post. d # ds = pre @ post \<and> tok_match ts post"
    then obtain pre post where pp: "d # ds = pre @ post" "tok_match ts post" by blast
    show "tok_search ts (d # ds)"
    proof (cases pre)
      case Nil
      with pp have "tok_match ts (d # ds)" by simp
      then show ?thesis by simp
    next
      case (Cons a pre')
      with pp have "ds = pre' @ post" by simp
      with pp(2) Cons.IH show ?thesis by auto
    qed
  qed
qed

lemma fragment_search_any_position:
  "re_search py_re_fragment p s
     \<longleftrightarrow> (\<exists>pre post. s = pre @ post \<and> re_match py_re_fragment p post)"
  by (auto simp: py_re_fragment_def tok_search_iff split: option.splits)

lemma tok_match_skip_any: "tok_match ts t \<Longrightarrow> tok_match (AnyRun # ts) t"
  by (cases t) auto

lemma tok_match_extend: "tok_match ts s \<Longrightarrow> tok_match ts (s @ t)"
  by (induction ts s rule: tok_match.induct) (auto simp: tok_match_skip_any)

lemma fragment_match_is_prefix_match:
  "re_match py_re_fragment p s \<Longrightarrow> re_match py_re_fragment p (s @ t)"
  by (auto simp: py_re_fragment_def tok_match_extend split: option.splits)

text \<open>The counts of the dual-pattern scan.\<close>

lemma scan_dual_counts:
  "\<exists>smp'. scan_dual nm om k rows (t, n, ol, smp) =
     (t + length rows,
      n + length (filter (\<lambda>r. nm (row_Content r)) rows),
      ol + length (filter (\<lambda>r. om (row_Content r)) rows),
      smp')"
proof (induction rows arbitrary: t n ol smp)
  case Nil
  then show ?case by simp
next
  case (Cons r rows)
  obtain smp1 where s1:
    "scan_dual nm om k (r # rows) (t, n, ol, smp) =
       scan_dual nm om k rows
         (t + 1, (if nm (row_Content r) then n + 1 else n),
          (if om (row_Content r) then ol + 1 else ol), smp1)"
    by (simp add: Let_def)
  from Cons.IH[of "t + 1" "if nm (row_Content r) then n + 1 else n"
                  "if om (row_Content r) then ol + 1 else ol" smp1]
  obtain smp' where
    "scan_dual nm om k rows
       (t + 1, (if nm (row_Content r) then n + 1 else n),
        (if om (row_Content r) then ol + 1 else ol), smp1) =
     (t + 1 + length rows,
      (if nm (row_Content r) then n + 1 else n) + length (filter (\<lambda>r. nm (row_Content r)) rows),
      (if om (row_Content r) then ol + 1 else ol) + length (filter (\<lambda>r. om (row_Content r)) rows),
      smp')"
    by blast
  with s1 show ?case by (intro exI[of _ smp']) simp
qed

lemma dual_ok_fields:
  assumes "check_dual_patterns_with_sampling R (Present rows) np op k = Inr d"
  shows "dual_total_count d = length rows"
    and "new_match_count (stats d)
           = length (filter (\<lambda>r. re_search R (new_regex d) (row_Content r)) rows)"
    and "old_match_count (stats d)
           = length (filter (\<lambda>r. re_search R (old_regex d) (row_Content r)) rows)"
    and "old_match_rate d
           = (if rows = [] then 0 else real (old_match_count (stats d)) / real (length rows))"
    and "old_regex d = (if sublist ''<*>'' op then convert_template_to_regex op ''any'' else op)"
    and "new_regex d = (if sublist ''<*>'' np then convert_template_to_regex np ''any'' else np)"
proof -
  let ?nrx = "if sublist ''<*>'' np then convert_template_to_regex np ''any'' else np"
  let ?orx = "if sublist ''<*>'' op then convert_template_to_regex op ''any'' else op"
  obtain smp' where sc:
    "scan_dual (re_search R ?nrx) (re_search R ?orx) k rows
        (0, 0, 0, \<lparr> new_match = [], new_mismatch = [], old_match = [], old_mismatch = [] \<rparr>) =
     (0 + length rows,
      0 + length (filter (\<lambda>r. re_search R ?nrx (row_Content r)) rows),
      0 + length (filter (\<lambda>r. re_search R ?orx (row_Content r)) rows),
      smp')"
    using scan_dual_counts by blast
  have d: "d = \<lparr> dual_total_count = length rows,
                 new_match_rate =
                   (if length rows > 0
                    then real (length (filter (\<lambda>r. re_search R ?nrx (row_Content r)) rows))
                           / real (length rows) else 0),
                 old_match_rate =
                   (if length rows > 0
                    then real (length (filter (\<lambda>r. re_search R ?orx (row_Content r)) rows))
                           / real (length rows) else 0),
                 dual_sample_rows = smp',
                 stats = \<lparr> new_match_count =
                             length (filter (\<lambda>r. re_search R ?nrx (row_Content r)) rows),
                           new_mismatch_count =
                             length rows
                               - length (filter (\<lambda>r. re_search R ?nrx (row_Content r)) rows),
                           old_match_count =
                             length (filter (\<lambda>r. re_search R ?orx (row_Content r)) rows),
                           old_mismatch_count =
                             length rows
                               - length (filter (\<lambda>r. re_search R ?orx (row_Content r)) rows) \<rparr>,
                 new_regex = ?nrx, old_regex = ?orx \<rparr>"
    using assms sc
    by (simp add: check_dual_patterns_with_sampling_def Let_def str_in_iff_sublist
             split: if_splits)
  show "dual_total_count d = length rows" by (simp add: d)
  show "new_match_count (stats d)
          = length (filter (\<lambda>r. re_search R (new_regex d) (row_Content r)) rows)"
    by (simp add: d)
  show "old_match_count (stats d)
          = length (filter (\<lambda>r. re_search R (old_regex d) (row_Content r)) rows)"
    by (simp add: d)
  show "old_match_rate d
          = (if rows = [] then 0 else real (old_match_count (stats d)) / real (length rows))"
    by (simp add: d)
  show "old_regex d = ?orx" by (simp add: d)
  show "new_regex d = ?nrx" by (simp add: d)
qed




lemma error_template_regex:
  "convert_template_to_regex ''error <*>'' ''any'' = ''error'' @ [backslash] @ '' .*''"
  by (simp add: convert_template_to_regex_def re_escape_def re_special_def wildcard_regex_def
                backslash_def)

lemma error_template_valid:
  "re_valid py_re_fragment (effective_pattern ''error <*>'' False)"
proof -
  have "sublist ''<*>'' ''error <*>''"
    unfolding str_in_iff_sublist[symmetric] by simp
  then show ?thesis
    by (simp add: effective_pattern_def error_template_regex py_re_fragment_def backslash_def
                  is_alnum_def)
qed


text \<open>
  Verification by \<open>check_pattern_in_logs\<close> is unanchored.  The number of matching lines
  is the number of lines that count as matching in the sense of \<open>counted\<close>: for a plain pattern, the lines in
  which it occurs somewhere (some prefix, the pattern, some suffix); for a pattern with
  \<^verbatim>\<open><*>\<close>, or one given as a regex, the lines in which the regex is found by \<^verbatim>\<open>search\<close>.  A
  match rate of 1 says that the corpus is non-empty and every line counts as matching,
  not that a line is covered from its first to its last character.
\<close>

lemma check_pattern_unanchored:
  assumes "check_pattern_in_logs R (Present rows) pat use_rx = Inr res"
  shows "total_count res = length rows
       \<and> match_count res = length (filter (\<lambda>r. counted R pat use_rx (row_Content r)) rows)
       \<and> (match_rate res = 1 \<longleftrightarrow>
            rows \<noteq> [] \<and> (\<forall>r\<in>set rows. counted R pat use_rx (row_Content r)))
       \<and> (\<not> use_rx \<and> \<not> sublist ''<*>'' pat \<longrightarrow>
            (\<forall>line. counted R pat use_rx line \<longleftrightarrow> (\<exists>pre post. line = pre @ pat @ post)))
       \<and> (use_rx \<or> sublist ''<*>'' pat \<longrightarrow>
            (\<forall>line. counted R pat use_rx line \<longleftrightarrow> re_search R (pattern res) line))"
proof -
  have plain: "\<not> use_rx \<and> \<not> sublist ''<*>'' pat \<longrightarrow>
            (\<forall>line. counted R pat use_rx line \<longleftrightarrow> (\<exists>pre post. line = pre @ pat @ post))"
    by (auto simp: counted_def sublist_def)
  have rx: "use_rx \<or> sublist ''<*>'' pat \<longrightarrow>
            (\<forall>line. counted R pat use_rx line \<longleftrightarrow> re_search R (pattern res) line)"
    unfolding check_ok_fields(6)[OF assms]
    by (auto simp: counted_def effective_pattern_def)
  show ?thesis
    using check_ok_fields(1,2)[OF assms] rate_one_iff[OF assms] plain rx by blast
qed

lemma error_line_counted:
  "counted py_re_fragment ''error <*>'' False ''xx error 42 yy''"
proof -
  have "sublist ''<*>'' ''error <*>''"
    unfolding str_in_iff_sublist[symmetric] by simp
  then show ?thesis
    by (simp add: counted_def error_template_regex py_re_fragment_def backslash_def
                  is_alnum_def)
qed

text \<open>
  An instance: the pattern \<^verbatim>\<open>error <*>\<close> over a corpus of one line that has text
  before and after the occurrence.  The match rate is 1, and the line neither equals the
  pattern's literal text nor starts with it.
\<close>

lemma check_pattern_unanchored_example:
  "\<exists>res. check_pattern_in_logs py_re_fragment (Present [row_of ''1'' ''xx error 42 yy''])
            ''error <*>'' False = Inr res
         \<and> total_count res = 1 \<and> match_count res = 1 \<and> match_rate res = 1
         \<and> \<not> prefix ''error'' ''xx error 42 yy''"
proof -
  let ?rows = "[row_of ''1'' ''xx error 42 yy'']"
  have "sublist ''<*>'' ''error <*>''"
    unfolding str_in_iff_sublist[symmetric] by simp
  then obtain res where
    h: "check_pattern_in_logs py_re_fragment (Present ?rows) ''error <*>'' False = Inr res"
    using error_template_valid unfolding check_closed by simp
  have c: "counted py_re_fragment ''error <*>'' False (row_Content (row_of ''1'' ''xx error 42 yy''))"
    using error_line_counted by (simp add: row_of_def)
  from check_pattern_unanchored[OF h] c
  have "total_count res = 1 \<and> match_count res = 1 \<and> match_rate res = 1"
    by simp
  with h show ?thesis by auto
qed

text \<open>
  The dual-pattern check is unanchored too: each of its two counts is the number of lines
  in which the regex of the pattern is found by \<^verbatim>\<open>search\<close>.  But the regex of a pattern
  without \<^verbatim>\<open><*>\<close> is the pattern itself: the dual check compiles a plain pattern, where
  \<open>check_pattern_in_logs\<close> searches it as text.
\<close>

lemma dual_check_unanchored:
  assumes "check_dual_patterns_with_sampling R (Present rows) np op k = Inr d"
  shows "dual_total_count d = length rows
       \<and> new_match_count (stats d)
           = length (filter (\<lambda>r. re_search R (new_regex d) (row_Content r)) rows)
       \<and> old_match_count (stats d)
           = length (filter (\<lambda>r. re_search R (old_regex d) (row_Content r)) rows)
       \<and> new_regex d = (if sublist ''<*>'' np then convert_template_to_regex np ''any'' else np)
       \<and> old_regex d = (if sublist ''<*>'' op then convert_template_to_regex op ''any'' else op)"
  using dual_ok_fields[OF assms] by blast

text \<open>
  C10 fails in the dual-pattern check for a plain pattern.  Over the lines \<^verbatim>\<open>xabcx\<close> and
  \<^verbatim>\<open>a(b)c!\<close>, \<open>check_pattern_in_logs\<close> counts for the plain pattern \<^verbatim>\<open>a(b)c\<close> the second
  line, in which the pattern occurs, and not the first; \<open>check_dual_patterns_with_sampling\<close>
  compiles the same pattern as a regular expression and counts the first line, in which
  the pattern does not occur, and not the second.
\<close>

theorem C10_dual_check_compiles_plain_pattern:
  "check_pattern_in_logs py_re_fragment
     (Present [row_of ''1'' ''xabcx'', row_of ''2'' ''a(b)c!'']) ''a(b)c'' False
     = Inr \<lparr> all_match = False, total_count = 2, match_count = 1, mismatch_count = 1,
             mismatch_samples = [row_of ''1'' ''xabcx''], match_rate = 1 / 2,
             pattern = ''a(b)c'', use_regex = False, auto_converted = False \<rparr>
   \<and> check_dual_patterns_with_sampling py_re_fragment
       (Present [row_of ''1'' ''xabcx'', row_of ''2'' ''a(b)c!'']) ''a(b)c'' ''a<*>'' 2
     = Inr \<lparr> dual_total_count = 2, new_match_rate = 1 / 2, old_match_rate = 1,
             dual_sample_rows =
               \<lparr> new_match = [row_of ''1'' ''xabcx''], new_mismatch = [row_of ''2'' ''a(b)c!''],
                 old_match = [row_of ''1'' ''xabcx'', row_of ''2'' ''a(b)c!''],
                 old_mismatch = [] \<rparr>,
             stats = \<lparr> new_match_count = 1, new_mismatch_count = 1,
                       old_match_count = 2, old_mismatch_count = 0 \<rparr>,
             new_regex = ''a(b)c'', old_regex = ''a.*'' \<rparr>
   \<and> \<not> sublist ''a(b)c'' ''xabcx''
   \<and> sublist ''a(b)c'' ''a(b)c!''"
proof -
  have a: "check_pattern_in_logs py_re_fragment
             (Present [row_of ''1'' ''xabcx'', row_of ''2'' ''a(b)c!'']) ''a(b)c'' False
             = Inr \<lparr> all_match = False, total_count = 2, match_count = 1, mismatch_count = 1,
                     mismatch_samples = [row_of ''1'' ''xabcx''], match_rate = 1 / 2,
                     pattern = ''a(b)c'', use_regex = False, auto_converted = False \<rparr>"
    by (simp add: check_pattern_in_logs_def row_of_def Let_def)
  have b: "check_dual_patterns_with_sampling py_re_fragment
             (Present [row_of ''1'' ''xabcx'', row_of ''2'' ''a(b)c!'']) ''a(b)c'' ''a<*>'' 2
             = Inr \<lparr> dual_total_count = 2, new_match_rate = 1 / 2, old_match_rate = 1,
                     dual_sample_rows =
                       \<lparr> new_match = [row_of ''1'' ''xabcx''],
                         new_mismatch = [row_of ''2'' ''a(b)c!''],
                         old_match = [row_of ''1'' ''xabcx'', row_of ''2'' ''a(b)c!''],
                         old_mismatch = [] \<rparr>,
                     stats = \<lparr> new_match_count = 1, new_mismatch_count = 1,
                               old_match_count = 2, old_mismatch_count = 0 \<rparr>,
                     new_regex = ''a(b)c'', old_regex = ''a.*'' \<rparr>"
    by (simp add: check_dual_patterns_with_sampling_def row_of_def keep_sample_def
                  convert_template_to_regex_def re_escape_def re_special_def
                  wildcard_regex_def backslash_def py_re_fragment_def is_alnum_def Let_def)
  have c: "\<not> sublist ''a(b)c'' ''xabcx''" "sublist ''a(b)c'' ''a(b)c!''"
    unfolding str_in_iff_sublist[symmetric] by simp_all
  show ?thesis
    using a b c by simp
qed

subsection \<open>The length-gap grouper\<close>

lemma max_by_gap_mem: "max_by_gap best gs \<in> set (best # gs)"
  by (induction gs arbitrary: best) auto

lemma max_by_gap_ge_all: "\<forall>g\<in>set (best # gs). fst g \<le> fst (max_by_gap best gs)"
proof (induction gs arbitrary: best)
  case Nil
  then show ?case by simp
next
  case (Cons h gs)
  let ?b = "if fst best < fst h then h else best"
  have step: "max_by_gap best (h # gs) = max_by_gap ?b gs" by simp
  have ih: "\<forall>g\<in>set (?b # gs). fst g \<le> fst (max_by_gap ?b gs)"
    by (rule Cons.IH)
  then have b: "fst ?b \<le> fst (max_by_gap ?b gs)" by simp
  have "fst best \<le> fst ?b" "fst h \<le> fst ?b" by auto
  with b have "fst best \<le> fst (max_by_gap ?b gs)" "fst h \<le> fst (max_by_gap ?b gs)"
    by linarith+
  with ih show ?case unfolding step by auto
qed

lemma max_by_gap_ge: "g \<in> set (best # gs) \<Longrightarrow> fst g \<le> fst (max_by_gap best gs)"
  using max_by_gap_ge_all by blast

lemma length_gaps_of: "length (gaps_of xs) = length xs - 1"
  by (induction xs rule: gaps_of.induct) auto

lemma gaps_of_nth:
  "Suc i < length xs \<Longrightarrow> gaps_of xs ! i = (xs ! Suc i - xs ! i, xs ! i, xs ! Suc i)"
proof (induction xs arbitrary: i rule: gaps_of.induct)
  case (1 a b rest)
  then show ?case by (cases i) auto
qed auto

lemma gaps_of_mem:
  "g \<in> set (gaps_of xs) \<longleftrightarrow>
     (\<exists>i. Suc i < length xs \<and> g = (xs ! Suc i - xs ! i, xs ! i, xs ! Suc i))"
proof
  assume "g \<in> set (gaps_of xs)"
  then obtain i where "i < length (gaps_of xs)" "gaps_of xs ! i = g"
    by (auto simp: in_set_conv_nth)
  then have "Suc i < length xs" and "g = (xs ! Suc i - xs ! i, xs ! i, xs ! Suc i)"
    using gaps_of_nth[of i xs] by (auto simp: length_gaps_of)
  then show "\<exists>i. Suc i < length xs \<and> g = (xs ! Suc i - xs ! i, xs ! i, xs ! Suc i)"
    by blast
next
  assume "\<exists>i. Suc i < length xs \<and> g = (xs ! Suc i - xs ! i, xs ! i, xs ! Suc i)"
  then obtain i where i: "Suc i < length xs"
    and g: "g = (xs ! Suc i - xs ! i, xs ! i, xs ! Suc i)" by blast
  from i have "i < length (gaps_of xs)" by (simp add: length_gaps_of)
  then have "gaps_of xs ! i \<in> set (gaps_of xs)" by (rule nth_mem)
  with gaps_of_nth[OF i] g show "g \<in> set (gaps_of xs)" by simp
qed

lemma sorted_distinct_step:
  assumes "sorted xs" and "distinct xs" and "Suc i < length xs"
  shows "(xs ! i :: int) < xs ! Suc i"
proof -
  have "xs ! i \<le> xs ! Suc i"
    using assms(1,3) by (simp add: sorted_iff_nth_mono)
  moreover have "xs ! i \<noteq> xs ! Suc i"
    using assms(2,3) by (simp add: nth_eq_iff_index_eq)
  ultimately show ?thesis by simp
qed

lemma grouper_details:
  "map snd (map (\<lambda>e. (e, param_length (length (str_replace ''<*>'' [] template)) e)) entries)
     = param_lengths entries template"
  by (simp add: param_lengths_def comp_def)

text \<open>The grouper's result when at least two distinct lengths exist.\<close>

lemma grouper_two_lengths:
  assumes xs: "sort (remdups (param_lengths entries template)) = a # b # rest"
  defines "mg \<equiv> max_by_gap (b - a, a, b) (gaps_of (b # rest))"
  defines "thr \<equiv> real_of_int (fst (snd mg) + snd (snd mg)) / 2"
  shows "groups (group_logs_by_param_length entries template) =
           (if below_threshold thr entries template \<noteq> []
            then [make_group (RangeLt \<lfloor>thr\<rfloor>) (below_threshold thr entries template)] else []) @
           (if from_threshold thr entries template \<noteq> []
            then [make_group (RangeGe \<lfloor>thr\<rfloor>) (from_threshold thr entries template)] else [])"
    and "gap_size (gap (group_logs_by_param_length entries template)) = fst mg"
    and "threshold (gap (group_logs_by_param_length entries template)) = thr"
proof -
  have ne: "entries \<noteq> []"
    using xs by (auto simp: param_lengths_def)
  show "groups (group_logs_by_param_length entries template) =
           (if below_threshold thr entries template \<noteq> []
            then [make_group (RangeLt \<lfloor>thr\<rfloor>) (below_threshold thr entries template)] else []) @
           (if from_threshold thr entries template \<noteq> []
            then [make_group (RangeGe \<lfloor>thr\<rfloor>) (from_threshold thr entries template)] else [])"
    using ne xs
    by (simp add: group_logs_by_param_length_def Let_def grouper_details comp_def
                  below_threshold_def from_threshold_def mg_def thr_def
                  param_lengths_def[symmetric])
  show "gap_size (gap (group_logs_by_param_length entries template)) = fst mg"
    using ne xs
    by (simp add: group_logs_by_param_length_def Let_def grouper_details comp_def
                  mg_def param_lengths_def[symmetric])
  show "threshold (gap (group_logs_by_param_length entries template)) = thr"
    using ne xs
    by (simp add: group_logs_by_param_length_def Let_def grouper_details comp_def
                  mg_def thr_def param_lengths_def[symmetric])
qed

lemma length_in_entries:
  assumes "l \<in> set (param_lengths entries template)"
  shows "\<exists>e\<in>set entries. param_length (length (str_replace ''<*>'' [] template)) e = l"
  using assms by (auto simp: param_lengths_def)

lemma below_threshold_nonempty:
  assumes "l \<in> set (param_lengths entries template)" and "real_of_int l < thr"
  shows "below_threshold thr entries template \<noteq> []"
proof -
  obtain e where "e \<in> set entries"
    and "param_length (length (str_replace ''<*>'' [] template)) e = l"
    using length_in_entries[OF assms(1)] by blast
  with assms(2) show ?thesis
    by (auto simp: below_threshold_def filter_empty_conv)
qed

lemma from_threshold_nonempty:
  assumes "l \<in> set (param_lengths entries template)" and "thr \<le> real_of_int l"
  shows "from_threshold thr entries template \<noteq> []"
proof -
  obtain e where "e \<in> set entries"
    and "param_length (length (str_replace ''<*>'' [] template)) e = l"
    using length_in_entries[OF assms(1)] by blast
  with assms(2) show ?thesis
    by (auto simp: from_threshold_def filter_empty_conv)
qed

text \<open>
  C6: with at least two distinct parameter lengths, the grouper takes a largest gap
  between two consecutive distinct sorted lengths \<open>lo\<close> and \<open>hi\<close>, sets the threshold
  to \<open>(lo + hi) / 2\<close>, strictly between them, and returns exactly two groups, the logs
  with a length below the threshold and the logs with a length from the threshold on,
  both non-empty.
\<close>

theorem C6_max_gap_bisection:
  assumes "2 \<le> card (set (param_lengths entries template))"
  shows "\<exists>i lo hi thr.
           Suc i < length (sorted_unique_lengths entries template)
         \<and> lo = sorted_unique_lengths entries template ! i
         \<and> hi = sorted_unique_lengths entries template ! Suc i
         \<and> (\<forall>j. Suc j < length (sorted_unique_lengths entries template) \<longrightarrow>
                sorted_unique_lengths entries template ! Suc j
                  - sorted_unique_lengths entries template ! j \<le> hi - lo)
         \<and> gap_size (gap (group_logs_by_param_length entries template)) = hi - lo
         \<and> thr = (real_of_int lo + real_of_int hi) / 2
         \<and> threshold (gap (group_logs_by_param_length entries template)) = thr
         \<and> real_of_int lo < thr \<and> thr < real_of_int hi
         \<and> below_threshold thr entries template \<noteq> []
         \<and> from_threshold thr entries template \<noteq> []
         \<and> groups (group_logs_by_param_length entries template) =
             [make_group (RangeLt \<lfloor>thr\<rfloor>) (below_threshold thr entries template),
              make_group (RangeGe \<lfloor>thr\<rfloor>) (from_threshold thr entries template)]"
proof -
  let ?xs = "sorted_unique_lengths entries template"
  let ?G = "group_logs_by_param_length entries template"
  have len: "length ?xs = card (set (param_lengths entries template))"
    by (simp add: sorted_unique_lengths_def length_remdups_card_conv)
  have srt: "sorted ?xs" and dst: "distinct ?xs"
    and set_xs: "set ?xs = set (param_lengths entries template)"
    by (simp_all add: sorted_unique_lengths_def)
  from assms len obtain a b rest where xs: "?xs = a # b # rest"
    by (cases ?xs; cases "tl ?xs") auto
  define mg where "mg = max_by_gap (b - a, a, b) (gaps_of (b # rest))"
  define thr where "thr = real_of_int (fst (snd mg) + snd (snd mg)) / 2"
  have xs': "sort (remdups (param_lengths entries template)) = a # b # rest"
    using xs by (simp add: sorted_unique_lengths_def)
  note G = grouper_two_lengths[OF xs', folded mg_def, folded thr_def]
  have gaps: "gaps_of ?xs = (b - a, a, b) # gaps_of (b # rest)"
    by (simp add: xs)
  have "mg \<in> set (gaps_of ?xs)"
    unfolding gaps mg_def by (rule max_by_gap_mem)
  then obtain i where i: "Suc i < length ?xs"
    and mg: "mg = (?xs ! Suc i - ?xs ! i, ?xs ! i, ?xs ! Suc i)"
    unfolding gaps_of_mem by blast
  define lo where "lo = ?xs ! i"
  define hi where "hi = ?xs ! Suc i"
  have lt: "lo < hi"
    unfolding lo_def hi_def by (rule sorted_distinct_step[OF srt dst i])
  have thr_eq: "thr = (real_of_int lo + real_of_int hi) / 2"
    by (simp add: thr_def mg lo_def hi_def)
  have between: "real_of_int lo < thr" "thr < real_of_int hi"
    using lt by (simp_all add: thr_eq)
  have maxi: "\<forall>j. Suc j < length ?xs \<longrightarrow> ?xs ! Suc j - ?xs ! j \<le> hi - lo"
  proof (intro allI impI)
    fix j assume j: "Suc j < length ?xs"
    then have "(?xs ! Suc j - ?xs ! j, ?xs ! j, ?xs ! Suc j) \<in> set (gaps_of ?xs)"
      unfolding gaps_of_mem by blast
    then have "fst (?xs ! Suc j - ?xs ! j, ?xs ! j, ?xs ! Suc j) \<le> fst mg"
      unfolding gaps mg_def by (rule max_by_gap_ge)
    then show "?xs ! Suc j - ?xs ! j \<le> hi - lo"
      by (simp add: mg lo_def hi_def)
  qed
  have lo_in: "lo \<in> set (param_lengths entries template)"
    unfolding set_xs[symmetric] lo_def using i by simp
  have hi_in: "hi \<in> set (param_lengths entries template)"
    unfolding set_xs[symmetric] hi_def using i by simp
  have ne1: "below_threshold thr entries template \<noteq> []"
    using below_threshold_nonempty[OF lo_in between(1)] .
  have ne2: "from_threshold thr entries template \<noteq> []"
    using from_threshold_nonempty[OF hi_in] between(2) by simp
  have g1: "gap_size (gap ?G) = hi - lo"
    using G(2) by (simp add: mg lo_def hi_def)
  have g2: "threshold (gap ?G) = thr"
    using G(3) .
  have g3: "groups ?G =
             [make_group (RangeLt \<lfloor>thr\<rfloor>) (below_threshold thr entries template),
              make_group (RangeGe \<lfloor>thr\<rfloor>) (from_threshold thr entries template)]"
    using G(1) ne1 ne2 by simp
  show ?thesis
    using i lo_def hi_def maxi g1 thr_eq g2 between ne1 ne2 g3 by blast
qed

text \<open>
  Witness for C6: the template \<^verbatim>\<open>ab<*>\<close> and three logs whose parameter lengths are 1, 2
  and 14.  The largest gap is 12, between 2 and 14, the threshold is 8, and the two
  groups hold two logs and one log.
\<close>

theorem C6_max_gap_bisection_witness:
  "2 \<le> card (set (param_lengths
         [\<lparr> LineId = ''1'', Content = ''abX'' \<rparr>,
          \<lparr> LineId = ''2'', Content = ''abXY'' \<rparr>,
          \<lparr> LineId = ''3'', Content = ''abXXXXXXXXXXXXXX'' \<rparr>] ''ab<*>''))
   \<and> length (groups (group_logs_by_param_length
         [\<lparr> LineId = ''1'', Content = ''abX'' \<rparr>,
          \<lparr> LineId = ''2'', Content = ''abXY'' \<rparr>,
          \<lparr> LineId = ''3'', Content = ''abXXXXXXXXXXXXXX'' \<rparr>] ''ab<*>'')) = 2
   \<and> gap_size (gap (group_logs_by_param_length
         [\<lparr> LineId = ''1'', Content = ''abX'' \<rparr>,
          \<lparr> LineId = ''2'', Content = ''abXY'' \<rparr>,
          \<lparr> LineId = ''3'', Content = ''abXXXXXXXXXXXXXX'' \<rparr>] ''ab<*>'')) = 12
   \<and> threshold (gap (group_logs_by_param_length
         [\<lparr> LineId = ''1'', Content = ''abX'' \<rparr>,
          \<lparr> LineId = ''2'', Content = ''abXY'' \<rparr>,
          \<lparr> LineId = ''3'', Content = ''abXXXXXXXXXXXXXX'' \<rparr>] ''ab<*>'')) = 8
   \<and> map count (groups (group_logs_by_param_length
         [\<lparr> LineId = ''1'', Content = ''abX'' \<rparr>,
          \<lparr> LineId = ''2'', Content = ''abXY'' \<rparr>,
          \<lparr> LineId = ''3'', Content = ''abXXXXXXXXXXXXXX'' \<rparr>] ''ab<*>'')) = [2, 1]"
proof -
  let ?E = "[\<lparr> LineId = ''1'', Content = ''abX'' \<rparr>,
             \<lparr> LineId = ''2'', Content = ''abXY'' \<rparr>,
             \<lparr> LineId = ''3'', Content = ''abXXXXXXXXXXXXXX'' \<rparr>]"
  have lens: "param_lengths ?E ''ab<*>'' = [1, 2, 14]"
    by (simp add: param_lengths_def param_length_def)
  have h: "2 \<le> card (set (param_lengths ?E ''ab<*>''))"
    unfolding lens by simp
  from C6_max_gap_bisection[OF h] obtain g1 g2 where
    "groups (group_logs_by_param_length ?E ''ab<*>'') = [g1, g2]"
    by blast
  then have two: "length (groups (group_logs_by_param_length ?E ''ab<*>'')) = 2"
    by simp
  have gp: "gap (group_logs_by_param_length ?E ''ab<*>'')
              = \<lparr> threshold = 8, gap_size = 12, min_length = 1, max_length = 14 \<rparr>"
    by (simp add: group_logs_by_param_length_def param_length_def Let_def)
  have cnt: "map count (groups (group_logs_by_param_length ?E ''ab<*>'')) = [2, 1]"
    by (simp add: group_logs_by_param_length_def param_length_def Let_def make_group_def)
  show ?thesis
    using h two gp cnt by simp
qed

subsection \<open>The oracle gate of the length-gap flow\<close>

lemma stride_sample_nonempty:
  assumes "rows \<noteq> []" and "0 < n"
  shows "snd (stride_sample n rows) \<noteq> []"
proof (cases "length rows \<le> n")
  case True
  with assms show ?thesis by (simp add: stride_sample_def)
next
  case False
  define step where "step = length rows div n"
  from False assms(2) have step: "0 < step"
    unfolding step_def by (simp add: div_greater_zero_iff)
  have "step \<le> length rows + step - 1" using assms(1) by (cases rows) auto
  then have "1 \<le> (length rows + step - 1) div step"
    using step by (metis div_le_mono div_self less_numeral_extra(3))
  then have "[0 ..< (length rows + step - 1) div step] \<noteq> []" by simp
  with False assms(2) show ?thesis
    by (simp add: stride_sample_def Let_def step_def[symmetric])
qed

lemma sampled_logs_nonempty:
  assumes "get_uniform_sampled_logs env 50 = Inr sr"
  shows "sampled_logs sr \<noteq> []"
proof -
  from assms obtain rows where rows: "rows \<noteq> []"
    and sr: "sampled_logs sr
               = map (\<lambda>r. \<lparr> LineId = row_LineId r, Content = row_Content r \<rparr>)
                   (snd (stride_sample 50 rows))"
    by (auto simp: get_uniform_sampled_logs_def Let_def split_beta
             split: csv_file.splits if_splits sum.splits)
  from stride_sample_nonempty[OF rows, of 50] sr show ?thesis by simp
qed

lemma ask_redirect_or_give_up_no_split:
  "AskSplitFromLogs \<notin> set (snd (returned (ask_redirect_or_give_up orc k)))"
  by (simp add: returned_def ask_redirect_or_give_up_def ask_redirect_def)

text \<open>The flow asks for the split analysis exactly in its last branch.\<close>

lemma flow_asks_iff:
  assumes "get_uniform_sampled_logs env 50 = Inr sr"
  shows "asks_split_from_logs (split_from_logs_flow R env orc template fs k) \<longleftrightarrow>
           \<not> (length (groups (group_logs_by_param_length (sampled_logs sr) template)) \<le> 1
              \<or> (gap_size (gap (group_logs_by_param_length (sampled_logs sr) template)) < 10
                 \<and> relative_gap (gap (group_logs_by_param_length (sampled_logs sr) template))
                     < 3 / 10))"
  using assms ask_redirect_or_give_up_no_split[of orc k]
  by (simp add: split_from_logs_flow_def asks_split_from_logs_def Let_def split_beta)

lemma flow_sampling_failed:
  assumes "get_uniform_sampled_logs env 50 = Inl err"
  shows "\<not> asks_split_from_logs (split_from_logs_flow R env orc template fs k)"
  using assms ask_redirect_or_give_up_no_split[of orc k]
  by (simp add: split_from_logs_flow_def asks_split_from_logs_def)

text \<open>One distinct length among the logs of a non-empty sample: exactly one group.\<close>

lemma grouper_uniform:
  assumes "entries \<noteq> []"
    and "\<forall>l\<in>set (param_lengths entries template).
           \<forall>l'\<in>set (param_lengths entries template). l = l'"
  shows "length (groups (group_logs_by_param_length entries template)) = 1"
proof -
  let ?lens = "param_lengths entries template"
  from assms(1) obtain l where l: "l \<in> set ?lens"
    by (cases entries) (auto simp: param_lengths_def)
  with assms(2) have "set ?lens = {l}" by auto
  then have "card (set ?lens) = 1" by simp
  then have "length (sort (remdups ?lens)) = 1"
    by (simp add: length_remdups_card_conv)
  then obtain x where x: "sort (remdups ?lens) = [x]"
    by (cases "sort (remdups ?lens)") auto
  show ?thesis
    using assms(1) x
    by (simp add: group_logs_by_param_length_def Let_def grouper_details comp_def
                  param_lengths_def[symmetric])
qed

text \<open>More than one group needs two distinct lengths, so a positive maximal length.\<close>

lemma grouper_groups_le_two_lengths:
  assumes "1 < length (groups (group_logs_by_param_length entries template))"
  shows "0 < max_length (gap (group_logs_by_param_length entries template))"
proof -
  let ?lens = "param_lengths entries template"
  have ne: "entries \<noteq> []"
    using assms by (auto simp: group_logs_by_param_length_def)
  obtain a b rest where xs: "sort (remdups ?lens) = a # b # rest"
  proof (cases "sort (remdups ?lens)")
    case Nil
    with assms ne show ?thesis
      by (simp add: group_logs_by_param_length_def Let_def grouper_details comp_def
                    param_lengths_def[symmetric])
  next
    case (Cons a tl1)
    show ?thesis
    proof (cases tl1)
      case Nil
      with Cons assms ne show ?thesis
        by (simp add: group_logs_by_param_length_def Let_def grouper_details comp_def
                      param_lengths_def[symmetric])
    next
      case (Cons b rest)
      with \<open>sort (remdups ?lens) = a # tl1\<close> that show ?thesis by simp
    qed
  qed
  have srt: "sorted (a # b # rest)" and dst: "distinct (a # b # rest)"
    using xs[symmetric] by simp_all
  have mem: "a \<in> set ?lens" "b \<in> set ?lens"
    using xs by (metis list.set_intros(1) set_remdups set_sort,
                 metis list.set_intros(1,2) set_remdups set_sort)
  have nonneg: "0 \<le> a"
    using mem(1) by (auto simp: param_lengths_def param_length_def Let_def)
  have "a < b" using srt dst by auto
  with nonneg have "0 < b" by simp
  moreover have "b \<le> Max (set ?lens)" using mem(2) by simp
  moreover have "max_length (gap (group_logs_by_param_length entries template)) = Max (set ?lens)"
    using ne xs
    by (simp add: group_logs_by_param_length_def Let_def grouper_details comp_def
                  param_lengths_def[symmetric])
  ultimately show ?thesis by simp
qed

lemma gate_passes_code:
  "gate_passes (group_logs_by_param_length entries template) \<longleftrightarrow>
     \<not> (length (groups (group_logs_by_param_length entries template)) \<le> 1
        \<or> (gap_size (gap (group_logs_by_param_length entries template)) < 10
           \<and> relative_gap (gap (group_logs_by_param_length entries template)) < 3 / 10))"
proof (cases "1 < length (groups (group_logs_by_param_length entries template))")
  case True
  from grouper_groups_le_two_lengths[OF True] show ?thesis
    by (simp add: gate_passes_def relative_gap_def)
next
  case False
  then show ?thesis by (simp add: gate_passes_def)
qed

text \<open>
  In the length-gap flow the sample is never empty; when all sampled parameter lengths
  are equal the grouper returns exactly one group and the oracle is not asked for a split
  classification; and the oracle is asked for it exactly when the gate passes, that is,
  when there is more than one group and not both the gap is below 10 and the gap divided
  by the maximal length is below 0.30.  When sampling fails the oracle is not asked
  either.
\<close>

lemma length_gap_flow_gate:
  "(get_uniform_sampled_logs env 50 = Inr sr \<longrightarrow>
      sampled_logs sr \<noteq> []
      \<and> ((\<forall>l\<in>set (param_lengths (sampled_logs sr) template).
             \<forall>l'\<in>set (param_lengths (sampled_logs sr) template). l = l') \<longrightarrow>
           length (groups (group_logs_by_param_length (sampled_logs sr) template)) = 1
           \<and> \<not> asks_split_from_logs (split_from_logs_flow R env orc template fs k))
      \<and> (asks_split_from_logs (split_from_logs_flow R env orc template fs k) \<longleftrightarrow>
           gate_passes (group_logs_by_param_length (sampled_logs sr) template)))
   \<and> (get_uniform_sampled_logs env 50 = Inl err \<longrightarrow>
        \<not> asks_split_from_logs (split_from_logs_flow R env orc template fs k))"
proof (intro conjI impI)
  assume s: "get_uniform_sampled_logs env 50 = Inr sr"
  show ne: "sampled_logs sr \<noteq> []"
    by (rule sampled_logs_nonempty[OF s])
  show iff: "asks_split_from_logs (split_from_logs_flow R env orc template fs k) \<longleftrightarrow>
           gate_passes (group_logs_by_param_length (sampled_logs sr) template)"
    unfolding gate_passes_code by (rule flow_asks_iff[OF s])
  assume eq: "\<forall>l\<in>set (param_lengths (sampled_logs sr) template).
             \<forall>l'\<in>set (param_lengths (sampled_logs sr) template). l = l'"
  show one: "length (groups (group_logs_by_param_length (sampled_logs sr) template)) = 1"
    by (rule grouper_uniform[OF ne eq])
  then have "\<not> gate_passes (group_logs_by_param_length (sampled_logs sr) template)"
    by (simp add: gate_passes_def)
  with iff show "\<not> asks_split_from_logs (split_from_logs_flow R env orc template fs k)"
    by simp
next
  assume "get_uniform_sampled_logs env 50 = Inl err"
  then show "\<not> asks_split_from_logs (split_from_logs_flow R env orc template fs k)"
    by (rule flow_sampling_failed)
qed

subsection \<open>The two flows of the SPLIT handler\<close>

lemma handler_takes_length_gap_flow:
  assumes "use_new_flow template ctx"
  shows "handle_template_split_v2 R env orc template fs k ctx
           = split_from_logs_flow R env orc template fs k"
  using assms
  by (auto simp: handle_template_split_v2_def use_new_flow_def ctx_new_def ctx_old_def Let_def
           split: option.splits)

lemma handler_takes_dual_flow:
  assumes "\<not> use_new_flow template ctx" and "ctx_sampling_result ctx = Some sampling"
  shows "handle_template_split_v2 R env orc template fs k ctx
           = split_dual_flow R env orc sampling (ctx_new template ctx) (ctx_old template ctx)
               fs k"
  using assms
  by (auto simp: handle_template_split_v2_def use_new_flow_def ctx_new_def ctx_old_def Let_def
           split: option.splits)

text \<open>The oracle calls after the split analysis are redirect queries.\<close>

lemma returned_calls:
  "set (snd (returned (ask_redirect_or_give_up orc k))) \<subseteq> {AskRedirect ''SPLIT''}"
  by (simp add: returned_def ask_redirect_or_give_up_def ask_redirect_def)

lemma accept_split_calls:
  assumes "accept_split R orc fs k original dflt sa = Some r"
  shows "set (snd r) \<subseteq> {AskRedirect ''2.2d-template-split''}"
  using assms
  by (auto simp: accept_split_def ask_redirect_def Let_def
           split: option.splits if_splits sum.splits)

lemma act_on_split_calls:
  "set (snd (act_on_split R orc fs k original dflt sa))
     \<subseteq> {AskRedirect ''SPLIT'', AskRedirect ''2.2d-template-split''}"
proof (cases "accept_split R orc fs k original dflt sa")
  case None
  then show ?thesis
    using returned_calls[of orc k] by (auto simp: act_on_split_def)
next
  case (Some r)
  then show ?thesis
    using returned_calls[of orc k] accept_split_calls[OF Some]
    by (auto simp: act_on_split_def)
qed

lemma no_split_calls:
  "AskSplitFromLogs \<notin> set (snd (returned (ask_redirect_or_give_up orc k)))"
  "AskSplitDual \<notin> set (snd (returned (ask_redirect_or_give_up orc k)))"
  "AskSplitFromLogs \<notin> set (snd (act_on_split R orc fs k original dflt sa))"
  "AskSplitDual \<notin> set (snd (act_on_split R orc fs k original dflt sa))"
  using returned_calls[of orc k] act_on_split_calls[of R orc fs k original dflt sa]
  by auto

lemma length_gap_flow_no_dual:
  "\<not> asks_split_dual (split_from_logs_flow R env orc template fs k)"
  using no_split_calls(2)[of orc k] no_split_calls(4)[of R orc fs k template None]
  by (auto simp: split_from_logs_flow_def asks_split_dual_def Let_def split_beta
           split: sum.splits)

lemma dual_flow_asks:
  "\<not> asks_split_from_logs (split_dual_flow R env orc sampling n_tpl o_tpl fs k)"
  "asks_split_dual (split_dual_flow R env orc sampling n_tpl o_tpl fs k) \<longleftrightarrow>
     (\<exists>ts. priority_attempt R orc sampling n_tpl o_tpl fs = Inr ts \<and> success_count ts = 0)"
proof -
  show "\<not> asks_split_from_logs (split_dual_flow R env orc sampling n_tpl o_tpl fs k)"
    using no_split_calls(1)[of orc k] no_split_calls(3)[of R orc fs k o_tpl "Some n_tpl"]
    by (auto simp: split_dual_flow_def asks_split_from_logs_def Let_def split_beta
             split: sum.splits)
  show "asks_split_dual (split_dual_flow R env orc sampling n_tpl o_tpl fs k) \<longleftrightarrow>
     (\<exists>ts. priority_attempt R orc sampling n_tpl o_tpl fs = Inr ts \<and> success_count ts = 0)"
    by (auto simp: split_dual_flow_def asks_split_dual_def Let_def split_beta
             split: sum.splits)
qed

text \<open>
  C5 fails for the handler as a whole.  Entered from the TEMPLATE stage with a sampling
  result and a new template that differs from the old one, the handler takes the
  dual-pattern flow, which forms no groups and has no gate: for the event whose two
  lines have the same parameter length, a sample of it has the lengths 1 and 1 and gives
  one group, and the handler asks the oracle for the split analysis all the same.
\<close>

theorem C5_dual_flow_asks_without_gate:
  "handle_template_split_v2 py_re_fragment uniform_jobs silent_oracle ''ab<*>''
     [uniform_sample] 3 uniform_context
     = (Inr (outcome GIVE_UP), [AskSplitDual, AskRedirect ''SPLIT''])
   \<and> check_dual_patterns_with_sampling py_re_fragment (csv uniform_jobs) ''abX'' ''ab<*>'' 2
       = Inr uniform_sampling
   \<and> map_sum id (\<lambda>sr. param_lengths (sampled_logs sr) ''ab<*>'')
       (get_uniform_sampled_logs uniform_jobs 50) = Inr [1, 1]
   \<and> map_sum id (\<lambda>sr. length (groups (group_logs_by_param_length (sampled_logs sr) ''ab<*>'')))
       (get_uniform_sampled_logs uniform_jobs 50) = Inr 1"
proof -
  have d: "check_dual_patterns_with_sampling py_re_fragment (csv uniform_jobs) ''abX'' ''ab<*>'' 2
             = Inr uniform_sampling"
    by (simp add: check_dual_patterns_with_sampling_def uniform_jobs_def uniform_sampling_def
                  row_of_def keep_sample_def convert_template_to_regex_def re_escape_def
                  re_special_def wildcard_regex_def backslash_def py_re_fragment_def
                  is_alnum_def Let_def)
  have g: "get_uniform_sampled_logs uniform_jobs 50
             = Inr \<lparr> sampled_logs = [\<lparr> LineId = ''1'', Content = ''abX'' \<rparr>,
                                      \<lparr> LineId = ''2'', Content = ''abY'' \<rparr>],
                     sr_total_count = 2, sample_step = 1 \<rparr>"
    by (simp add: get_uniform_sampled_logs_def stride_sample_def row_of_def uniform_jobs_def)
  have pl: "param_lengths [\<lparr> LineId = ''1'', Content = ''abX'' \<rparr>,
                           \<lparr> LineId = ''2'', Content = ''abY'' \<rparr>] ''ab<*>'' = [1, 1]"
    by (simp add: param_lengths_def param_length_def)
  have gr: "length (groups (group_logs_by_param_length
                              [\<lparr> LineId = ''1'', Content = ''abX'' \<rparr>,
                               \<lparr> LineId = ''2'', Content = ''abY'' \<rparr>] ''ab<*>'')) = 1"
    by (simp add: group_logs_by_param_length_def param_length_def Let_def)
  have st: "strip ''abZ'' = ''abZ''" "strip ''abX'' = ''abX''"
    by (simp_all add: strip_def rstrip_def is_space_def)
  have pa: "priority_attempt py_re_fragment silent_oracle uniform_sampling ''abX'' ''ab<*>''
              [uniform_sample]
              = Inr [\<lparr> line_id = ''1'', template_used = Some ''ab<*>'', split_match = False \<rparr>]"
    by (simp add: priority_attempt_def uniform_sampling_def silent_oracle_def uniform_sample_def
                  test_samples_with_split_templates_def split_test_of_sample_def
                  choose_template_def sort_by_specificity_def template_pattern_of_def
                  test_single_sample_def st rstrip_def is_space_def
                  convert_template_to_regex_def re_escape_def re_special_def
                  wildcard_regex_def backslash_def py_re_fragment_def is_alnum_def Let_def)
  have an: "analyze_template_split py_re_fragment E uniform_sampling (o_split silent_oracle)
              = \<lparr> sa_decision = ''SPLIT'', sa_split_templates = [], sa_new_template = None,
                    sa_variable_description = [], sa_verification_results = None,
                    sa_coverage_rate = None, sa_error = None \<rparr>" for E
    by (simp add: analyze_template_split_def parsed_split_fields_def silent_oracle_def)
  have ask: "returned (ask_redirect_or_give_up silent_oracle 3)
               = (Inr (outcome GIVE_UP), [AskRedirect ''SPLIT''])"
    by (simp add: returned_def ask_redirect_or_give_up_def ask_redirect_def silent_oracle_def
                  ask_llm_for_redirect_decision_def redirect_fallback_def)
  have h: "handle_template_split_v2 py_re_fragment uniform_jobs silent_oracle ''ab<*>''
             [uniform_sample] 3 uniform_context
             = (Inr (outcome GIVE_UP), [AskSplitDual, AskRedirect ''SPLIT''])"
    by (simp add: handle_template_split_v2_def uniform_context_def split_dual_flow_def pa
                  success_count_def an act_on_split_def ask Let_def)
  show ?thesis
    using h d by (simp add: g pl gr)
qed

text \<open>
  C5, amended.  In the length-gap flow, which the handler takes when it has no sampling
  result of the TEMPLATE stage or when the new template equals the old one: the sample
  is never empty; when all sampled parameter lengths are equal the grouper returns
  exactly one group and the oracle is not asked for a split classification; the oracle
  is asked for it exactly when the gate passes, that is, when there is more than one
  group and not both the gap is below 10 and the gap divided by the maximal length is
  below 0.30; and it is not asked when sampling fails.  In the dual-pattern flow, which
  the handler takes otherwise, there are no groups and no gate: the oracle is asked for
  the split analysis exactly when the priority attempt with the new and the old template
  regenerates no failed sample (or is not made).
\<close>

theorem C5_split_handler_gate:
  "(use_new_flow template ctx \<and> get_uniform_sampled_logs env 50 = Inr sr \<longrightarrow>
      sampled_logs sr \<noteq> []
      \<and> ((\<forall>l\<in>set (param_lengths (sampled_logs sr) template).
             \<forall>l'\<in>set (param_lengths (sampled_logs sr) template). l = l') \<longrightarrow>
           length (groups (group_logs_by_param_length (sampled_logs sr) template)) = 1
           \<and> \<not> asks_split_from_logs
                 (handle_template_split_v2 R env orc template fs k ctx))
      \<and> (asks_split_from_logs (handle_template_split_v2 R env orc template fs k ctx) \<longleftrightarrow>
           gate_passes (group_logs_by_param_length (sampled_logs sr) template))
      \<and> \<not> asks_split_dual (handle_template_split_v2 R env orc template fs k ctx))
   \<and> (use_new_flow template ctx \<and> get_uniform_sampled_logs env 50 = Inl err \<longrightarrow>
        \<not> asks_split_from_logs (handle_template_split_v2 R env orc template fs k ctx)
        \<and> \<not> asks_split_dual (handle_template_split_v2 R env orc template fs k ctx))
   \<and> (\<not> use_new_flow template ctx \<and> ctx_sampling_result ctx = Some sampling \<longrightarrow>
        \<not> asks_split_from_logs (handle_template_split_v2 R env orc template fs k ctx)
        \<and> (asks_split_dual (handle_template_split_v2 R env orc template fs k ctx) \<longleftrightarrow>
             (\<exists>ts. priority_attempt R orc sampling (ctx_new template ctx)
                         (ctx_old template ctx) fs = Inr ts
                   \<and> success_count ts = 0)))"
proof (intro conjI impI)
  assume a: "use_new_flow template ctx \<and> get_uniform_sampled_logs env 50 = Inr sr"
  then have h: "handle_template_split_v2 R env orc template fs k ctx
                  = split_from_logs_flow R env orc template fs k"
    using handler_takes_length_gap_flow by blast
  from a have s: "get_uniform_sampled_logs env 50 = Inr sr" by simp
  from length_gap_flow_gate[of env sr template R orc fs k] s
  show "sampled_logs sr \<noteq> []"
    and "asks_split_from_logs (handle_template_split_v2 R env orc template fs k ctx) \<longleftrightarrow>
           gate_passes (group_logs_by_param_length (sampled_logs sr) template)"
    unfolding h by blast+
  show "\<not> asks_split_dual (handle_template_split_v2 R env orc template fs k ctx)"
    unfolding h by (rule length_gap_flow_no_dual)
  assume eq: "\<forall>l\<in>set (param_lengths (sampled_logs sr) template).
             \<forall>l'\<in>set (param_lengths (sampled_logs sr) template). l = l'"
  from length_gap_flow_gate[of env sr template R orc fs k] s eq
  show "length (groups (group_logs_by_param_length (sampled_logs sr) template)) = 1"
    and "\<not> asks_split_from_logs (handle_template_split_v2 R env orc template fs k ctx)"
    unfolding h by blast+
next
  assume a: "use_new_flow template ctx \<and> get_uniform_sampled_logs env 50 = Inl err"
  then have h: "handle_template_split_v2 R env orc template fs k ctx
                  = split_from_logs_flow R env orc template fs k"
    using handler_takes_length_gap_flow by blast
  from a flow_sampling_failed[of env err R orc template fs k]
  show "\<not> asks_split_from_logs (handle_template_split_v2 R env orc template fs k ctx)"
    unfolding h by blast
  show "\<not> asks_split_dual (handle_template_split_v2 R env orc template fs k ctx)"
    unfolding h by (rule length_gap_flow_no_dual)
next
  assume a: "\<not> use_new_flow template ctx \<and> ctx_sampling_result ctx = Some sampling"
  then have h: "handle_template_split_v2 R env orc template fs k ctx
                  = split_dual_flow R env orc sampling (ctx_new template ctx)
                      (ctx_old template ctx) fs k"
    using handler_takes_dual_flow by blast
  show "\<not> asks_split_from_logs (handle_template_split_v2 R env orc template fs k ctx)"
    unfolding h by (rule dual_flow_asks(1))
  show "asks_split_dual (handle_template_split_v2 R env orc template fs k ctx) \<longleftrightarrow>
             (\<exists>ts. priority_attempt R orc sampling (ctx_new template ctx)
                         (ctx_old template ctx) fs = Inr ts
                   \<and> success_count ts = 0)"
    unfolding h by (rule dual_flow_asks(2))
qed

text \<open>
  Witness for C5, under the template \<^verbatim>\<open>ab<*>\<close>.  Without a split context: for the event
  whose lines have the parameter length 1 the oracle is not asked, and for the event
  whose lines have the parameter lengths 1 and 14 the gap of 13 passes the gate and the
  oracle is asked.  With the split context of the TEMPLATE stage the handler takes the
  dual-pattern flow: the priority attempt regenerates nothing and the oracle is asked.
\<close>

theorem C5_split_handler_gate_witness:
  "use_new_flow ''ab<*>'' no_context
   \<and> get_uniform_sampled_logs uniform_jobs 50
       = Inr \<lparr> sampled_logs = [\<lparr> LineId = ''1'', Content = ''abX'' \<rparr>,
                                \<lparr> LineId = ''2'', Content = ''abY'' \<rparr>],
               sr_total_count = 2, sample_step = 1 \<rparr>
   \<and> length (groups (group_logs_by_param_length
                [\<lparr> LineId = ''1'', Content = ''abX'' \<rparr>,
                 \<lparr> LineId = ''2'', Content = ''abY'' \<rparr>] ''ab<*>'')) = 1
   \<and> \<not> asks_split_from_logs
         (handle_template_split_v2 py_re_fragment uniform_jobs silent_oracle ''ab<*>''
            [uniform_sample] 3 no_context)
   \<and> \<not> asks_split_dual
         (handle_template_split_v2 py_re_fragment uniform_jobs silent_oracle ''ab<*>''
            [uniform_sample] 3 no_context)
   \<and> get_uniform_sampled_logs gap_jobs 50
       = Inr \<lparr> sampled_logs = [\<lparr> LineId = ''1'', Content = ''abX'' \<rparr>,
                                \<lparr> LineId = ''2'', Content = ''abXXXXXXXXXXXXXX'' \<rparr>],
               sr_total_count = 2, sample_step = 1 \<rparr>
   \<and> gate_passes (group_logs_by_param_length
                     [\<lparr> LineId = ''1'', Content = ''abX'' \<rparr>,
                      \<lparr> LineId = ''2'', Content = ''abXXXXXXXXXXXXXX'' \<rparr>] ''ab<*>'')
   \<and> asks_split_from_logs
         (handle_template_split_v2 py_re_fragment gap_jobs silent_oracle ''ab<*>''
            [uniform_sample] 3 no_context)
   \<and> \<not> use_new_flow ''ab<*>'' uniform_context
   \<and> ctx_sampling_result uniform_context = Some uniform_sampling
   \<and> priority_attempt py_re_fragment silent_oracle uniform_sampling
         (ctx_new ''ab<*>'' uniform_context) (ctx_old ''ab<*>'' uniform_context)
         [uniform_sample]
       = Inr [\<lparr> line_id = ''1'', template_used = Some ''ab<*>'', split_match = False \<rparr>]
   \<and> asks_split_dual
         (handle_template_split_v2 py_re_fragment uniform_jobs silent_oracle ''ab<*>''
            [uniform_sample] 3 uniform_context)
   \<and> \<not> asks_split_from_logs
         (handle_template_split_v2 py_re_fragment uniform_jobs silent_oracle ''ab<*>''
            [uniform_sample] 3 uniform_context)"
proof -
  let ?S1 = "\<lparr> sampled_logs = [\<lparr> LineId = ''1'', Content = ''abX'' \<rparr>,
                                \<lparr> LineId = ''2'', Content = ''abY'' \<rparr>],
               sr_total_count = 2, sample_step = 1 \<rparr>"
  let ?S2 = "\<lparr> sampled_logs = [\<lparr> LineId = ''1'', Content = ''abX'' \<rparr>,
                                \<lparr> LineId = ''2'', Content = ''abXXXXXXXXXXXXXX'' \<rparr>],
               sr_total_count = 2, sample_step = 1 \<rparr>"
  have u: "use_new_flow ''ab<*>'' no_context"
    by (simp add: use_new_flow_def no_context_def)
  have nu: "\<not> use_new_flow ''ab<*>'' uniform_context"
    by (simp add: use_new_flow_def uniform_context_def ctx_new_def ctx_old_def)
  have cs: "ctx_sampling_result uniform_context = Some uniform_sampling"
    by (simp add: uniform_context_def)
  have s1: "get_uniform_sampled_logs uniform_jobs 50 = Inr ?S1"
    by (simp add: get_uniform_sampled_logs_def stride_sample_def row_of_def uniform_jobs_def)
  have s2: "get_uniform_sampled_logs gap_jobs 50 = Inr ?S2"
    by (simp add: get_uniform_sampled_logs_def stride_sample_def row_of_def gap_jobs_def)
  have eq1: "\<forall>l\<in>set (param_lengths (sampled_logs ?S1) ''ab<*>'').
               \<forall>l'\<in>set (param_lengths (sampled_logs ?S1) ''ab<*>''). l = l'"
    by (simp add: param_lengths_def param_length_def)
  have g2: "gate_passes (group_logs_by_param_length (sampled_logs ?S2) ''ab<*>'')"
    by (simp add: gate_passes_def group_logs_by_param_length_def param_length_def Let_def)
  have st: "strip ''abZ'' = ''abZ''" "strip ''abX'' = ''abX''"
    by (simp_all add: strip_def rstrip_def is_space_def)
  have pa: "priority_attempt py_re_fragment silent_oracle uniform_sampling
              (ctx_new ''ab<*>'' uniform_context) (ctx_old ''ab<*>'' uniform_context)
              [uniform_sample]
              = Inr [\<lparr> line_id = ''1'', template_used = Some ''ab<*>'', split_match = False \<rparr>]"
    by (simp add: ctx_new_def ctx_old_def uniform_context_def
                  priority_attempt_def uniform_sampling_def silent_oracle_def uniform_sample_def
                  test_samples_with_split_templates_def split_test_of_sample_def
                  choose_template_def sort_by_specificity_def template_pattern_of_def
                  test_single_sample_def st rstrip_def is_space_def
                  convert_template_to_regex_def re_escape_def re_special_def
                  wildcard_regex_def backslash_def py_re_fragment_def is_alnum_def Let_def)
  have sc: "success_count [\<lparr> line_id = ''1'', template_used = Some ''ab<*>'',
                             split_match = False \<rparr>] = 0"
    by (simp add: success_count_def)
  from C5_split_handler_gate[of "''ab<*>''" no_context uniform_jobs ?S1 py_re_fragment
         silent_oracle "[uniform_sample]" 3 _ _] u s1 eq1
  have r1: "length (groups (group_logs_by_param_length (sampled_logs ?S1) ''ab<*>'')) = 1
            \<and> \<not> asks_split_from_logs
                  (handle_template_split_v2 py_re_fragment uniform_jobs silent_oracle ''ab<*>''
                     [uniform_sample] 3 no_context)
            \<and> \<not> asks_split_dual
                  (handle_template_split_v2 py_re_fragment uniform_jobs silent_oracle ''ab<*>''
                     [uniform_sample] 3 no_context)"
    by blast
  from C5_split_handler_gate[of "''ab<*>''" no_context gap_jobs ?S2 py_re_fragment
         silent_oracle "[uniform_sample]" 3 _ _] u s2 g2
  have r2: "asks_split_from_logs
              (handle_template_split_v2 py_re_fragment gap_jobs silent_oracle ''ab<*>''
                 [uniform_sample] 3 no_context)"
    by blast
  from C5_split_handler_gate[of "''ab<*>''" uniform_context uniform_jobs _ py_re_fragment
         silent_oracle "[uniform_sample]" 3 _ uniform_sampling] nu cs pa sc
  have r3: "asks_split_dual
              (handle_template_split_v2 py_re_fragment uniform_jobs silent_oracle ''ab<*>''
                 [uniform_sample] 3 uniform_context)
            \<and> \<not> asks_split_from_logs
                  (handle_template_split_v2 py_re_fragment uniform_jobs silent_oracle ''ab<*>''
                     [uniform_sample] 3 uniform_context)"
    by blast
  show ?thesis
    using u s1 r1 s2 g2 r2 nu cs pa r3 by simp
qed

subsection \<open>The repair state machine: one loop iteration\<close>

lemma status_cases:
  "st = CONTINUE \<or> st = GIVE_UP \<or> is_redirect st"
  by (cases st) (simp_all add: is_redirect_def)

lemma is_redirect_not_final: "is_redirect st \<Longrightarrow> st \<noteq> CONTINUE \<and> st \<noteq> GIVE_UP"
  by (auto simp: is_redirect_def)


lemma sm_loop_raise:
  assumes "c \<le> m" and "H c st (active_of t rec) (m - c) (ctx_of rec) = Inl e"
  shows "sm_loop H m t st c rec = Inl e"
  using assms by (subst sm_loop.simps) (simp add: active_of_def ctx_of_def Let_def)

text \<open>\<open>CONTINUE\<close> ends the run: with the success of the current stage, or in the banner.\<close>

lemma sm_loop_continue:
  assumes "c \<le> m" and "H c st (active_of t rec) (m - c) (ctx_of rec) = Inr res"
    and "status res = CONTINUE"
  shows "sm_loop H m t st c rec
           = (if sliceable (result_reason res)
              then Inr (rec\<lparr> redirect_history := redirect_history rec @ [(st, c)],
                             final_status := Some (SUCCESS st),
                             final_reason := Some (result_reason res),
                             stage_history_saved := True \<rparr>)
              else Inl ''TypeError'')"
  using assms by (subst sm_loop.simps) (simp add: active_of_def ctx_of_def Let_def)

text \<open>\<open>GIVE_UP\<close> ends the run too.\<close>

lemma sm_loop_give_up:
  assumes "c \<le> m" and "H c st (active_of t rec) (m - c) (ctx_of rec) = Inr res"
    and "status res = GIVE_UP"
  shows "sm_loop H m t st c rec
           = (if sliceable (result_reason res)
                 \<and> suggestions_printable (result_suggestions res)
              then Inr (rec\<lparr> redirect_history := redirect_history rec @ [(st, c)],
                             final_status := Some FINAL_GIVE_UP,
                             final_reason := Some (result_reason res),
                             stage_history_saved := True \<rparr>)
              else Inl ''TypeError'')"
  using assms by (subst sm_loop.simps) (simp add: active_of_def ctx_of_def Let_def)

text \<open>A \<open>REDIRECT\<close> with the count at the budget ends the run.\<close>

lemma sm_loop_budget:
  assumes "c \<le> m" and "H c st (active_of t rec) (m - c) (ctx_of rec) = Inr res"
    and "is_redirect (status res)" and "m < Suc c"
  shows "sm_loop H m t st c rec
           = Inr (rec\<lparr> redirect_history := redirect_history rec @ [(st, c)],
                       final_status := Some MAX_REDIRECTS_REACHED,
                       final_reason :=
                         Some (JStr (''Reached max redirect limit ('' @ str_nat m @ '')'')),
                       stage_history_saved := True \<rparr>)"
  using assms is_redirect_not_final[OF assms(3)]
  by (subst sm_loop.simps) (simp add: active_of_def ctx_of_def Let_def)

text \<open>A \<open>REDIRECT\<close> with the count below the budget goes on with the count plus one.\<close>

lemma sm_loop_redirect:
  assumes "c \<le> m" and "H c st (active_of t rec) (m - c) (ctx_of rec) = Inr res"
    and "is_redirect (status res)" and "Suc c \<le> m"
  shows "sm_loop H m t st c rec
           = (if sliceable (result_reason res)
              then sm_loop H m t (next_stage (status res) st) (Suc c)
                     (after_redirect t st c res
                        (rec\<lparr> redirect_history := redirect_history rec @ [(st, c)] \<rparr>))
              else Inl ''TypeError'')"
  using assms is_redirect_not_final[OF assms(3)]
  by (subst sm_loop.simps) (simp add: active_of_def ctx_of_def Let_def after_redirect_def)

lemma after_redirect_history:
  "redirect_history (after_redirect t st c res rec1) = redirect_history rec1"
  by (simp add: after_redirect_def Let_def split: option.splits)

lemma after_redirect_decisions:
  "map rd_redirect_count (redirect_decisions (after_redirect t st c res rec1))
     = map rd_redirect_count (redirect_decisions rec1) @ [Suc c]"
  by (simp add: after_redirect_def Let_def split: option.splits)

lemma loop_inv_length:
  "loop_inv H m st c rec \<Longrightarrow> length (redirect_history rec) = c"
  by (simp add: loop_inv_def) (metis length_map length_upt diff_zero)

lemma redirected_append:
  "Suc i < length hist \<Longrightarrow> redirected H m (hist @ ys) i = redirected H m hist i"
  by (simp add: redirected_def nth_append)

text \<open>The invariant is kept by a redirect.\<close>

lemma loop_inv_step:
  assumes inv: "loop_inv H m st c rec"
    and call: "H c st (active_of t rec) (m - c) (ctx_of rec) = Inr res"
    and red: "is_redirect (status res)"
  shows "loop_inv H m (next_stage (status res) st) (Suc c)
           (after_redirect t st c res
              (rec\<lparr> redirect_history := redirect_history rec @ [(st, c)] \<rparr>))"
proof -
  let ?nxt = "next_stage (status res) st"
  let ?hist = "redirect_history rec @ [(st, c)]"
  have len: "length (redirect_history rec) = c" by (rule loop_inv_length[OF inv])
  have old: "\<forall>i<c. redirected H m ?hist i" using inv by (simp add: loop_inv_def)
  have "redirected H m (?hist @ [(?nxt, Suc c)]) i" if "i < Suc c" for i
  proof (cases "i < c")
    case True
    then have "Suc i < length ?hist" using len by simp
    from redirected_append[OF this] old True show ?thesis by blast
  next
    case False
    with that have i: "i = c" by simp
    have "(?hist @ [(?nxt, Suc c)]) ! c = (st, c)"
      using len by (simp add: nth_append)
    moreover have "(?hist @ [(?nxt, Suc c)]) ! Suc c = (?nxt, Suc c)"
      using len by (simp add: nth_append)
    ultimately show ?thesis
      unfolding redirected_def i using call red by auto
  qed
  then show ?thesis
    using inv
    by (simp add: loop_inv_def after_redirect_history after_redirect_decisions)
qed

text \<open>The record written by an ending iteration.\<close>

lemma final_record_ok:
  assumes inv: "loop_inv H m st c rec" and c: "c \<le> m"
    and call: "H c st (active_of t rec) (m - c) (ctx_of rec) = Inr res"
    and r: "r = rec\<lparr> redirect_history := redirect_history rec @ [(st, c)],
                      final_status := Some fs, final_reason := Some rsn,
                      stage_history_saved := True \<rparr>"
    and rsn: "sliceable rsn"
    and ending: "status res = CONTINUE \<and> fs = SUCCESS st
                 \<or> status res = GIVE_UP \<and> fs = FINAL_GIVE_UP
                 \<or> is_redirect (status res) \<and> c = m \<and> fs = MAX_REDIRECTS_REACHED"
  shows "final_ok H t m r"
proof -
  have lenr: "length (redirect_history rec) = c" by (rule loop_inv_length[OF inv])
  have len: "length (redirect_history r) = Suc c"
    using lenr by (simp add: r)
  have ne: "redirect_history r \<noteq> []" by (simp add: r)
  have hist: "map snd (redirect_history r) = [0 ..< Suc c]"
    using inv by (simp add: r loop_inv_def)
  have dec: "map rd_redirect_count (redirect_decisions r) = [1 ..< Suc c]"
    using inv by (simp add: r loop_inv_def)
  have lst: "last (redirect_history r) = (st, c)" by (simp add: r)
  have lc: "last_call H t m r = Inr res"
    using call by (simp add: last_call_def r active_of_def ctx_of_def)
  have red: "\<forall>i. Suc i < Suc c \<longrightarrow> redirected H m (redirect_history r) i"
    using inv by (simp add: r loop_inv_def)
  have mx: "fs = MAX_REDIRECTS_REACHED \<longleftrightarrow> c = m \<and> is_redirect (status res)"
    using ending is_redirect_not_final[of "status res"] status_cases[of "status res"]
    by auto
  have trm: "defined_terminal (Some fs)"
    using ending by (auto simp: defined_terminal_def)
  have fsr: "final_status r = Some fs" and frr: "final_reason r = Some rsn"
    by (simp_all add: r)
  show ?thesis
    unfolding final_ok_def len hist dec lc lst fsr frr
    using ne c ending mx trm rsn red by auto
qed

subsection \<open>The repair state machine: the whole run\<close>

lemma sm_loop_final_ok:
  assumes "sm_loop H m t st c rec = Inr r" and "loop_inv H m st c rec" and "c \<le> m"
  shows "final_ok H t m r"
  using assms
proof (induction "m - c" arbitrary: c st rec rule: less_induct)
  case less
  note run = less.prems(1) and inv = less.prems(2) and cm = less.prems(3)
  show ?case
  proof (cases "H c st (active_of t rec) (m - c) (ctx_of rec)")
    case (Inl e)
    with run sm_loop_raise[where H=H and t=t and rec=rec and st=st, OF cm Inl]
    show ?thesis by simp
  next
    case (Inr res)
    from status_cases[of "status res"] show ?thesis
    proof (elim disjE)
      assume s: "status res = CONTINUE"
      from sm_loop_continue[where H=H and t=t and rec=rec and st=st, OF cm Inr s] run
      have sl: "sliceable (result_reason res)"
        and "r = rec\<lparr> redirect_history := redirect_history rec @ [(st, c)],
                      final_status := Some (SUCCESS st),
                      final_reason := Some (result_reason res),
                      stage_history_saved := True \<rparr>"
        by (auto split: if_splits)
      from final_record_ok[where H=H and t=t and rec=rec and st=st and r=r
             and fs="SUCCESS st" and rsn="result_reason res", OF inv cm Inr this(2) sl] s
      show ?thesis by simp
    next
      assume s: "status res = GIVE_UP"
      from sm_loop_give_up[where H=H and t=t and rec=rec and st=st, OF cm Inr s] run
      have sl: "sliceable (result_reason res)"
        and "r = rec\<lparr> redirect_history := redirect_history rec @ [(st, c)],
                      final_status := Some FINAL_GIVE_UP,
                      final_reason := Some (result_reason res),
                      stage_history_saved := True \<rparr>"
        by (auto split: if_splits)
      from final_record_ok[where H=H and t=t and rec=rec and st=st and r=r
             and fs=FINAL_GIVE_UP and rsn="result_reason res", OF inv cm Inr this(2) sl] s
      show ?thesis by simp
    next
      assume s: "is_redirect (status res)"
      show ?thesis
      proof (cases "Suc c \<le> m")
        case True
        let ?rec' = "after_redirect t st c res
                       (rec\<lparr> redirect_history := redirect_history rec @ [(st, c)] \<rparr>)"
        from sm_loop_redirect[where H=H and t=t and rec=rec and st=st, OF cm Inr s True] run
        have run': "sm_loop H m t (next_stage (status res) st) (Suc c) ?rec' = Inr r"
          by (auto split: if_splits)
        have inv': "loop_inv H m (next_stage (status res) st) (Suc c) ?rec'"
          by (rule loop_inv_step[OF inv Inr s])
        from True have "m - Suc c < m - c" by simp
        from less.hyps[OF this run' inv' True] show ?thesis .
      next
        case False
        then have lt: "m < Suc c" by simp
        with cm have eq: "c = m" by simp
        from sm_loop_budget[where H=H and t=t and rec=rec and st=st, OF cm Inr s lt] run
        have "r = rec\<lparr> redirect_history := redirect_history rec @ [(st, c)],
                      final_status := Some MAX_REDIRECTS_REACHED,
                      final_reason :=
                        Some (JStr (''Reached max redirect limit ('' @ str_nat m @ '')'')),
                      stage_history_saved := True \<rparr>"
          by simp
        from final_record_ok[where H=H and t=t and rec=rec and st=st and r=r
               and fs=MAX_REDIRECTS_REACHED
               and rsn="JStr (''Reached max redirect limit ('' @ str_nat m @ '')'')",
               OF inv cm Inr this] s eq
        show ?thesis by (simp add: sliceable_def)
      qed
    qed
  qed
qed

lemma loop_inv_empty: "loop_inv H m st 0 empty_record"
  by (simp add: loop_inv_def empty_record_def)

text \<open>With handlers that return printable results, the loop returns.\<close>

lemma sm_loop_returns:
  assumes "handlers_return_printable H" and "c \<le> m"
  shows "\<exists>r. sm_loop H m t st c rec = Inr r"
  using assms(2)
proof (induction "m - c" arbitrary: c st rec rule: less_induct)
  case less
  note cm = less.prems
  from assms(1) obtain res where call: "H c st (active_of t rec) (m - c) (ctx_of rec) = Inr res"
    and pr: "printable res"
    unfolding handlers_return_printable_def by blast
  from pr have sl: "sliceable (result_reason res)" by (simp add: printable_def)
  from status_cases[of "status res"] show ?case
  proof (elim disjE)
    assume s: "status res = CONTINUE"
    from sm_loop_continue[where H=H and t=t and rec=rec and st=st, OF cm call s] sl
    show ?thesis by simp
  next
    assume s: "status res = GIVE_UP"
    with pr have "suggestions_printable (result_suggestions res)" by (simp add: printable_def)
    with sm_loop_give_up[where H=H and t=t and rec=rec and st=st, OF cm call s] sl
    show ?thesis by simp
  next
    assume s: "is_redirect (status res)"
    show ?thesis
    proof (cases "Suc c \<le> m")
      case True
      then have "m - Suc c < m - c" by simp
      from less.hyps[OF this True]
           sm_loop_redirect[where H=H and t=t and rec=rec and st=st, OF cm call s True] sl
      show ?thesis by simp
    next
      case False
      then have "m < Suc c" by simp
      from sm_loop_budget[where H=H and t=t and rec=rec and st=st, OF cm call s this]
      show ?thesis by simp
    qed
  qed
qed


lemma run_final_ok:
  assumes "initial_stage dc = Some st0"
    and "run_repair_state_machine H dc template m = Inr r"
  shows "final_ok H template m r"
proof -
  from assms have "sm_loop H m template st0 0 empty_record = Inr r"
    by (simp add: run_repair_state_machine_def)
  from sm_loop_final_ok[OF this loop_inv_empty] show ?thesis by simp
qed

lemma run_returns:
  assumes "initial_stage dc = Some st0" and "handlers_return_printable H"
  shows "\<exists>r. run_repair_state_machine H dc template m = Inr r"
  using assms sm_loop_returns[OF assms(2), of 0 m template st0 empty_record]
  by (simp add: run_repair_state_machine_def)

text \<open>
  C1: in every run that returns, the stage entries carry the redirect counts 0, 1, 2, ...
  in order and the recorded redirects the counts 1, 2, ...; no stage runs with a count
  above the budget; every stage entry but the last was left because its handler returned
  a \<open>REDIRECT\<close> result, to the stage that result names, so that the count goes up by one
  per \<open>REDIRECT\<close> result and by nothing else; the last handler call returned \<open>CONTINUE\<close>
  (the run ends with the success of that stage), \<open>GIVE_UP\<close> (the run ends with
  \<open>GIVE_UP\<close>), or a \<open>REDIRECT\<close> result with the count equal to the budget, and the run
  ends with \<open>MAX_REDIRECTS_REACHED\<close> exactly in this last case, when the incremented count
  would exceed the budget.  When every handler returns a printable result, the run
  returns.
\<close>

theorem C1_redirect_budget:
  assumes "initial_stage dc = Some st0"
  shows "(run_repair_state_machine H dc template m = Inr r \<longrightarrow>
            redirect_history r \<noteq> []
          \<and> map snd (redirect_history r) = [0 ..< length (redirect_history r)]
          \<and> map rd_redirect_count (redirect_decisions r) = [1 ..< length (redirect_history r)]
          \<and> length (redirect_history r) \<le> Suc m
          \<and> (\<forall>i. Suc i < length (redirect_history r) \<longrightarrow>
                 redirected H m (redirect_history r) i)
          \<and> (\<exists>res. last_call H template m r = Inr res
                 \<and> (status res = CONTINUE
                      \<and> final_status r = Some (SUCCESS (fst (last (redirect_history r))))
                    \<or> status res = GIVE_UP \<and> final_status r = Some FINAL_GIVE_UP
                    \<or> is_redirect (status res) \<and> length (redirect_history r) = Suc m
                      \<and> final_status r = Some MAX_REDIRECTS_REACHED))
          \<and> (final_status r = Some MAX_REDIRECTS_REACHED \<longleftrightarrow>
               length (redirect_history r) = Suc m
               \<and> (\<exists>res. last_call H template m r = Inr res \<and> is_redirect (status res))))
       \<and> (handlers_return_printable H \<longrightarrow>
            (\<exists>r'. run_repair_state_machine H dc template m = Inr r'))"
proof (intro conjI impI)
  assume "run_repair_state_machine H dc template m = Inr r"
  from run_final_ok[OF assms this] have ok: "final_ok H template m r" .
  from ok show "redirect_history r \<noteq> []" by (simp add: final_ok_def)
  from ok show "map snd (redirect_history r) = [0 ..< length (redirect_history r)]"
    by (simp add: final_ok_def)
  from ok show "map rd_redirect_count (redirect_decisions r)
                  = [1 ..< length (redirect_history r)]"
    by (simp add: final_ok_def)
  from ok show "length (redirect_history r) \<le> Suc m" by (simp add: final_ok_def)
  from ok show "\<forall>i. Suc i < length (redirect_history r) \<longrightarrow>
                    redirected H m (redirect_history r) i"
    unfolding final_ok_def by blast
  from ok show "\<exists>res. last_call H template m r = Inr res
                 \<and> (status res = CONTINUE
                      \<and> final_status r = Some (SUCCESS (fst (last (redirect_history r))))
                    \<or> status res = GIVE_UP \<and> final_status r = Some FINAL_GIVE_UP
                    \<or> is_redirect (status res) \<and> length (redirect_history r) = Suc m
                      \<and> final_status r = Some MAX_REDIRECTS_REACHED)"
    unfolding final_ok_def by blast
  from ok show "final_status r = Some MAX_REDIRECTS_REACHED \<longleftrightarrow>
               length (redirect_history r) = Suc m
               \<and> (\<exists>res. last_call H template m r = Inr res \<and> is_redirect (status res))"
    unfolding final_ok_def by blast
next
  assume "handlers_return_printable H"
  from run_returns[OF assms this]
  show "\<exists>r'. run_repair_state_machine H dc template m = Inr r'" .
qed

lemma str_nat_3: "str_nat 3 = ''3''"
  by (subst str_nat.simps) simp

lemma always_redirect_run:
  "run_repair_state_machine always_redirect TEMPLATE_ERROR ''job <*>'' 3 =
     Inr \<lparr> final_status = Some MAX_REDIRECTS_REACHED,
           final_reason = Some (JStr ''Reached max redirect limit (3)''),
           redirect_history = [(TEMPLATE, 0), (DESCRIPTION, 1), (DESCRIPTION, 2), (DESCRIPTION, 3)],
           redirect_decisions =
             [\<lparr> from_stage = TEMPLATE, to_stage = DESCRIPTION, rd_redirect_count = 1,
                rd_reason = JStr ''try the description'' \<rparr>,
              \<lparr> from_stage = DESCRIPTION, to_stage = DESCRIPTION, rd_redirect_count = 2,
                rd_reason = JStr ''try the description'' \<rparr>,
              \<lparr> from_stage = DESCRIPTION, to_stage = DESCRIPTION, rd_redirect_count = 3,
                rd_reason = JStr ''try the description'' \<rparr>],
           active_template = None, rec_split_context = None,
           stage_history_saved = True \<rparr>"
proof -
  have c: "always_redirect i stg a k cx =
             Inr \<lparr> status = REDIRECT_DESCRIPTION, suggested_template = None,
                   sampling_result = None, new_template = None, old_template = None,
                   result_reason = JStr ''try the description'',
                   result_suggestions = JArr [] \<rparr>" for i stg a k cx
    by (simp add: always_redirect_def)
  have r: "is_redirect REDIRECT_DESCRIPTION" by (simp add: is_redirect_def)
  have s: "sliceable (JStr ''try the description'')" by (simp add: sliceable_def)
  show ?thesis
    unfolding run_repair_state_machine_def
    apply (simp add: initial_stage_def)
    apply (subst sm_loop_redirect[where H=always_redirect, OF _ c]; simp add: r s)
    apply (subst sm_loop_redirect[where H=always_redirect, OF _ c]; simp add: r s)
    apply (subst sm_loop_redirect[where H=always_redirect, OF _ c]; simp add: r s)
    apply (subst sm_loop_budget[where H=always_redirect, OF _ c]; simp add: r)
    apply (simp add: after_redirect_def empty_record_def str_nat_3)
    done
qed

lemma redirect_then_continue_run:
  "run_repair_state_machine redirect_then_continue TEMPLATE_ERROR ''job <*>'' 3 =
     Inr \<lparr> final_status = Some (SUCCESS DESCRIPTION),
           final_reason = Some (JStr ''repaired''),
           redirect_history = [(TEMPLATE, 0), (DESCRIPTION, 1)],
           redirect_decisions =
             [\<lparr> from_stage = TEMPLATE, to_stage = DESCRIPTION, rd_redirect_count = 1,
                rd_reason = JStr ''try the description'' \<rparr>],
           active_template = None, rec_split_context = None,
           stage_history_saved = True \<rparr>"
proof -
  have c0: "redirect_then_continue 0 stg a k cx =
             Inr \<lparr> status = REDIRECT_DESCRIPTION, suggested_template = None,
                   sampling_result = None, new_template = None, old_template = None,
                   result_reason = JStr ''try the description'',
                   result_suggestions = JArr [] \<rparr>" for stg a k cx
    by (simp add: redirect_then_continue_def)
  have c1: "redirect_then_continue (Suc 0) stg a k cx =
             Inr \<lparr> status = CONTINUE, suggested_template = None,
                   sampling_result = None, new_template = None, old_template = None,
                   result_reason = JStr ''repaired'',
                   result_suggestions = JArr [] \<rparr>" for stg a k cx
    by (simp add: redirect_then_continue_def)
  have r: "is_redirect REDIRECT_DESCRIPTION" by (simp add: is_redirect_def)
  have s: "sliceable (JStr x)" for x by (simp add: sliceable_def)
  show ?thesis
    unfolding run_repair_state_machine_def
    apply (simp add: initial_stage_def)
    apply (subst sm_loop_redirect[where H=redirect_then_continue, OF _ c0]; simp add: r s)
    apply (subst sm_loop_continue[where H=redirect_then_continue, OF _ c1]; simp add: s)
    apply (simp add: after_redirect_def empty_record_def)
    done
qed

text \<open>
  Witness for C1.  With the default budget of 3 and handlers that always redirect, the
  stages run with the counts 0, 1, 2, 3 and the fourth redirect ends the run with
  \<open>MAX_REDIRECTS_REACHED\<close>.  With a handler that redirects once and then succeeds, the
  run ends after the counts 0 and 1 with the success of the second stage: the first entry
  was left by a redirect, and the \<open>CONTINUE\<close> result ended the run without a further
  count.
\<close>

theorem C1_redirect_budget_witness:
  "initial_stage TEMPLATE_ERROR = Some TEMPLATE
   \<and> (\<exists>r. run_repair_state_machine always_redirect TEMPLATE_ERROR ''job <*>'' 3 = Inr r
          \<and> map snd (redirect_history r) = [0, 1, 2, 3]
          \<and> map rd_redirect_count (redirect_decisions r) = [1, 2, 3]
          \<and> final_status r = Some MAX_REDIRECTS_REACHED
          \<and> (\<exists>res. last_call always_redirect ''job <*>'' 3 r = Inr res
                   \<and> is_redirect (status res)))
   \<and> (\<exists>r. run_repair_state_machine redirect_then_continue TEMPLATE_ERROR ''job <*>'' 3 = Inr r
          \<and> map snd (redirect_history r) = [0, 1]
          \<and> map rd_redirect_count (redirect_decisions r) = [1]
          \<and> redirected redirect_then_continue 3 (redirect_history r) 0
          \<and> final_status r = Some (SUCCESS DESCRIPTION)
          \<and> (\<exists>res. last_call redirect_then_continue ''job <*>'' 3 r = Inr res
                   \<and> status res = CONTINUE))"
proof -
  have i: "initial_stage TEMPLATE_ERROR = Some TEMPLATE"
    by (simp add: initial_stage_def)
  have up: "[0 ..< 4] = [0, 1, 2, 3::nat]" "[1 ..< 4] = [1, 2, 3::nat]"
    "[0 ..< 2] = [0, 1::nat]" "[1 ..< 2] = [1::nat]"
    by (simp_all add: upt_rec)
  obtain r where run: "run_repair_state_machine always_redirect TEMPLATE_ERROR ''job <*>'' 3 = Inr r"
    and len: "length (redirect_history r) = 4"
    and fs: "final_status r = Some MAX_REDIRECTS_REACHED"
    using always_redirect_run by simp
  from C1_redirect_budget[OF i, of always_redirect "''job <*>''" 3 r] run
  have p: "map snd (redirect_history r) = [0 ..< length (redirect_history r)]"
    "map rd_redirect_count (redirect_decisions r) = [1 ..< length (redirect_history r)]"
    "final_status r = Some MAX_REDIRECTS_REACHED \<longleftrightarrow>
       length (redirect_history r) = Suc 3
       \<and> (\<exists>res. last_call always_redirect ''job <*>'' 3 r = Inr res \<and> is_redirect (status res))"
    by blast+
  have first: "\<exists>r. run_repair_state_machine always_redirect TEMPLATE_ERROR ''job <*>'' 3 = Inr r
          \<and> map snd (redirect_history r) = [0, 1, 2, 3]
          \<and> map rd_redirect_count (redirect_decisions r) = [1, 2, 3]
          \<and> final_status r = Some MAX_REDIRECTS_REACHED
          \<and> (\<exists>res. last_call always_redirect ''job <*>'' 3 r = Inr res
                   \<and> is_redirect (status res))"
    using run p fs len up by auto
  obtain q where runq:
      "run_repair_state_machine redirect_then_continue TEMPLATE_ERROR ''job <*>'' 3 = Inr q"
    and lenq: "length (redirect_history q) = 2"
    and fsq: "final_status q = Some (SUCCESS DESCRIPTION)"
    using redirect_then_continue_run by simp
  from C1_redirect_budget[OF i, of redirect_then_continue "''job <*>''" 3 q] runq
  have pq: "map snd (redirect_history q) = [0 ..< length (redirect_history q)]"
    "map rd_redirect_count (redirect_decisions q) = [1 ..< length (redirect_history q)]"
    "\<forall>i. Suc i < length (redirect_history q) \<longrightarrow>
         redirected redirect_then_continue 3 (redirect_history q) i"
    "\<exists>res. last_call redirect_then_continue ''job <*>'' 3 q = Inr res
           \<and> (status res = CONTINUE
                \<and> final_status q = Some (SUCCESS (fst (last (redirect_history q))))
              \<or> status res = GIVE_UP \<and> final_status q = Some FINAL_GIVE_UP
              \<or> is_redirect (status res) \<and> length (redirect_history q) = Suc 3
                \<and> final_status q = Some MAX_REDIRECTS_REACHED)"
    by blast+
  from pq(3) lenq have r0: "redirected redirect_then_continue 3 (redirect_history q) 0"
    by simp
  from pq(4) fsq lenq
  have lq: "\<exists>res. last_call redirect_then_continue ''job <*>'' 3 q = Inr res
                 \<and> status res = CONTINUE"
    by auto
  have second: "\<exists>r. run_repair_state_machine redirect_then_continue TEMPLATE_ERROR ''job <*>'' 3
                     = Inr r
          \<and> map snd (redirect_history r) = [0, 1]
          \<and> map rd_redirect_count (redirect_decisions r) = [1]
          \<and> redirected redirect_then_continue 3 (redirect_history r) 0
          \<and> final_status r = Some (SUCCESS DESCRIPTION)
          \<and> (\<exists>res. last_call redirect_then_continue ''job <*>'' 3 r = Inr res
                   \<and> status res = CONTINUE)"
    using runq pq(1,2) r0 fsq lq lenq up by auto
  show ?thesis
    using i first second by blast
qed




subsection \<open>Combined coverage of split candidates\<close>

text \<open>
  On the length-gap path the coverage is the quotient of the summed match counts by the
  corpus size, capped at 1 (and 0 for an empty corpus), so it lies between 0 and 1.
\<close>

lemma coverage_from_logs_capped:
  "coverage_from_logs vrs =
     (case vrs of
        [] \<Rightarrow> 0
      | v # _ \<Rightarrow> if vr_total_count v > 0
                 then min (real (sum_list (map vr_match_count vrs)) / real (vr_total_count v)) 1
                 else 0)"
  and "0 \<le> coverage_from_logs vrs" and "coverage_from_logs vrs \<le> 1"
  by (auto simp: coverage_from_logs_def Let_def split: list.splits)

lemma two_jobs_verification:
  "verify_split_templates py_re_fragment two_jobs
     [\<lparr> tpl_template = Some ''job start'', tpl_check_pattern = None,
        tpl_description = Some ''start of a job'' \<rparr>,
      \<lparr> tpl_template = Some ''job <*>'', tpl_check_pattern = None,
        tpl_description = Some ''any job event'' \<rparr>]
   = [\<lparr> vr_template = ''job start'', vr_check_pattern = ''job start'',
        vr_match_count = 1, vr_match_rate = 1 / 2, vr_total_count = 2 \<rparr>,
      \<lparr> vr_template = ''job <*>'', vr_check_pattern = ''job <*>'',
        vr_match_count = 2, vr_match_rate = 1, vr_total_count = 2 \<rparr>]"
  by (simp add: verify_split_templates_def verify_split_template_def check_pattern_by_event_def
                check_pattern_in_logs_def two_jobs_def row_of_def rstrip_def is_space_def
                convert_template_to_regex_def re_escape_def re_special_def wildcard_regex_def
                backslash_def py_re_fragment_def is_alnum_def Let_def)

text \<open>
  C7 fails on the dual-pattern path.  For the corpus of two lines \<^verbatim>\<open>job start\<close> and
  \<^verbatim>\<open>job end\<close>, the sampling result of the TEMPLATE stage and the oracle's proposal of the
  templates \<^verbatim>\<open>job start\<close> (one matching line) and \<^verbatim>\<open>job <*>\<close> (two matching lines),
  \<open>analyze_template_split\<close> stores the coverage 3/2, which exceeds 1; on the same input
  \<open>analyze_template_split_from_logs\<close> stores the capped value 1.
\<close>

theorem C7_dual_flow_coverage_exceeds_one:
  "check_dual_patterns_with_sampling py_re_fragment (csv two_jobs) ''job start'' ''job <*>'' 2
     = Inr two_jobs_sampling
   \<and> sa_coverage_rate (analyze_template_split py_re_fragment two_jobs two_jobs_sampling
                          split_proposal) = Some (3 / 2)
   \<and> sa_coverage_rate (analyze_template_split_from_logs py_re_fragment two_jobs
                          split_proposal) = Some 1"
proof -
  have d: "check_dual_patterns_with_sampling py_re_fragment (csv two_jobs) ''job start''
             ''job <*>'' 2 = Inr two_jobs_sampling"
    by (simp add: check_dual_patterns_with_sampling_def two_jobs_def two_jobs_sampling_def
                  row_of_def keep_sample_def convert_template_to_regex_def re_escape_def
                  re_special_def wildcard_regex_def backslash_def py_re_fragment_def
                  is_alnum_def Let_def)
  have u: "upper ''SPLIT'' = ''SPLIT''"
    by (simp add: upper_def upper_char_def)
  have a: "sa_coverage_rate (analyze_template_split py_re_fragment two_jobs two_jobs_sampling
                               split_proposal) = Some (3 / 2)"
    by (simp add: analyze_template_split_def parsed_split_fields_def split_proposal_def u
                  two_jobs_verification coverage_dual_def two_jobs_sampling_def Let_def)
  have b: "sa_coverage_rate (analyze_template_split_from_logs py_re_fragment two_jobs
                               split_proposal) = Some 1"
    by (simp add: analyze_template_split_from_logs_def parsed_split_fields_def
                  split_proposal_def u two_jobs_verification coverage_from_logs_def Let_def)
  show ?thesis using d a b by simp
qed

subsection \<open>The split trigger of the TEMPLATE stage\<close>

text \<open>
  When the dual-pattern check returns a result, a verification match rate strictly
  between 0 and 1 together with a positive match rate of the original template makes
  the TEMPLATE handler return \<open>REDIRECT_SPLIT\<close>, and the only oracle call of the handler
  is the request for the repair suggestion.
\<close>

lemma template_partial_match_splits:
  assumes fetch: "get_all_logs_for_event env" and rows: "csv_after_fetch env = Present rows"
    and c1: "confirmed_cause s \<noteq> ''DESCRIPTION_ERROR''"
    and c2: "confirmed_cause s \<noteq> ''GENERATOR_ERROR''"
    and c3: "confirmed_cause s \<noteq> ''NONE''"
    and rep: "needs_repair s" and new: "rs_new_template s \<noteq> template"
    and nc: "needs_check s" and cp: "check_pattern s \<noteq> []"
    and chk: "check_pattern_in_logs R (Present rows) (rstrip (check_pattern s))
                (check_pattern_is_regex s) = Inr chk"
    and lo: "0 < match_rate chk" and hi: "match_rate chk < 1"
    and dual: "check_dual_patterns_with_sampling R (Present rows) (rstrip (check_pattern s))
                 template 2 = Inr dual"
    and old: "0 < old_match_rate dual"
  shows "handle_template_error_v2 R env orc s template smps k =
           (\<lparr> status = REDIRECT_SPLIT, suggested_template = None,
              sampling_result = Some dual, new_template = Some (rs_new_template s),
              old_template = Some template \<rparr>, [AskTemplateRepair])"
proof -
  have am: "all_match chk \<longleftrightarrow> match_count chk = length rows"
    and rt: "match_rate chk = (if rows = [] then 0 else real (match_count chk) / real (length rows))"
    using check_ok_fields[OF chk] by blast+
  from lo rt have ne: "rows \<noteq> []" by (auto split: if_splits)
  have nam: "\<not> all_match chk"
  proof
    assume "all_match chk"
    with am have "match_count chk = length rows" by simp
    with rt ne have "match_rate chk = 1" by simp
    with hi show False by simp
  qed
  have e1: "check_pattern_by_event R \<lparr> csv = Present rows, regen = regen env \<rparr> p u
              = check_pattern_in_logs R (Present rows) p u" for p u
    by (simp add: check_pattern_by_event_def)
  have e2: "csv_after_regen \<lparr> csv = Present rows, regen = regen env \<rparr> = Present rows"
    by (simp add: csv_after_regen_def)
  show ?thesis
    using fetch c1 c2 c3 rep new nc cp nam lo hi old
    by (simp add: handle_template_error_v2_def rows e1 e2 chk dual Let_def)
qed

text \<open>
  The dual-pattern check returns a result exactly when both of its patterns compile, and
  then the match rate of the original template is positive exactly when the template's
  regex is found in at least one line of the corpus.
\<close>

lemma dual_check_returns_iff:
  "(\<exists>d. check_dual_patterns_with_sampling R (Present rows) np op k = Inr d) \<longleftrightarrow>
     re_valid R (if sublist ''<*>'' np then convert_template_to_regex np ''any'' else np)
     \<and> re_valid R (if sublist ''<*>'' op then convert_template_to_regex op ''any'' else op)"
  by (simp add: check_dual_patterns_with_sampling_def str_in_iff_sublist Let_def
           split: prod.splits)

lemma old_rate_positive_iff:
  assumes "check_dual_patterns_with_sampling R (Present rows) np op k = Inr d"
  shows "0 < old_match_rate d \<longleftrightarrow>
           (\<exists>r\<in>set rows. re_search R (old_regex d) (row_Content r))"
proof -
  let ?P = "\<lambda>r. re_search R (old_regex d) (row_Content r)"
  have cnt: "old_match_count (stats d) = length (filter ?P rows)"
    and rate: "old_match_rate d
                 = (if rows = [] then 0 else real (old_match_count (stats d)) / real (length rows))"
    using dual_ok_fields[OF assms] by blast+
  have "0 < length (filter ?P rows) \<longleftrightarrow> (\<exists>r\<in>set rows. ?P r)"
    by (simp add: filter_empty_conv)
  then show ?thesis
    by (cases "rows = []") (simp_all add: rate cnt zero_less_divide_iff)
qed

text \<open>
  C4 fails when the check pattern is plain text that is not a regular expression.  For
  the corpus of \<^verbatim>\<open>job done (ok\<close> and \<^verbatim>\<open>job failed\<close>, the template \<^verbatim>\<open>job <*>\<close> and the check
  pattern \<^verbatim>\<open>done (\<close>: the verification, which searches a plain pattern as a substring,
  yields the match rate 1/2; the original template matches both lines; the dual-pattern
  check compiles the same plain pattern as a regular expression and fails; and the
  handler asks the oracle for a redirect decision and returns its \<open>GIVE_UP\<close>, not
  \<open>REDIRECT_SPLIT\<close>.
\<close>

theorem C4_plain_check_pattern_consults_oracle:
  "map_sum id match_rate
     (check_pattern_by_event py_re_fragment
        \<lparr> csv = csv_after_fetch paren_jobs, regen = regen paren_jobs \<rparr>
        (rstrip (check_pattern paren_suggestion)) (check_pattern_is_regex paren_suggestion))
     = Inr (1 / 2)
   \<and> map_sum id match_count
       (check_pattern_by_event py_re_fragment
          \<lparr> csv = csv_after_fetch paren_jobs, regen = regen paren_jobs \<rparr> ''job <*>'' False)
       = Inr 2
   \<and> check_dual_patterns_with_sampling py_re_fragment (csv_after_fetch paren_jobs)
       (rstrip (check_pattern paren_suggestion)) ''job <*>'' 2 = Inl RegexError
   \<and> handle_template_error_v2 py_re_fragment paren_jobs give_up_oracle paren_suggestion
       ''job <*>'' [paren_sample] 3
       = (outcome GIVE_UP, [AskTemplateRepair, AskRedirect ''2.2a-template-repair''])"
proof -
  let ?E = "\<lparr> csv = csv_after_fetch paren_jobs, regen = regen paren_jobs \<rparr>"
  have rs': "rstrip ''done ('' = ''done (''"
    by (simp add: rstrip_def is_space_def)
  have rs: "rstrip (check_pattern paren_suggestion) = ''done (''"
    by (simp add: paren_suggestion_def rs')
  have f: "csv_after_fetch paren_jobs
             = Present [row_of ''1'' ''job done (ok'', row_of ''2'' ''job failed'']"
    by (simp add: csv_after_fetch_def paren_jobs_def)
  have chk: "check_pattern_by_event py_re_fragment ?E ''done ('' False
               = Inr \<lparr> all_match = False, total_count = 2, match_count = 1,
                       mismatch_count = 1, mismatch_samples = [row_of ''2'' ''job failed''],
                       match_rate = 1 / 2, pattern = ''done ('', use_regex = False,
                       auto_converted = False \<rparr>"
    by (simp add: f check_pattern_by_event_def check_pattern_in_logs_def row_of_def Let_def)
  have old: "map_sum id match_count (check_pattern_by_event py_re_fragment ?E ''job <*>'' False)
               = Inr 2"
    by (simp add: f check_pattern_by_event_def check_pattern_in_logs_def row_of_def
                  convert_template_to_regex_def re_escape_def re_special_def
                  wildcard_regex_def backslash_def py_re_fragment_def is_alnum_def Let_def)
  have dual: "check_dual_patterns_with_sampling py_re_fragment (csv_after_fetch paren_jobs)
                ''done ('' ''job <*>'' 2 = Inl RegexError"
    by (simp add: f check_dual_patterns_with_sampling_def convert_template_to_regex_def
                  re_escape_def re_special_def wildcard_regex_def backslash_def
                  py_re_fragment_def is_alnum_def Let_def)
  have g: "get_all_logs_for_event paren_jobs"
    by (simp add: get_all_logs_for_event_def paren_jobs_def)
  have r: "csv_after_regen ?E = csv_after_fetch paren_jobs"
    by (simp add: f csv_after_regen_def)
  have u: "upper ''GIVE_UP'' = ''GIVE_UP''"
    by (simp add: upper_def upper_char_def)
  have ask: "ask_redirect give_up_oracle ''2.2a-template-repair'' 3
               = (outcome GIVE_UP, [AskRedirect ''2.2a-template-repair''])"
    by (simp add: ask_redirect_def give_up_oracle_def ask_llm_for_redirect_decision_def
                  json_get_def u Let_def)
  have h: "handle_template_error_v2 py_re_fragment paren_jobs give_up_oracle paren_suggestion
             ''job <*>'' [paren_sample] 3
             = (outcome GIVE_UP, [AskTemplateRepair, AskRedirect ''2.2a-template-repair''])"
    using g
    by (simp add: handle_template_error_v2_def paren_suggestion_def rs' chk r dual ask Let_def)
  show ?thesis
  proof -
    have cr: "check_pattern_is_regex paren_suggestion = False"
      by (simp add: paren_suggestion_def)
    show ?thesis
      unfolding rs cr using old dual h by (simp add: chk)
  qed
qed

subsection \<open>Acceptance of a split\<close>


lemma ask_redirect_fields:
  "fst (ask_redirect orc st k)
     = outcome (decision (ask_llm_for_redirect_decision (o_redirect orc) st k))"
  "snd (ask_redirect orc st k) = [AskRedirect st]"
  by (simp_all add: ask_redirect_def)





















end
